(* ===== verification/Prelude.thy ===== *)
theory Prelude
  imports Main "HOL-Library.AList"
begin

text \<open>
  Shared vocabulary of the development: collections of facts, Go's string functions on byte
  strings, decimal numerals, and lemmas on association lists (the model of Go's maps).

  A Go \<open>string\<close> is a sequence of bytes, and so is an Isabelle \<open>string\<close> (a list of \<open>char\<close>, each
  eight bits): the two correspond byte for byte, and a rune outside ASCII is its UTF-8 bytes.
  A Go \<open>map[string]T\<close> is an association list with distinct keys, read by \<open>map_of\<close>, written by
  \<open>AList.update\<close> and \<open>AList.delete\<close>; the order of the list stands for the (unspecified) order in
  which a \<open>range\<close> loop visits the map.
\<close>

named_theorems wf_intros \<open>preservation of well-formedness, one rule for each operation\<close>
named_theorems obs_simps \<open>what an operation adds to the observable trace\<close>
named_theorems frame_simps \<open>fields that an operation leaves unchanged\<close>

section \<open>Characters\<close>

abbreviation byte_of :: "nat \<Rightarrow> char" where
  "byte_of n \<equiv> char_of n"

abbreviation code_of :: "char \<Rightarrow> nat" where
  "code_of c \<equiv> of_char c"

definition is_digit :: "char \<Rightarrow> bool" where
  "is_digit c \<longleftrightarrow> c \<in> set ''0123456789''"

definition is_lower :: "char \<Rightarrow> bool" where
  "is_lower c \<longleftrightarrow> c \<in> set ''abcdefghijklmnopqrstuvwxyz''"

definition is_upper :: "char \<Rightarrow> bool" where
  "is_upper c \<longleftrightarrow> c \<in> set ''ABCDEFGHIJKLMNOPQRSTUVWXYZ''"

definition byte_to_lower :: "char \<Rightarrow> char" where
  "byte_to_lower c = (if is_upper c then char_of ((of_char c :: int) + 32) else c)"

definition byte_to_upper :: "char \<Rightarrow> char" where
  "byte_to_upper c = (if is_lower c then char_of ((of_char c :: int) - 32) else c)"

definition strings_to_upper :: "string \<Rightarrow> string" where
  "strings_to_upper = List.map byte_to_upper"

section \<open>Prefixes, joining, splitting, trimming\<close>

fun has_prefix :: "string \<Rightarrow> string \<Rightarrow> bool" where
  "has_prefix s [] = True"
| "has_prefix [] (p # ps) = False"
| "has_prefix (c # s) (p # ps) = (c = p \<and> has_prefix s ps)"

lemma has_prefix_iff: "has_prefix s p \<longleftrightarrow> (\<exists>t. s = p @ t)"
  by (induction s p rule: has_prefix.induct) auto

lemma has_prefix_append [simp]: "has_prefix (p @ t) p"
  by (auto simp: has_prefix_iff)

fun strings_join :: "string list \<Rightarrow> string \<Rightarrow> string" where
  "strings_join [] sep = []"
| "strings_join [x] sep = x"
| "strings_join (x # y # ys) sep = x @ sep @ strings_join (y # ys) sep"

fun strings_split :: "string \<Rightarrow> char \<Rightarrow> string list" where
  "strings_split [] sep = [[]]"
| "strings_split (c # s) sep =
     (if c = sep then [] # strings_split s sep
      else (case strings_split s sep of
              [] \<Rightarrow> [[c]]
            | p # ps \<Rightarrow> (c # p) # ps))"

lemma strings_split_nonempty [simp]: "strings_split s sep \<noteq> []"
  by (cases s) (auto split: list.splits)

lemma join_split: "strings_join (strings_split s sep) [sep] = s"
proof (induction s sep rule: strings_split.induct)
  case (1 sep)
  then show ?case by simp
next
  case (2 c s sep)
  obtain p ps where p: "strings_split s sep = p # ps"
    by (cases "strings_split s sep") auto
  then show ?case using 2 by (cases ps) auto
qed

lemma split_parts_no_sep: "p \<in> set (strings_split s sep) \<Longrightarrow> sep \<notin> set p"
  by (induction s sep arbitrary: p rule: strings_split.induct)
     (auto split: if_splits list.splits)

lemma split_append_sep:
  "sep \<notin> set p \<Longrightarrow> strings_split (p @ sep # s) sep = p # strings_split s sep"
  by (induction p) auto

lemma append_sep_inj:
  "sep \<notin> set a \<Longrightarrow> sep \<notin> set b \<Longrightarrow> a @ sep # x = b @ sep # y \<longleftrightarrow> a = b \<and> x = y"
proof (induction a arbitrary: b)
  case Nil
  then show ?case by (cases b) auto
next
  case (Cons c a)
  then show ?case by (cases b) auto
qed

lemma split_no_sep: "sep \<notin> set p \<Longrightarrow> strings_split p sep = [p]"
  by (induction p) auto

lemma split_join:
  "xs \<noteq> [] \<Longrightarrow> (\<And>x. x \<in> set xs \<Longrightarrow> sep \<notin> set x) \<Longrightarrow> strings_split (strings_join xs [sep]) sep = xs"
  by (induction xs "[sep]" rule: strings_join.induct) (auto simp: split_no_sep split_append_sep)

text \<open>
  \<open>strings.TrimSpace\<close> drops the UTF-8 encodings of the Unicode white space (\<open>unicode.IsSpace\<close>)
  from both ends. The multi-byte ones are listed by their bytes.
\<close>

definition space_runes :: "string list" where
  "space_runes =
     [[CHR 0x09], [CHR 0x0A], [CHR 0x0B], [CHR 0x0C], [CHR 0x0D], [CHR 0x20],
      [CHR 0xC2, CHR 0x85], [CHR 0xC2, CHR 0xA0], [CHR 0xE1, CHR 0x9A, CHR 0x80],
      [CHR 0xE2, CHR 0x80, CHR 0xA8], [CHR 0xE2, CHR 0x80, CHR 0xA9],
      [CHR 0xE2, CHR 0x80, CHR 0xAF], [CHR 0xE2, CHR 0x81, CHR 0x9F],
      [CHR 0xE3, CHR 0x80, CHR 0x80], [CHR 0xE2, CHR 0x80, CHR 0x80],
      [CHR 0xE2, CHR 0x80, CHR 0x81], [CHR 0xE2, CHR 0x80, CHR 0x82],
      [CHR 0xE2, CHR 0x80, CHR 0x83], [CHR 0xE2, CHR 0x80, CHR 0x84],
      [CHR 0xE2, CHR 0x80, CHR 0x85], [CHR 0xE2, CHR 0x80, CHR 0x86],
      [CHR 0xE2, CHR 0x80, CHR 0x87], [CHR 0xE2, CHR 0x80, CHR 0x88],
      [CHR 0xE2, CHR 0x80, CHR 0x89], [CHR 0xE2, CHR 0x80, CHR 0x8A]]"

fun strip_one :: "string list \<Rightarrow> string \<Rightarrow> string option" where
  "strip_one [] s = None"
| "strip_one (p # ps) s =
     (if p \<noteq> [] \<and> has_prefix s p then Some (drop (length p) s) else strip_one ps s)"

lemma strip_one_shorter: "strip_one ps s = Some t \<Longrightarrow> length t < length s"
proof (induction ps s rule: strip_one.induct)
  case (2 p ps s)
  show ?case
  proof (cases "p \<noteq> [] \<and> has_prefix s p")
    case True
    with 2 show ?thesis by (auto simp: has_prefix_iff)
  next
    case False
    with 2 show ?thesis by simp
  qed
qed simp

function trim_left_runes :: "string list \<Rightarrow> string \<Rightarrow> string" where
  "trim_left_runes ps s = (case strip_one ps s of None \<Rightarrow> s | Some t \<Rightarrow> trim_left_runes ps t)"
  by pat_completeness auto
termination
  by (relation "measure (\<lambda>(ps, s). length s)") (auto dest: strip_one_shorter)

declare trim_left_runes.simps [simp del]

definition strings_trim_space :: "string \<Rightarrow> string" where
  "strings_trim_space s =
     rev (trim_left_runes (List.map rev space_runes) (rev (trim_left_runes space_runes s)))"

section \<open>Decimal numerals\<close>

definition digit_char :: "int \<Rightarrow> char" where
  "digit_char d = (''0123456789'' ! nat d)"

definition digit_val :: "char \<Rightarrow> int" where
  "digit_val c = of_char c - 48"

function udec :: "int \<Rightarrow> string" where
  "udec n = (if n < 10 then [digit_char n] else udec (n div 10) @ [digit_char (n mod 10)])"
  by pat_completeness auto
termination
  by (relation "measure nat") auto

declare udec.simps [simp del]

text \<open>The decimal rendering of an \<open>int\<close> (\<open>%d\<close>) and the value of a digit string.\<close>

definition int_dec :: "int \<Rightarrow> string" where
  "int_dec i = (if i < 0 then CHR ''-'' # udec (- i) else udec i)"

definition dec_val :: "string \<Rightarrow> int" where
  "dec_val s = foldl (\<lambda>a c. 10 * a + digit_val c) 0 s"

lemma digit_cases:
  "0 \<le> d \<Longrightarrow> (d::int) < 10 \<Longrightarrow>
   d = 0 \<or> d = 1 \<or> d = 2 \<or> d = 3 \<or> d = 4 \<or> d = 5 \<or> d = 6 \<or> d = 7 \<or> d = 8 \<or> d = 9"
  by arith

lemma digit_char_props:
  assumes "0 \<le> d" "d < 10"
  shows "is_digit (digit_char d)" and "digit_val (digit_char d) = d"
  using digit_cases [OF assms]
  by (auto simp: digit_char_def is_digit_def digit_val_def)

lemma udec_digits: "0 \<le> n \<Longrightarrow> c \<in> set (udec n) \<Longrightarrow> is_digit c"
proof (induction n rule: udec.induct)
  case (1 n)
  then show ?case
    by (cases "n < 10") (auto simp: udec.simps [of n] digit_char_props)
qed

lemma udec_nonempty [simp]: "udec n \<noteq> []"
  by (subst udec.simps) simp

lemma dec_val_udec [simp]: "0 \<le> n \<Longrightarrow> dec_val (udec n) = n"
proof (induction n rule: udec.induct)
  case (1 n)
  show ?case
  proof (cases "n < 10")
    case True
    then show ?thesis using 1
      by (simp add: udec.simps [of n] dec_val_def digit_char_props)
  next
    case False
    then have "foldl (\<lambda>a c. 10 * a + digit_val c) 0 (udec (n div 10)) = n div 10"
      using 1 by (simp add: dec_val_def)
    with False show ?thesis
      by (simp add: udec.simps [of n] dec_val_def digit_char_props)
  qed
qed

lemma udec_inj: "0 \<le> m \<Longrightarrow> 0 \<le> n \<Longrightarrow> udec m = udec n \<longleftrightarrow> m = n"
  by (metis dec_val_udec)

lemma udec_no_char: "0 \<le> n \<Longrightarrow> \<not> is_digit c \<Longrightarrow> c \<notin> set (udec n)"
  by (auto dest: udec_digits)

text \<open>\<open>strconv.Atoi\<close>: an optional sign, at least one digit, nothing else, and a 64-bit result.\<close>

definition strconv_atoi :: "string \<Rightarrow> int option" where
  "strconv_atoi s =
     (let (neg, ds) = (case s of
            [] \<Rightarrow> (False, [])
          | c # cs \<Rightarrow> if c = CHR ''-'' then (True, cs) else if c = CHR ''+'' then (False, cs) else (False, s))
      in if ds = [] \<or> \<not> list_all is_digit ds then None
         else let v = (if neg then - dec_val ds else dec_val ds)
              in if - (2 ^ 63) \<le> v \<and> v < 2 ^ 63 then Some v else None)"

lemma strconv_atoi_udec:
  assumes "0 \<le> n" "n < 2 ^ 63"
  shows "strconv_atoi (udec n) = Some n"
proof -
  obtain c cs where ncs: "udec n = c # cs" by (cases "udec n") auto
  have "is_digit c" using udec_digits [of n c] ncs assms by simp
  then have "c \<noteq> CHR ''-''" "c \<noteq> CHR ''+''" by (auto simp: is_digit_def)
  moreover have "list_all is_digit (udec n)"
    using assms by (auto simp: list_all_iff udec_digits)
  moreover have "- (2 ^ 63) \<le> n" using assms by simp
  ultimately show ?thesis
    using assms ncs by (simp add: strconv_atoi_def Let_def dec_val_udec [of n, unfolded ncs])
qed

section \<open>Association lists as Go maps\<close>

definition keys :: "(string \<times> 'a) list \<Rightarrow> string list" where
  "keys m = List.map fst m"

lemma keys_simps [simp]: "keys [] = []" "keys ((k, v) # m) = k # keys m" "keys (m @ m') = keys m @ keys m'"
  by (simp_all add: keys_def)

lemma map_of_None_keys: "map_of m k = None \<longleftrightarrow> k \<notin> set (keys m)"
  by (simp add: keys_def map_of_eq_None_iff)

lemma in_keysD: "k \<in> set (keys m) \<Longrightarrow> \<exists>v. map_of m k = Some v"
  by (metis map_of_None_keys not_None_eq)

lemma update_fresh: "k \<notin> set (keys m) \<Longrightarrow> AList.update k v m = m @ [(k, v)]"
  by (induction m) (auto simp: keys_def)

lemma keys_update_present: "k \<in> set (keys m) \<Longrightarrow> keys (AList.update k v m) = keys m"
  by (induction m) (auto simp: keys_def)

lemma keys_update: "set (keys (AList.update k v m)) = insert k (set (keys m))"
  by (cases "k \<in> set (keys m)") (auto simp: update_fresh keys_update_present)

lemma length_update:
  "length (AList.update k v m) = (if k \<in> set (keys m) then length m else Suc (length m))"
  by (metis keys_def keys_update_present length_append_singleton length_map update_fresh)

lemma distinct_keys_update: "distinct (keys m) \<Longrightarrow> distinct (keys (AList.update k v m))"
  by (simp add: distinct_update keys_def)

lemma set_update_distinct:
  "distinct (keys m) \<Longrightarrow>
   set (AList.update k v m) = insert (k, v) {(k', v') \<in> set m. k' \<noteq> k}"
  by (induction m) (auto simp: keys_def image_iff)

lemma length_keys: "distinct (keys m) \<Longrightarrow> length m = card (set (keys m))"
  by (metis distinct_card keys_def length_map)

lemma keys_delete: "keys (AList.delete k m) = List.filter (\<lambda>k'. k' \<noteq> k) (keys m)"
  by (induction m) (auto simp: keys_def AList.delete_eq)

lemma set_delete: "set (AList.delete k m) = {(k', v') \<in> set m. k' \<noteq> k}"
  by (auto simp: AList.delete_eq)

lemma distinct_keys_delete: "distinct (keys m) \<Longrightarrow> distinct (keys (AList.delete k m))"
  by (simp add: keys_delete)

lemma length_delete:
  assumes "distinct (keys m)"
  shows "length (AList.delete k m) = (if k \<in> set (keys m) then length m - 1 else length m)"
proof -
  have "length (AList.delete k m) = length (removeAll k (keys m))"
    by (metis AList.delete_keys keys_def length_map)
  also have "\<dots> = (if k \<in> set (keys m) then length m - 1 else length m)"
    using assms by (simp add: keys_def distinct_remove1_removeAll [symmetric] length_remove1)
  finally show ?thesis .
qed

lemma map_of_delete: "map_of (AList.delete k m) k' = (if k' = k then None else map_of m k')"
  by (simp add: delete_conv')

lemma map_of_update: "map_of (AList.update k v m) k' = (if k' = k then Some v else map_of m k')"
  by (simp add: update_conv')

lemma map_of_in_set: "map_of m k = Some v \<Longrightarrow> (k, v) \<in> set m"
  by (rule map_of_SomeD)

lemma in_set_keys: "(k, v) \<in> set m \<Longrightarrow> k \<in> set (keys m)"
  by (force simp: keys_def)

lemma map_of_some_keys: "map_of m k = Some v \<Longrightarrow> k \<in> set (keys m)"
  by (metis map_of_None_keys option.distinct(1))

lemma map_of_eq_distinct: "distinct (keys m) \<Longrightarrow> (k, v) \<in> set m \<Longrightarrow> map_of m k = Some v"
  by (simp add: keys_def)

lemmas amap_simps = map_of_update map_of_delete keys_update keys_delete set_delete
  map_of_None_keys update_fresh length_update

lemmas amap_wf = distinct_keys_update distinct_keys_delete

lemma fold_invariant_list:
  assumes "P s" and "\<And>x s. x \<in> set xs \<Longrightarrow> P s \<Longrightarrow> P (f x s)"
  shows "P (fold f xs s)"
  using assms by (induction xs arbitrary: s) auto

end
