(* ===== verification/Json_Text.thy ===== *)
theory Json_Text
  imports Prelude
begin

text \<open>
  The byte level of Go's \<open>encoding/json\<close>: UTF-8, string literals (quoting with HTML escaping, as
  \<open>json.Marshal\<close> does it, and unquoting, as \<open>json.Unmarshal\<close> does it), and numbers, which become
  float64 values when they are decoded into an \<open>interface{}\<close>.
\<close>

section \<open>UTF-8\<close>

definition byte_in :: "char \<Rightarrow> int \<Rightarrow> int \<Rightarrow> bool" where
  "byte_in c lo hi \<longleftrightarrow> lo \<le> of_char c \<and> of_char c \<le> hi"

text \<open>
  The width of the well-formed multi-byte rune at the head of a string, 0 where there is none
  (the acceptance ranges of \<open>unicode/utf8\<close>).
\<close>

definition utf8_width :: "string \<Rightarrow> nat" where
  "utf8_width s = (case s of
      a # b # r \<Rightarrow>
        (if byte_in a 0xC2 0xDF then (if byte_in b 0x80 0xBF then 2 else 0)
         else if byte_in a 0xE0 0xEF then
           (case r of
              c # _ \<Rightarrow>
                if byte_in b (if byte_in a 0xE0 0xE0 then 0xA0 else 0x80) (if byte_in a 0xED 0xED then 0x9F else 0xBF)
                   \<and> byte_in c 0x80 0xBF
                then 3 else 0
            | [] \<Rightarrow> 0)
         else if byte_in a 0xF0 0xF4 then
           (case r of
              c # d # _ \<Rightarrow>
                if byte_in b (if byte_in a 0xF0 0xF0 then 0x90 else 0x80) (if byte_in a 0xF4 0xF4 then 0x8F else 0xBF)
                   \<and> byte_in c 0x80 0xBF \<and> byte_in d 0x80 0xBF
                then 4 else 0
            | _ \<Rightarrow> 0)
         else 0)
    | _ \<Rightarrow> 0)"

definition rune_error :: string where
  "rune_error = [char_of (0xEF::int), char_of (0xBF::int), char_of (0xBD::int)]"

definition utf8_encode :: "int \<Rightarrow> string" where
  "utf8_encode r =
     (if r < 0x80 then [char_of r]
      else if r < 0x800 then [char_of (0xC0 + r div 64), char_of (0x80 + r mod 64)]
      else if r < 0x10000 then
        [char_of (0xE0 + r div 4096), char_of (0x80 + r div 64 mod 64), char_of (0x80 + r mod 64)]
      else [char_of (0xF0 + r div 262144), char_of (0x80 + r div 4096 mod 64),
            char_of (0x80 + r div 64 mod 64), char_of (0x80 + r mod 64)])"

definition is_ascii :: "char \<Rightarrow> bool" where
  "is_ascii c \<longleftrightarrow> of_char c < (0x80 :: int)"

fun utf8_valid :: "string \<Rightarrow> bool" where
  "utf8_valid [] = True"
| "utf8_valid (c # s) =
     (if is_ascii c then utf8_valid s
      else if utf8_width (c # s) = 0 then False
      else utf8_valid (drop (utf8_width (c # s) - 1) s))"

lemma ascii_valid: "list_all is_ascii s \<Longrightarrow> utf8_valid s"
  by (induction s) auto

section \<open>String literals\<close>

definition hex_lower :: "int \<Rightarrow> char" where
  "hex_lower d = (''0123456789abcdef'' ! nat d)"

definition hex_value :: "char \<Rightarrow> int option" where
  "hex_value c =
     (if is_digit c then Some (of_char c - 48)
      else if c \<in> set ''abcdef'' then Some (of_char c - 87)
      else if c \<in> set ''ABCDEF'' then Some (of_char c - 55)
      else None)"

text \<open>The escape sequence \<open>json.Marshal\<close> writes for an ASCII byte, if it writes one.\<close>

definition escape_ascii :: "char \<Rightarrow> string" where
  "escape_ascii c =
     (if c = CHR 0x22 then [CHR 0x5C, CHR 0x22]
      else if c = CHR 0x5C then [CHR 0x5C, CHR 0x5C]
      else if c = CHR 0x08 then [CHR 0x5C, CHR ''b'']
      else if c = CHR 0x0C then [CHR 0x5C, CHR ''f'']
      else if c = CHR 0x0A then [CHR 0x5C, CHR ''n'']
      else if c = CHR 0x0D then [CHR 0x5C, CHR ''r'']
      else if c = CHR 0x09 then [CHR 0x5C, CHR ''t'']
      else if byte_in c 0 0x1F \<or> c \<in> set ''<>&'' then
        [CHR 0x5C, CHR ''u'', CHR ''0'', CHR ''0'', hex_lower (of_char c div 16), hex_lower (of_char c mod 16)]
      else [c])"

fun quote_body :: "string \<Rightarrow> string" where
  "quote_body [] = []"
| "quote_body (c # s) =
     (if is_ascii c then escape_ascii c @ quote_body s
      else (let w = utf8_width (c # s) in
        if w = 0 then [CHR 0x5C] @ ''ufffd'' @ quote_body s
        else (let r = take w (c # s) in
           (if r = [CHR 0xE2, CHR 0x80, CHR 0xA8] then [CHR 0x5C] @ ''u2028''
            else if r = [CHR 0xE2, CHR 0x80, CHR 0xA9] then [CHR 0x5C] @ ''u2029''
            else r) @ quote_body (drop (w - 1) s))))"

definition json_quote :: "string \<Rightarrow> string" where
  "json_quote s = CHR 0x22 # quote_body s @ [CHR 0x22]"

definition hex4 :: "string \<Rightarrow> int option" where
  "hex4 s = (case s of
      a # b # c # d # _ \<Rightarrow>
        (case (hex_value a, hex_value b, hex_value c, hex_value d) of
           (Some x, Some y, Some z, Some w) \<Rightarrow> Some (4096 * x + 256 * y + 16 * z + w)
         | _ \<Rightarrow> None)
    | _ \<Rightarrow> None)"

definition simple_escape :: "char \<Rightarrow> char option" where
  "simple_escape e =
     (if e \<in> {CHR 0x22, CHR 0x5C, CHR ''/''} then Some e
      else if e = CHR ''b'' then Some (CHR 0x08)
      else if e = CHR ''f'' then Some (CHR 0x0C)
      else if e = CHR ''n'' then Some (CHR 0x0A)
      else if e = CHR ''r'' then Some (CHR 0x0D)
      else if e = CHR ''t'' then Some (CHR 0x09)
      else None)"

definition is_surrogate :: "int \<Rightarrow> bool" where
  "is_surrogate r \<longleftrightarrow> 0xD800 \<le> r \<and> r < 0xE000"

text \<open>
  \<open>unquote\<close> on the body of a literal: escapes are resolved, surrogate pairs combined, an
  unpaired surrogate or a malformed byte becomes U+FFFD; a control character or an unknown
  escape is a syntax error. \<open>surrogate_tail\<close> is the low half that follows a high one.
\<close>

definition surrogate_tail :: "int \<Rightarrow> string \<Rightarrow> int option" where
  "surrogate_tail r t = (case t of
      b # u # t' \<Rightarrow>
        if b = CHR 0x5C \<and> u = CHR ''u'' \<and> r < 0xDC00 then
          (case hex4 t' of
             Some r' \<Rightarrow> if 0xDC00 \<le> r' \<and> r' < 0xE000 then Some (0x10000 + (r - 0xD800) * 1024 + (r' - 0xDC00)) else None
           | None \<Rightarrow> None)
        else None
    | _ \<Rightarrow> None)"

fun unquote :: "string \<Rightarrow> string option" where
  "unquote [] = Some []"
| "unquote (c # s) =
     (if c = CHR 0x5C then
        (case s of
           [] \<Rightarrow> None
         | e # t \<Rightarrow>
             if e = CHR ''u'' then
               (case hex4 t of
                  None \<Rightarrow> None
                | Some r \<Rightarrow>
                    if is_surrogate r then
                      (case surrogate_tail r (drop 4 t) of
                         Some r' \<Rightarrow> map_option ((@) (utf8_encode r')) (unquote (drop 10 t))
                       | None \<Rightarrow> map_option ((@) rune_error) (unquote (drop 4 t)))
                    else map_option ((@) (utf8_encode r)) (unquote (drop 4 t)))
             else (case simple_escape e of None \<Rightarrow> None | Some x \<Rightarrow> map_option ((#) x) (unquote t)))
      else if c = CHR 0x22 \<or> byte_in c 0 0x1F then None
      else if is_ascii c then map_option ((#) c) (unquote s)
      else (let w = utf8_width (c # s) in
        if w = 0 then map_option ((@) rune_error) (unquote s)
        else map_option ((@) (take w (c # s))) (unquote (drop (w - 1) s))))"

section \<open>Numbers\<close>

text \<open>A finite float64: sign, 53-bit significand and exponent; the value is \<open>\<plusminus>m * 2 ^ e\<close>.\<close>

datatype float64 = F64 bool int int

definition pow_int :: "int \<Rightarrow> int \<Rightarrow> int" where
  "pow_int b e = b ^ nat e"

function bit_len :: "int \<Rightarrow> int" where
  "bit_len n = (if n \<le> 0 then 0 else 1 + bit_len (n div 2))"
  by pat_completeness auto
termination
  by (relation "measure nat") auto

declare bit_len.simps [simp del]

text \<open>Round the positive rational \<open>num / den\<close> to the nearest float64, ties to even; \<open>None\<close> is overflow.\<close>

definition round_ratio :: "bool \<Rightarrow> int \<Rightarrow> int \<Rightarrow> float64 option" where
  "round_ratio neg num den =
     (let a = bit_len num - bit_len den;
          lg = (if num * pow_int 2 (- a) \<ge> den * pow_int 2 a then a else a - 1);
          k = max (-1074) (lg - 52);
          n = num * pow_int 2 (- k); d = den * pow_int 2 k;
          q = n div d; r = n mod d;
          q' = (if 2 * r > d \<or> (2 * r = d \<and> odd q) then q + 1 else q);
          (m, e) = (if q' = 2 ^ 53 then (2 ^ 52, k + 1) else (q', k))
      in if e > 971 then None else Some (F64 neg m e))"

definition decimal_float :: "bool \<Rightarrow> int \<Rightarrow> int \<Rightarrow> float64 option" where
  "decimal_float neg d e10 =
     (if d = 0 then Some (F64 neg 0 (-1074))
      else round_ratio neg (d * pow_int 10 e10) (pow_int 10 (- e10)))"

text \<open>The JSON grammar of numbers: (negative, digits, number of fraction digits, exponent).\<close>

definition json_number :: "string \<Rightarrow> (bool \<times> string \<times> int \<times> int) option" where
  "json_number s =
     (let (neg, s1) = (case s of c # t \<Rightarrow> if c = CHR ''-'' then (True, t) else (False, s) | [] \<Rightarrow> (False, []));
          ip = takeWhile is_digit s1; s2 = dropWhile is_digit s1;
          (dot, s3) = (case s2 of c # t \<Rightarrow> if c = CHR ''.'' then (True, t) else (False, s2) | [] \<Rightarrow> (False, []));
          fp = (if dot then takeWhile is_digit s3 else []);
          s4 = (if dot then dropWhile is_digit s3 else s3);
          (ex, s5) = (case s4 of c # t \<Rightarrow> if c \<in> set ''eE'' then (True, t) else (False, s4) | [] \<Rightarrow> (False, []));
          (eneg, s6) = (case s5 of c # t \<Rightarrow> if ex \<and> c \<in> set ''+-'' then (c = CHR ''-'', t) else (False, s5) | [] \<Rightarrow> (False, []));
          ed = (if ex then takeWhile is_digit s6 else []);
          s7 = (if ex then dropWhile is_digit s6 else s6)
      in if ip = [] \<or> (length ip > 1 \<and> hd ip = CHR ''0'') \<or> (dot \<and> fp = []) \<or> (ex \<and> ed = []) \<or> s7 \<noteq> []
         then None
         else Some (neg, ip @ fp, int (length fp), if eneg then - dec_val ed else dec_val ed))"

definition parse_float :: "string \<Rightarrow> float64 option" where
  "parse_float s = (case json_number s of
      None \<Rightarrow> None
    | Some (neg, ds, fl, e) \<Rightarrow> decimal_float neg (dec_val ds) (e - fl))"

text \<open>
  The encoder writes the shortest decimal that reads back as the same float64, in positional
  notation unless the exponent is below -6 or above 20. The candidates with \<open>n\<close> digits are the
  two decimals around the value, the nearer one first.
\<close>

definition zeros :: "int \<Rightarrow> string" where
  "zeros n = replicate (nat n) (CHR ''0'')"

definition strip_zeros :: "string \<Rightarrow> string" where
  "strip_zeros s = rev (dropWhile (\<lambda>c. c = CHR ''0'') (rev s))"

text \<open>The text of \<open>0.ds * 10 ^ dp\<close>.\<close>

definition float_layout :: "bool \<Rightarrow> string \<Rightarrow> int \<Rightarrow> string" where
  "float_layout neg ds dp =
     (if neg then ''-'' else []) @
     (if dp < -5 \<or> dp > 21 then
        take 1 ds @ (if length ds > 1 then ''.'' @ drop 1 ds else []) @ ''e'' @
        (if dp - 1 < 0 then int_dec (dp - 1) else ''+'' @ int_dec (dp - 1))
      else if dp \<le> 0 then ''0.'' @ zeros (- dp) @ ds
      else if int (length ds) \<le> dp then ds @ zeros (dp - int (length ds))
      else take (nat dp) ds @ ''.'' @ drop (nat dp) ds)"

definition dec_point :: "int \<Rightarrow> int \<Rightarrow> int" where
  "dec_point num den =
     (let k = ((bit_len num - bit_len den) * 30103) div 100000 - 1
      in (case List.find (\<lambda>j. num * pow_int 10 (- j) < den * pow_int 10 j) [k, k + 1, k + 2, k + 3] of
            Some j \<Rightarrow> j | None \<Rightarrow> k + 4))"

definition float_candidates :: "bool \<Rightarrow> int \<Rightarrow> int \<Rightarrow> int \<Rightarrow> int \<Rightarrow> string list" where
  "float_candidates neg num den dp n =
     (let p = dp - n; x = num * pow_int 10 (- p); d = den * pow_int 10 p;
          q = x div d; r = x mod d;
          cs = (if 2 * r > d \<or> (2 * r = d \<and> odd q) then [q + 1, q] else [q, q + 1])
      in List.map (\<lambda>c. let ds = int_dec c in float_layout neg (strip_zeros ds) (p + int (length ds))) cs)"

definition format_float :: "float64 \<Rightarrow> string" where
  "format_float f = (case f of F64 neg m e \<Rightarrow>
     if m = 0 then (if neg then ''-0'' else ''0'')
     else (let num = m * pow_int 2 e; den = pow_int 2 (- e); dp = dec_point num den
       in (case List.find (\<lambda>t. parse_float t = Some f)
                 (concat (List.map (float_candidates neg num den dp) [1, 2, 3, 4, 5, 6, 7, 8, 9, 10, 11, 12, 13, 14, 15, 16, 17])) of
             Some t \<Rightarrow> t
           | None \<Rightarrow> hd (float_candidates neg num den dp 17))))"

end
