(* ===== verification/Json.thy ===== *)
theory Json
  imports Json_Text "HOL-Library.List_Lexorder" "HOL-Library.Char_ord"
begin

text \<open>
  Go's \<open>encoding/json\<close> as the server uses it. \<open>json\<close> is the syntax tree of a text; an object member
  keeps the raw text of its value, which is what a \<open>json.RawMessage\<close> field receives. \<open>gval\<close> is the
  value an \<open>interface{}\<close> receives: numbers are float64, an object is a map. The parser is the
  stack machine of the Go scanner: one token at a time over a stack of open arrays and objects,
  at most 10000 deep.
\<close>

section \<open>Tokens\<close>

datatype json =
    JNull
  | JBool bool
  | JNum string
  | JStr string
  | JArr "json list"
  | JObj "(string \<times> string \<times> json) list"

datatype token = Tok (tok_ws: string) (tok_text: string)

definition is_ws :: "char \<Rightarrow> bool" where
  "is_ws c \<longleftrightarrow> c = CHR '' '' \<or> c = CHR 0x09 \<or> c = CHR 0x0A \<or> c = CHR 0x0D"

definition is_punct :: "char \<Rightarrow> bool" where
  "is_punct c \<longleftrightarrow> c \<in> set ''{}[]:,''"

definition is_word :: "char \<Rightarrow> bool" where
  "is_word c \<longleftrightarrow> \<not> is_ws c \<and> \<not> is_punct c \<and> c \<noteq> CHR 0x22"

text \<open>The body of a string literal up to its closing quote, and what follows the quote.\<close>

fun str_scan :: "string \<Rightarrow> (string \<times> string) option" where
  "str_scan [] = None"
| "str_scan (c # s) =
     (if c = CHR 0x22 then Some ([], s)
      else if c = CHR 0x5C then
        (case s of [] \<Rightarrow> None
         | e # t \<Rightarrow> map_option (\<lambda>(b, r). (c # e # b, r)) (str_scan t))
      else map_option (\<lambda>(b, r). (c # b, r)) (str_scan s))"

definition next_tok :: "string \<Rightarrow> (token \<times> string) option" where
  "next_tok s =
     (let ws = takeWhile is_ws s
      in case dropWhile is_ws s of
           [] \<Rightarrow> None
         | c # cs \<Rightarrow>
             if is_punct c then Some (Tok ws [c], cs)
             else if c = CHR 0x22 then
               map_option (\<lambda>(b, r). (Tok ws (c # b @ [c]), r)) (str_scan cs)
             else Some (Tok ws (takeWhile is_word (c # cs)), dropWhile is_word (c # cs)))"

definition scalar :: "string \<Rightarrow> json option" where
  "scalar t =
     (if t = ''null'' then Some JNull
      else if t = ''true'' then Some (JBool True)
      else if t = ''false'' then Some (JBool False)
      else (case t of
              [] \<Rightarrow> None
            | c # b \<Rightarrow> if c = CHR 0x22 then map_option JStr (unquote (butlast b))
                      else if json_number t = None then None else Some (JNum t)))"

section \<open>The stack machine\<close>

text \<open>
  An open array or object: the white space before it, the pieces of its text so far (newest
  first), its elements or members so far (newest first), and the key read last.
\<close>

datatype frame =
    ArrF string "string list" "json list"
  | ObjF string "string list" "(string \<times> string \<times> json) list" "string option"

datatype need = NeedVal | NeedValOrEnd | NeedKeyOrEnd | NeedKey | NeedColon | NeedSep

datatype outcome = Fail | Done json string | More need "frame list"

fun put_value :: "json \<Rightarrow> string \<Rightarrow> string \<Rightarrow> frame list \<Rightarrow> outcome" where
  "put_value j ws raw [] = Done j raw"
| "put_value j ws raw (ArrF w ps js # st) = More NeedSep (ArrF w (raw # ws # ps) (j # js) # st)"
| "put_value j ws raw (ObjF w ps ms (Some k) # st) =
     More NeedSep (ObjF w (raw # ws # ps) ((k, raw, j) # ms) None # st)"
| "put_value j ws raw (ObjF w ps ms None # st) = Fail"

fun close_frame :: "string \<Rightarrow> string \<Rightarrow> frame list \<Rightarrow> outcome" where
  "close_frame ws t (ArrF w ps js # st) =
     (if t = '']'' then put_value (JArr (rev js)) w (concat (rev (t # ws # ps))) st else Fail)"
| "close_frame ws t (ObjF w ps ms None # st) =
     (if t = ''}'' then put_value (JObj (rev ms)) w (concat (rev (t # ws # ps))) st else Fail)"
| "close_frame ws t st = Fail"

definition open_value :: "string \<Rightarrow> string \<Rightarrow> frame list \<Rightarrow> outcome" where
  "open_value ws t st =
     (if t = ''{'' then (if int (length st) < 10000 then More NeedKeyOrEnd (ObjF ws [t] [] None # st) else Fail)
      else if t = ''['' then (if int (length st) < 10000 then More NeedValOrEnd (ArrF ws [t] [] # st) else Fail)
      else (case scalar t of Some j \<Rightarrow> put_value j ws t st | None \<Rightarrow> Fail))"

fun add_key :: "string \<Rightarrow> string \<Rightarrow> frame list \<Rightarrow> outcome" where
  "add_key ws t (ObjF w ps ms None # st) =
     (case scalar t of
        Some (JStr k) \<Rightarrow> More NeedColon (ObjF w (t # ws # ps) ms (Some k) # st)
      | _ \<Rightarrow> Fail)"
| "add_key ws t st = Fail"

fun add_sep :: "string \<Rightarrow> string \<Rightarrow> frame list \<Rightarrow> outcome" where
  "add_sep ws t (ArrF w ps js # st) =
     (if t = '','' then More NeedVal (ArrF w (t # ws # ps) js # st) else close_frame ws t (ArrF w ps js # st))"
| "add_sep ws t (ObjF w ps ms k # st) =
     (if t = '','' then More NeedKey (ObjF w (t # ws # ps) ms k # st) else close_frame ws t (ObjF w ps ms k # st))"
| "add_sep ws t [] = Fail"

fun add_colon :: "string \<Rightarrow> string \<Rightarrow> frame list \<Rightarrow> outcome" where
  "add_colon ws t (ObjF w ps ms k # st) =
     (if t = '':'' then More NeedVal (ObjF w (t # ws # ps) ms k # st) else Fail)"
| "add_colon ws t st = Fail"

fun json_step :: "token \<Rightarrow> need \<Rightarrow> frame list \<Rightarrow> outcome" where
  "json_step (Tok ws t) NeedVal st = open_value ws t st"
| "json_step (Tok ws t) NeedValOrEnd st = (if t = '']'' then close_frame ws t st else open_value ws t st)"
| "json_step (Tok ws t) NeedKeyOrEnd st = (if t = ''}'' then close_frame ws t st else add_key ws t st)"
| "json_step (Tok ws t) NeedKey st = add_key ws t st"
| "json_step (Tok ws t) NeedColon st = add_colon ws t st"
| "json_step (Tok ws t) NeedSep st = add_sep ws t st"

lemma str_scan_shorter: "str_scan s = Some (b, r) \<Longrightarrow> length r < length s"
proof (induction s arbitrary: b r rule: str_scan.induct)
  case (2 c s)
  then show ?case
    by (fastforce split: if_splits list.splits)
qed simp

lemma next_tok_shorter: "next_tok s = Some (t, r) \<Longrightarrow> length r < length s"
proof -
  assume a: "next_tok s = Some (t, r)"
  then obtain c cs where d: "dropWhile is_ws s = c # cs"
    by (auto simp: next_tok_def Let_def split: list.splits)
  have le: "length (c # cs) \<le> length s" using length_dropWhile_le [of is_ws s] by (simp add: d)
  have "\<not> is_ws c" using d hd_dropWhile [of is_ws s] by (metis list.distinct(1) list.sel(1))
  then have w: "\<not> is_punct c \<Longrightarrow> c \<noteq> CHR 0x22 \<Longrightarrow> is_word c" by (simp add: is_word_def)
  have "length r < length (c # cs)"
  proof (cases "is_punct c \<or> c = CHR 0x22")
    case True
    then show ?thesis using a d
      by (auto simp: next_tok_def Let_def dest!: str_scan_shorter split: if_splits)
  next
    case False
    then have "r = dropWhile is_word cs" using a d w by (simp add: next_tok_def Let_def)
    then show ?thesis using length_dropWhile_le [of is_word cs] by simp
  qed
  with le show ?thesis by simp
qed

function json_run :: "string \<Rightarrow> need \<Rightarrow> frame list \<Rightarrow> (json \<times> string \<times> string) option" where
  "json_run s n st =
     (case next_tok s of
        None \<Rightarrow> None
      | Some (t, r) \<Rightarrow>
          (case json_step t n st of
             Fail \<Rightarrow> None
           | Done j raw \<Rightarrow> Some (j, raw, r)
           | More n' st' \<Rightarrow> json_run r n' st'))"
  by pat_completeness auto
termination
  by (relation "measure (\<lambda>(s, n, st). length s)") (auto dest: next_tok_shorter)

declare json_run.simps [simp del]

text \<open>
  \<open>json_parse\<close> is the syntax check and reading of \<open>json.Unmarshal\<close>: one value and nothing but white
  space after it. \<open>json_first\<close> is a \<open>json.Decoder\<close> on a stream, its first value: what follows the end of
  the value is not looked at, so a word or a number at the top ends where it is complete.
\<close>

definition json_parse :: "string \<Rightarrow> json option" where
  "json_parse s = (case json_run s NeedVal [] of
      Some (j, raw, r) \<Rightarrow> if list_all is_ws r then Some j else None
    | None \<Rightarrow> None)"

definition scan_fraction :: "string \<Rightarrow> (string \<times> string) option" where
  "scan_fraction s =
     (if has_prefix s ''.''
      then let fp = takeWhile is_digit (tl s)
           in if fp = [] then None else Some (CHR ''.'' # fp, drop (length fp) (tl s))
      else Some ([], s))"

definition scan_exponent :: "string \<Rightarrow> (string \<times> string) option" where
  "scan_exponent s =
     (if s \<noteq> [] \<and> hd s \<in> set ''eE''
      then let sg = (if tl s \<noteq> [] \<and> hd (tl s) \<in> set ''+-'' then [hd (tl s)] else []);
               ed = takeWhile is_digit (drop (length sg) (tl s))
           in if ed = [] then None else Some (hd s # sg @ ed, drop (length (sg @ ed)) (tl s))
      else Some ([], s))"

text \<open>The number at the head of a text; \<open>None\<close> if the scanner stops where a digit must follow.\<close>

definition scan_number :: "string \<Rightarrow> string option" where
  "scan_number s =
     (let sg = (if has_prefix s ''-'' then ''-'' else []); s1 = drop (length sg) s;
          ip = (if has_prefix s1 ''0'' then ''0'' else takeWhile is_digit s1)
      in if ip = [] then None
         else (case scan_fraction (drop (length ip) s1) of
                 None \<Rightarrow> None
               | Some (fp, s2) \<Rightarrow> (case scan_exponent s2 of None \<Rightarrow> None | Some (ep, s3) \<Rightarrow> Some (sg @ ip @ fp @ ep))))"

definition json_first :: "string \<Rightarrow> json option" where
  "json_first s =
     (let t = dropWhile is_ws s
      in if t = [] then None
         else if hd t \<in> set ''{['' \<or> hd t = CHR 0x22 then map_option fst (json_run t NeedVal [])
         else if has_prefix t ''null'' then Some JNull
         else if has_prefix t ''true'' then Some (JBool True)
         else if has_prefix t ''false'' then Some (JBool False)
         else map_option JNum (scan_number t))"

lemma json_first_examples:
  "json_first ''nullx'' = Some JNull" "json_first ''01'' = Some (JNum ''0'')" "json_first ''1.x'' = None"
  "json_first '' -2.5e+3]'' = Some (JNum ''-2.5e+3'')" "json_first ''nul'' = None" "json_first ''[]}'' = Some (JArr [])"
  by code_simp+

section \<open>Values of type interface\<close>

datatype gval =
    GNil
  | GBool bool
  | GNum float64
  | GStr string
  | GArr "gval list"
  | GMap "(string \<times> gval) list"

text \<open>A \<open>map[string]interface{}\<close> is kept sorted by key, the order in which \<open>json.Marshal\<close> writes it.\<close>

fun kv_insert :: "string \<Rightarrow> 'v \<Rightarrow> (string \<times> 'v) list \<Rightarrow> (string \<times> 'v) list" where
  "kv_insert k v [] = [(k, v)]"
| "kv_insert k v ((k', v') # m) =
     (if k < k' then (k, v) # (k', v') # m
      else if k = k' then (k, v) # m
      else (k', v') # kv_insert k v m)"

fun jsize :: "json \<Rightarrow> nat" where
  "jsize (JArr js) = Suc (sum_list (List.map jsize js))"
| "jsize (JObj ms) = Suc (sum_list (List.map (\<lambda>(k, raw, j). Suc (jsize j)) ms))"
| "jsize j = 1"

function gval_of :: "json \<Rightarrow> gval option"
  and gvals_of :: "json list \<Rightarrow> gval list option"
  and gmembers_of :: "(string \<times> string \<times> json) list \<Rightarrow> (string \<times> gval) list \<Rightarrow> (string \<times> gval) list option"
where
  "gval_of JNull = Some GNil"
| "gval_of (JBool b) = Some (GBool b)"
| "gval_of (JNum t) = map_option GNum (parse_float t)"
| "gval_of (JStr s) = Some (GStr s)"
| "gval_of (JArr js) = map_option GArr (gvals_of js)"
| "gval_of (JObj ms) = map_option GMap (gmembers_of ms [])"
| "gvals_of [] = Some []"
| "gvals_of (j # js) = (case gval_of j of None \<Rightarrow> None | Some g \<Rightarrow> map_option ((#) g) (gvals_of js))"
| "gmembers_of [] m = Some m"
| "gmembers_of ((k, raw, j) # ms) m =
     (case gval_of j of None \<Rightarrow> None | Some g \<Rightarrow> gmembers_of ms (kv_insert k g m))"
  by pat_completeness auto
termination
  by (relation "measure (\<lambda>x. case x of
         Inl j \<Rightarrow> 2 * jsize j
       | Inr (Inl js) \<Rightarrow> Suc (2 * sum_list (List.map jsize js))
       | Inr (Inr (ms, m)) \<Rightarrow> Suc (2 * sum_list (List.map (\<lambda>(k, raw, j). Suc (jsize j)) ms)))")
     (auto, (case_tac j; simp)+)

definition unmarshal_any :: "string \<Rightarrow> gval option" where
  "unmarshal_any s = (case json_parse s of None \<Rightarrow> None | Some j \<Rightarrow> gval_of j)"

section \<open>Marshalling\<close>

definition json_object :: "(string \<times> string) list \<Rightarrow> string" where
  "json_object fields = ''{'' @ strings_join (List.map (\<lambda>(k, t). json_quote k @ '':'' @ t) fields) '','' @ ''}''"

definition json_array :: "string list \<Rightarrow> string" where
  "json_array ts = ''['' @ strings_join ts '','' @ '']''"

fun marshal :: "gval \<Rightarrow> string" where
  "marshal GNil = ''null''"
| "marshal (GBool b) = (if b then ''true'' else ''false'')"
| "marshal (GNum f) = format_float f"
| "marshal (GStr s) = json_quote s"
| "marshal (GArr gs) = json_array (List.map marshal gs)"
| "marshal (GMap ms) = json_object (List.map (\<lambda>(k, g). (k, marshal g)) ms)"

section \<open>Struct fields\<close>

text \<open>
  \<open>encoding/json\<close> matches a member to a field by name, exactly or up to case folding (which maps
  U+017F to S and U+212A to K as well).
\<close>

fun fold_name :: "string \<Rightarrow> string" where
  "fold_name (a # b # c # s) =
     (if [a, b, c] = [CHR 0xE2, CHR 0x84, CHR 0xAA] then CHR ''K'' # fold_name s
      else if [a, b] = [CHR 0xC5, CHR 0xBF] then CHR ''S'' # fold_name (c # s)
      else byte_to_upper a # fold_name (b # c # s))"
| "fold_name [a, b] = (if [a, b] = [CHR 0xC5, CHR 0xBF] then [CHR ''S''] else [byte_to_upper a, byte_to_upper b])"
| "fold_name [a] = [byte_to_upper a]"
| "fold_name [] = []"

definition field_matches :: "string \<Rightarrow> string \<Rightarrow> bool" where
  "field_matches name key \<longleftrightarrow> key = name \<or> fold_name key = fold_name name"

text \<open>
  Decoding a member into a field: a member of the wrong type is an error of the whole call
  (\<open>None\<close>), \<open>null\<close> leaves the field as it is, and a later member with the same name wins.
\<close>

fun decode_string :: "string \<Rightarrow> json \<Rightarrow> string option" where
  "decode_string old (JStr s) = Some s"
| "decode_string old JNull = Some old"
| "decode_string old j = None"

fun decode_field :: "string \<Rightarrow> ('a \<Rightarrow> string \<Rightarrow> json \<Rightarrow> 'a option) \<Rightarrow> (string \<times> string \<times> json) list \<Rightarrow> 'a \<Rightarrow> 'a option" where
  "decode_field name dec [] old = Some old"
| "decode_field name dec ((k, raw, j) # ms) old =
     (if field_matches name k then
        (case dec old raw j of None \<Rightarrow> None | Some v \<Rightarrow> decode_field name dec ms v)
      else decode_field name dec ms old)"

definition string_field :: "string \<Rightarrow> (string \<times> string \<times> json) list \<Rightarrow> string \<Rightarrow> string option" where
  "string_field name = decode_field name (\<lambda>old raw j. decode_string old j)"

definition raw_field :: "string \<Rightarrow> (string \<times> string \<times> json) list \<Rightarrow> string option \<Rightarrow> string option option" where
  "raw_field name = decode_field name (\<lambda>old raw j. Some (Some raw))"

text \<open>
  A slice, with its length and what its array holds: decoding a second array into it goes over the
  elements of the first in place, also over those beyond its length, and \<open>null\<close> and \<open>[]\<close> start anew.
\<close>

fun slice_elements :: "('a \<Rightarrow> json \<Rightarrow> 'a option) \<Rightarrow> 'a \<Rightarrow> 'a list \<Rightarrow> json list \<Rightarrow> 'a list option" where
  "slice_elements dec zero olds [] = Some olds"
| "slice_elements dec zero olds (j # js) =
     (case (dec (case olds of [] \<Rightarrow> zero | x # xs \<Rightarrow> x) j, slice_elements dec zero (tl olds) js) of
        (Some v, Some vs) \<Rightarrow> Some (v # vs)
      | _ \<Rightarrow> None)"

definition decode_slice :: "('a \<Rightarrow> json \<Rightarrow> 'a option) \<Rightarrow> 'a \<Rightarrow> 'a list \<times> nat \<Rightarrow> string \<Rightarrow> json \<Rightarrow> ('a list \<times> nat) option" where
  "decode_slice dec zero old raw j =
     (case j of
        JNull \<Rightarrow> Some ([], 0)
      | JArr [] \<Rightarrow> Some ([], 0)
      | JArr js \<Rightarrow> map_option (\<lambda>vs. (vs, length js)) (slice_elements dec zero (fst old) js)
      | _ \<Rightarrow> None)"

definition slice_field :: "string \<Rightarrow> ('a \<Rightarrow> json \<Rightarrow> 'a option) \<Rightarrow> 'a \<Rightarrow> (string \<times> string \<times> json) list \<Rightarrow> 'a list option" where
  "slice_field name dec zero ms = map_option (\<lambda>(vs, n). take n vs) (decode_field name (decode_slice dec zero) ms ([], 0))"

text \<open>The members of a text decoded into a struct: \<open>null\<close> has none, a value that is no object is an error.\<close>

fun struct_members :: "json \<Rightarrow> (string \<times> string \<times> json) list option" where
  "struct_members (JObj ms) = Some ms"
| "struct_members JNull = Some []"
| "struct_members j = None"

definition unmarshal_members :: "string \<Rightarrow> (string \<times> string \<times> json) list option" where
  "unmarshal_members s = (case json_parse s of None \<Rightarrow> None | Some j \<Rightarrow> struct_members j)"

text \<open>\<open>RawMessage.MarshalJSON\<close>: a nil message is \<open>null\<close>.\<close>

definition raw_marshal :: "string option \<Rightarrow> string" where
  "raw_marshal r = (case r of None \<Rightarrow> ''null'' | Some t \<Rightarrow> t)"

end
