(* ===== verification/Subscription.thy ===== *)
theory Subscription
  imports Prelude
begin

text \<open>
  The data of \<open>src/connection/connection.go\<close> and \<open>src/subscription/subscription.go\<close>. A socket is
  an opaque handle: two connections may carry the same socket id and still have different sockets.
  A \<open>time.Time\<close> is its reading in nanoseconds and its RFC 3339 text.
\<close>

record gotime =
  unix_nano :: int
  rfc3339 :: string

record connection =
  SocketID :: string
  Socket :: nat
  CreatedAt :: gotime

record subscription =
  sub_Connection :: connection
  sub_ID :: string
  sub_Data :: string

definition subscription_New :: "connection \<Rightarrow> string \<Rightarrow> subscription" where
  "subscription_New conn data = \<lparr>sub_Connection = conn, sub_ID = [], sub_Data = data\<rparr>"

end
