(* ===== verification/Events.thy ===== *)
theory Events
  imports Json Subscription
begin

text \<open>
  \<open>src/events/events.go\<close>: the events of the protocol. Events the server sends are constructors of
  \<open>message\<close> with the fields of the struct, and \<open>marshal_message\<close> is the text \<open>WriteJSON\<close> puts on the
  wire. Events the server receives are records with their decoders.
\<close>

section \<open>Received events\<close>

record SubscribeData =
  sd_Channel :: string
  sd_Auth :: string
  sd_ChannelData :: string

record Subscribe =
  sub_Event :: string
  sub_EvData :: SubscribeData

definition NewSubscribe :: "string \<Rightarrow> string \<Rightarrow> string \<Rightarrow> Subscribe" where
  "NewSubscribe channel auth channelData =
     \<lparr>sub_Event = ''pusher:subscribe'',
      sub_EvData = \<lparr>sd_Channel = channel, sd_Auth = auth, sd_ChannelData = channelData\<rparr>\<rparr>"

record Unsubscribe =
  uns_Event :: string
  uns_Channel :: string

definition NewUnsubscribe :: "string \<Rightarrow> Unsubscribe" where
  "NewUnsubscribe channel = \<lparr>uns_Event = ''pusher:unsubscribe'', uns_Channel = channel\<rparr>"

record Raw =
  raw_Event :: string
  raw_Channel :: string
  raw_Data :: "string option"

text \<open>The tags \<open>omitempty\<close> drop empty strings.\<close>

definition omitempty :: "string \<Rightarrow> string \<Rightarrow> (string \<times> string) list" where
  "omitempty name s = (if s = [] then [] else [(name, json_quote s)])"

definition marshal_subscribe :: "Subscribe \<Rightarrow> string" where
  "marshal_subscribe e = json_object
     [(''event'', json_quote (sub_Event e)),
      (''data'', json_object
         ((''channel'', json_quote (sd_Channel (sub_EvData e)))
          # omitempty ''auth'' (sd_Auth (sub_EvData e))
          @ omitempty ''channel_data'' (sd_ChannelData (sub_EvData e))))]"

definition marshal_unsubscribe :: "Unsubscribe \<Rightarrow> string" where
  "marshal_unsubscribe e = json_object
     [(''event'', json_quote (uns_Event e)),
      (''data'', json_object [(''channel'', json_quote (uns_Channel e))])]"

definition decode_subscribe_data :: "SubscribeData \<Rightarrow> string \<Rightarrow> json \<Rightarrow> SubscribeData option" where
  "decode_subscribe_data old raw j =
     (case struct_members j of None \<Rightarrow> None
      | Some ms \<Rightarrow>
          (case (string_field ''channel'' ms (sd_Channel old), string_field ''auth'' ms (sd_Auth old),
                 string_field ''channel_data'' ms (sd_ChannelData old)) of
             (Some c, Some a, Some d) \<Rightarrow> Some \<lparr>sd_Channel = c, sd_Auth = a, sd_ChannelData = d\<rparr>
           | _ \<Rightarrow> None))"

definition unmarshal_subscribe :: "string \<Rightarrow> Subscribe option" where
  "unmarshal_subscribe s =
     (case unmarshal_members s of None \<Rightarrow> None
      | Some ms \<Rightarrow>
          (case (string_field ''event'' ms [],
                 decode_field ''data'' decode_subscribe_data ms \<lparr>sd_Channel = [], sd_Auth = [], sd_ChannelData = []\<rparr>) of
             (Some e, Some d) \<Rightarrow> Some \<lparr>sub_Event = e, sub_EvData = d\<rparr>
           | _ \<Rightarrow> None))"

definition decode_unsubscribe_data :: "string \<Rightarrow> string \<Rightarrow> json \<Rightarrow> string option" where
  "decode_unsubscribe_data old raw j =
     (case struct_members j of None \<Rightarrow> None | Some ms \<Rightarrow> string_field ''channel'' ms old)"

definition unmarshal_unsubscribe :: "string \<Rightarrow> Unsubscribe option" where
  "unmarshal_unsubscribe s =
     (case unmarshal_members s of None \<Rightarrow> None
      | Some ms \<Rightarrow>
          (case (string_field ''event'' ms [], decode_field ''data'' decode_unsubscribe_data ms []) of
             (Some e, Some c) \<Rightarrow> Some \<lparr>uns_Event = e, uns_Channel = c\<rparr>
           | _ \<Rightarrow> None))"

definition unmarshal_raw :: "string \<Rightarrow> Raw option" where
  "unmarshal_raw s =
     (case unmarshal_members s of None \<Rightarrow> None
      | Some ms \<Rightarrow>
          (case (string_field ''event'' ms [], string_field ''channel'' ms [], raw_field ''data'' ms None) of
             (Some e, Some c, Some d) \<Rightarrow> Some \<lparr>raw_Event = e, raw_Channel = c, raw_Data = d\<rparr>
           | _ \<Rightarrow> None))"

section \<open>Sent events\<close>

datatype message =
    SubscriptionSucceeded string string string
  | Pong string string
  | Ping string string
  | ErrorEvent string "int option" string
  | ConnectionEstablished string string
  | MemberAdded string string string
  | MemberRemoved string string string
  | Response string string gval

definition NewSubscriptionSucceeded :: "string \<Rightarrow> string \<Rightarrow> message" where
  "NewSubscriptionSucceeded channel data =
     SubscriptionSucceeded ''pusher_internal:subscription_succeeded'' channel data"

definition NewPong :: message where "NewPong = Pong ''pusher:pong'' ''{}''"

definition NewPing :: message where "NewPing = Ping ''pusher:ping'' ''{}''"

definition NewError :: "int \<Rightarrow> string \<Rightarrow> message" where
  "NewError code msg = ErrorEvent ''pusher:error'' (if code = 0 then None else Some code) msg"

definition NewConnectionEstablished :: "string \<Rightarrow> message" where
  "NewConnectionEstablished socketID = ConnectionEstablished ''pusher:connection_established''
     (json_object [(''socket_id'', json_quote socketID), (''activity_timeout'', int_dec 120)])"

definition NewMemberAdded :: "string \<Rightarrow> string \<Rightarrow> message" where
  "NewMemberAdded channel data = MemberAdded ''pusher_internal:member_added'' channel data"

definition NewMemberRemoved :: "string \<Rightarrow> string \<Rightarrow> message" where
  "NewMemberRemoved channel userID = MemberRemoved ''pusher_internal:member_removed'' channel
     (json_object [(''user_id'', json_quote userID)])"

definition NewResponse :: "string \<Rightarrow> string \<Rightarrow> gval \<Rightarrow> message" where
  "NewResponse name channel data = Response name channel data"

text \<open>The text of each struct, by its tags.\<close>

definition marshal_subscription_succeeded :: "string \<Rightarrow> string \<Rightarrow> string \<Rightarrow> string" where
  "marshal_subscription_succeeded event channel data = json_object
     [(''event'', json_quote event), (''channel'', json_quote channel), (''data'', json_quote data)]"

definition marshal_pong :: "string \<Rightarrow> string \<Rightarrow> string" where
  "marshal_pong event data = json_object [(''event'', json_quote event), (''data'', json_quote data)]"

definition marshal_ping :: "string \<Rightarrow> string \<Rightarrow> string" where
  "marshal_ping event data = json_object [(''event'', json_quote event), (''data'', json_quote data)]"

definition marshal_error_data :: "int option \<Rightarrow> string \<Rightarrow> string" where
  "marshal_error_data code msg = json_object
     [(''code'', case code of None \<Rightarrow> ''null'' | Some c \<Rightarrow> int_dec c), (''message'', json_quote msg)]"

definition marshal_error :: "string \<Rightarrow> int option \<Rightarrow> string \<Rightarrow> string" where
  "marshal_error event code msg = json_object [(''event'', json_quote event), (''data'', marshal_error_data code msg)]"

definition marshal_connection_established :: "string \<Rightarrow> string \<Rightarrow> string" where
  "marshal_connection_established event data = json_object [(''event'', json_quote event), (''data'', json_quote data)]"

definition marshal_member_added :: "string \<Rightarrow> string \<Rightarrow> string \<Rightarrow> string" where
  "marshal_member_added event channel data = json_object
     [(''event'', json_quote event), (''channel'', json_quote channel), (''data'', json_quote data)]"

definition marshal_member_removed :: "string \<Rightarrow> string \<Rightarrow> string \<Rightarrow> string" where
  "marshal_member_removed event channel data = json_object
     [(''event'', json_quote event), (''channel'', json_quote channel), (''data'', json_quote data)]"

definition marshal_response :: "string \<Rightarrow> string \<Rightarrow> gval \<Rightarrow> string" where
  "marshal_response event channel data = json_object
     [(''event'', json_quote event), (''channel'', json_quote channel), (''data'', marshal data)]"

fun marshal_message :: "message \<Rightarrow> string" where
  "marshal_message (SubscriptionSucceeded e c d) = marshal_subscription_succeeded e c d"
| "marshal_message (Pong e d) = marshal_pong e d"
| "marshal_message (Ping e d) = marshal_ping e d"
| "marshal_message (ErrorEvent e code m) = marshal_error e code m"
| "marshal_message (ConnectionEstablished e d) = marshal_connection_established e d"
| "marshal_message (MemberAdded e c d) = marshal_member_added e c d"
| "marshal_message (MemberRemoved e c d) = marshal_member_removed e c d"
| "marshal_message (Response e c d) = marshal_response e c d"

lemmas marshal_message_defs = marshal_subscription_succeeded_def marshal_pong_def marshal_ping_def marshal_error_def
  marshal_connection_established_def marshal_member_added_def marshal_member_removed_def marshal_response_def

text \<open>
  The presence data of a channel: the ids and the user info of the subscriptions whose data is
  valid JSON, and the number of all subscriptions. A nil slice is \<open>null\<close>.
\<close>

record SubscriptionSucceededPresenceData =
  pd_IDs :: "string list"
  pd_Hash :: "(string \<times> gval) list"
  pd_Count :: int

definition presence_step ::
  "string \<times> subscription \<Rightarrow> string list \<times> (string \<times> gval) list \<Rightarrow> string list \<times> (string \<times> gval) list" where
  "presence_step ks acc =
     (case unmarshal_any (sub_Data (snd ks)) of
        None \<Rightarrow> acc
      | Some js \<Rightarrow> (fst acc @ [sub_ID (snd ks)], kv_insert (sub_ID (snd ks)) js (snd acc)))"

definition NewSubscriptionSucceedPresenceData ::
  "(string \<times> subscription) list \<Rightarrow> SubscriptionSucceededPresenceData" where
  "NewSubscriptionSucceedPresenceData subs =
     (let (ids, hash) = fold presence_step subs ([], [])
      in \<lparr>pd_IDs = ids, pd_Hash = hash, pd_Count = int (length subs)\<rparr>)"

definition marshal_presence :: "SubscriptionSucceededPresenceData \<Rightarrow> string" where
  "marshal_presence d = json_object [(''presence'', json_object
     [(''ids'', if pd_IDs d = [] then ''null'' else json_array (List.map json_quote (pd_IDs d))),
      (''hash'', marshal (GMap (pd_Hash d))),
      (''count'', int_dec (pd_Count d))])]"

end
