(* ===== verification/World.thy ===== *)
theory World
  imports Events
begin

text \<open>
  Everything the program asks of its environment, as an explicit sequence of calls and replies:
  the clock, the random source, the sockets (gorilla/websocket), Redis (go-redis and the server
  behind it), the web hook endpoint. The environment is a parameter of the model: a function \<open>env\<close>
  from the whole history and the next call to the reply, so a theorem that mentions no hypothesis
  on it holds for every behaviour of that code, failures at any point included. The trace records
  every call with its reply, newest first.
\<close>

datatype call =
    TimeNow
  | RandIntn int
  | NewUUID
  | SetWriteDeadline nat "int option"
  | WriteJSON nat message
  | CloseSocket nat
  | SetReadDeadline nat int
  | WriteControl nat int
  | RedisPing "string list" string "int option" bool
  | RedisSet string string int
  | RedisGet string
  | RedisDel string
  | RedisSAdd string string
  | RedisSRem string string
  | RedisSMembers string
  | RedisExpire string int
  | RedisHSet string string string
  | RedisHDel string string
  | RedisHGetAll string
  | RedisPublish string string
  | RedisSubscribe string
  | HttpNewRequest string
  | HttpPost string "(string \<times> string) list" string

datatype reply =
    ROk
  | RErr
  | RNil
  | RTimeout
  | RTime gotime
  | RInt int
  | RText string
  | RList "string list"
  | RPairs "(string \<times> string) list"

type_synonym trace = "(call \<times> reply) list"
type_synonym env = "trace \<Rightarrow> call \<Rightarrow> reply"

definition invoke :: "env \<Rightarrow> call \<Rightarrow> trace \<Rightarrow> reply \<times> trace" where
  "invoke E c tr = (let r = E tr c in (r, (c, r) # tr))"

definition succeeded :: "reply \<Rightarrow> bool" where
  "succeeded r \<longleftrightarrow> r \<noteq> RErr \<and> r \<noteq> RTimeout"

definition time_now :: "env \<Rightarrow> trace \<Rightarrow> gotime \<times> trace" where
  "time_now E tr = (let (r, tr') = invoke E TimeNow tr
     in (case r of RTime t \<Rightarrow> t | _ \<Rightarrow> \<lparr>unix_nano = 0, rfc3339 = ''0001-01-01T00:00:00Z''\<rparr>, tr'))"

text \<open>The errors the program returns, by the place that makes them.\<close>

datatype goerror =
    ErrSetDeadline
  | ErrWrite
  | ErrClearDeadline
  | ErrUnmarshal
  | ErrSubscriptionNotFound
  | ErrConnectionNotFound
  | ErrChannelNotFound
  | ErrAppNotFound
  | ErrWebHooksDisabled
  | ErrTimeout
  | ErrRedis string

section \<open>Observing a trace\<close>

text \<open>
  What was attempted on a socket, oldest first: the frames handed to \<open>WriteJSON\<close>, and the frames
  whose \<open>WriteJSON\<close> succeeded.
\<close>

fun frame_of :: "nat \<Rightarrow> call \<times> reply \<Rightarrow> message list" where
  "frame_of h (WriteJSON h' m, r) = (if h' = h then [m] else [])"
| "frame_of h _ = []"

definition written :: "nat \<Rightarrow> trace \<Rightarrow> message list" where
  "written h tr = concat (List.map (frame_of h) (rev tr))"

text \<open>The sockets for which a write was started (its deadline armed), oldest first.\<close>

fun armed_of :: "call \<times> reply \<Rightarrow> nat list" where
  "armed_of (SetWriteDeadline h (Some d), r) = [h]"
| "armed_of _ = []"

definition attempts :: "trace \<Rightarrow> nat list" where
  "attempts tr = concat (List.map armed_of (rev tr))"

text \<open>The web hook requests and the Redis publications, oldest first.\<close>

fun post_of :: "call \<times> reply \<Rightarrow> (string \<times> (string \<times> string) list \<times> string) list" where
  "post_of (HttpPost url hs body, r) = [(url, hs, body)]"
| "post_of _ = []"

definition posts :: "trace \<Rightarrow> (string \<times> (string \<times> string) list \<times> string) list" where
  "posts tr = concat (List.map post_of (rev tr))"

fun publication_of :: "call \<times> reply \<Rightarrow> (string \<times> string) list" where
  "publication_of (RedisPublish ch payload, r) = (if succeeded r then [(ch, payload)] else [])"
| "publication_of _ = []"

definition publications :: "trace \<Rightarrow> (string \<times> string) list" where
  "publications tr = concat (List.map publication_of (rev tr))"

lemma written_simps [obs_simps]:
  "written h [] = []"
  "written h (c # tr) = written h tr @ frame_of h c"
  "written h (tr @ tr') = written h tr' @ written h tr"
  by (simp_all add: written_def)

lemma attempts_simps [obs_simps]:
  "attempts [] = []"
  "attempts (c # tr) = attempts tr @ armed_of c"
  by (simp_all add: attempts_def)

lemma posts_simps [obs_simps]:
  "posts [] = []"
  "posts (c # tr) = posts tr @ post_of c"
  by (simp_all add: posts_def)

lemma publications_simps [obs_simps]:
  "publications [] = []"
  "publications (c # tr) = publications tr @ publication_of c"
  by (simp_all add: publications_def)

text \<open>An environment that never refuses a socket operation.\<close>

definition sockets_ok :: "env \<Rightarrow> bool" where
  "sockets_ok E \<longleftrightarrow> (\<forall>tr h d m. succeeded (E tr (SetWriteDeadline h d)) \<and> succeeded (E tr (WriteJSON h m)))"

text \<open>An environment in which a read deadline can always be set, and one in which every ping can be written.\<close>

definition reads_armed :: "env \<Rightarrow> bool" where
  "reads_armed E \<longleftrightarrow> (\<forall>tr h d. succeeded (E tr (SetReadDeadline h d)))"

definition pings_written :: "env \<Rightarrow> bool" where
  "pings_written E \<longleftrightarrow> (\<forall>tr h d. succeeded (E tr (WriteControl h d)))"

text \<open>An environment in which every configured URL makes a request.\<close>

definition urls_ok :: "env \<Rightarrow> bool" where
  "urls_ok E \<longleftrightarrow> (\<forall>tr url. succeeded (E tr (HttpNewRequest url)))"

end
