(* ===== verification/Connection.thy ===== *)
theory Connection
  imports World
begin

text \<open>
  \<open>src/connection/connection.go\<close>: one outbound frame. The write deadline is armed for this frame
  only and cleared afterwards; whichever of the three calls fails, the socket is closed.
\<close>

definition WriteWait :: int where
  "WriteWait = 10 * 1000000000"

definition connection_New :: "env \<Rightarrow> string \<Rightarrow> nat \<Rightarrow> trace \<Rightarrow> connection \<times> trace" where
  "connection_New E socketID s tr =
     (let (now, tr1) = time_now E tr
      in (\<lparr>SocketID = socketID, Socket = s, CreatedAt = now\<rparr>, tr1))"

definition writeMessage :: "env \<Rightarrow> nat \<Rightarrow> string \<Rightarrow> message \<Rightarrow> trace \<Rightarrow> goerror option \<times> trace" where
  "writeMessage E sock socketID m tr =
     (let (now, tr1) = time_now E tr;
          (r1, tr2) = invoke E (SetWriteDeadline sock (Some (unix_nano now + WriteWait))) tr1
      in if \<not> succeeded r1 then (Some ErrSetDeadline, snd (invoke E (CloseSocket sock) tr2))
         else let (r2, tr3) = invoke E (WriteJSON sock m) tr2
         in if \<not> succeeded r2 then (Some ErrWrite, snd (invoke E (CloseSocket sock) tr3))
            else let (r3, tr4) = invoke E (SetWriteDeadline sock None) tr3
            in if \<not> succeeded r3 then (Some ErrClearDeadline, snd (invoke E (CloseSocket sock) tr4))
               else (None, tr4))"

definition connection_Publish :: "env \<Rightarrow> connection \<Rightarrow> message \<Rightarrow> trace \<Rightarrow> goerror option \<times> trace" where
  "connection_Publish E conn m tr = writeMessage E (Socket conn) (SocketID conn) m tr"

definition connection_Send :: "env \<Rightarrow> nat \<Rightarrow> string \<Rightarrow> message \<Rightarrow> trace \<Rightarrow> goerror option \<times> trace" where
  "connection_Send E sock socketID m tr = writeMessage E sock socketID m tr"

section \<open>The trace of one frame\<close>

lemmas write_defs = writeMessage_def invoke_def time_now_def Let_def

lemma writeMessage_attempts [obs_simps]:
  "attempts (snd (writeMessage E h sid m tr)) = attempts tr @ [h]"
  by (simp add: write_defs attempts_simps split: reply.split)

lemma writeMessage_posts [obs_simps]:
  "posts (snd (writeMessage E h sid m tr)) = posts tr"
  by (simp add: write_defs posts_simps split: reply.split)

lemma writeMessage_publications [obs_simps]:
  "publications (snd (writeMessage E h sid m tr)) = publications tr"
  by (simp add: write_defs publications_simps split: reply.split)

lemma writeMessage_written_other [obs_simps]:
  "h' \<noteq> h \<Longrightarrow> written h' (snd (writeMessage E h sid m tr)) = written h' tr"
  by (simp add: write_defs written_simps split: reply.split)

lemma writeMessage_written [obs_simps]:
  "sockets_ok E \<Longrightarrow> written h (snd (writeMessage E h sid m tr)) = written h tr @ [m]"
  by (simp add: write_defs written_simps sockets_ok_def split: reply.split)

lemma writeMessage_error_iff:
  "sockets_ok E \<Longrightarrow> fst (writeMessage E h sid m tr) = None"
  by (simp add: write_defs sockets_ok_def split: reply.split)

end
