(* ===== verification/Sha256.thy ===== *)
theory Sha256
  imports Prelude "HOL-Library.Word"
begin

text \<open>
  The part of Go's \<open>crypto/sha256\<close>, \<open>crypto/hmac\<close> and \<open>encoding/hex\<close> that
  \<open>utils.HashMAC\<close> uses: SHA-256 (FIPS 180-4) on byte strings, HMAC over it (RFC 2104) and the
  lower-case hexadecimal rendering. Words are 32 bits wide, so additions wrap as in the standard.
\<close>

unbundle bit_operations_syntax

section \<open>SHA-256\<close>

type_synonym w32 = "32 word"

text \<open>
  The constants of the standard are the first 32 bits of the fractional parts of the square roots of
  the first eight primes and of the cube roots of the first sixty-four; \<open>iroot\<close> finds an integer
  root bit by bit, from the highest.
\<close>

fun iroot :: "nat \<Rightarrow> int \<Rightarrow> nat \<Rightarrow> int \<Rightarrow> int" where
  "iroot k x 0 r = r"
| "iroot k x (Suc n) r = iroot k x n (if (r + 2 ^ n) ^ k \<le> x then r + 2 ^ n else r)"

definition sha_primes :: "int list" where
  "sha_primes = [2, 3, 5, 7, 11, 13, 17, 19, 23, 29, 31, 37, 41, 43, 47, 53,
     59, 61, 67, 71, 73, 79, 83, 89, 97, 101, 103, 107, 109, 113, 127, 131,
     137, 139, 149, 151, 157, 163, 167, 173, 179, 181, 191, 193, 197, 199, 211, 223,
     227, 229, 233, 239, 241, 251, 257, 263, 269, 271, 277, 281, 283, 293, 307, 311]"

definition sha_init :: "w32 list" where
  "sha_init = List.map (\<lambda>p. word_of_int (iroot 2 (p * 2 ^ 64) 36 0)) (take 8 sha_primes)"

definition sha_k :: "w32 list" where
  "sha_k = List.map (\<lambda>p. word_of_int (iroot 3 (p * 2 ^ 96) 36 0)) sha_primes"

definition rotr :: "nat \<Rightarrow> w32 \<Rightarrow> w32" where
  "rotr n x = drop_bit n x OR push_bit (32 - n) x"

definition bsig0 :: "w32 \<Rightarrow> w32" where
  "bsig0 x = rotr 2 x XOR rotr 13 x XOR rotr 22 x"

definition bsig1 :: "w32 \<Rightarrow> w32" where
  "bsig1 x = rotr 6 x XOR rotr 11 x XOR rotr 25 x"

definition ssig0 :: "w32 \<Rightarrow> w32" where
  "ssig0 x = rotr 7 x XOR rotr 18 x XOR drop_bit 3 x"

definition ssig1 :: "w32 \<Rightarrow> w32" where
  "ssig1 x = rotr 17 x XOR rotr 19 x XOR drop_bit 10 x"

text \<open>The message schedule, newest word first: the next word is built from the last sixteen.\<close>

definition sched_next :: "w32 list \<Rightarrow> w32" where
  "sched_next ws = ssig1 (ws ! 1) + ws ! 6 + ssig0 (ws ! 14) + ws ! 15"

fun sched_extend :: "nat \<Rightarrow> w32 list \<Rightarrow> w32 list" where
  "sched_extend 0 ws = ws"
| "sched_extend (Suc n) ws = sched_extend n (sched_next ws # ws)"

definition schedule :: "w32 list \<Rightarrow> w32 list" where
  "schedule block = rev (sched_extend 48 (rev block))"

fun sha_round :: "w32 \<times> w32 \<Rightarrow> w32 list \<Rightarrow> w32 list" where
  "sha_round (k, w) [a, b, c, d, e, f, g, h] =
     (let t1 = h + bsig1 e + ((e AND f) XOR (NOT e AND g)) + k + w;
          t2 = bsig0 a + ((a AND b) XOR (a AND c) XOR (b AND c))
      in [t1 + t2, a, b, c, d + t1, e, f, g])"
| "sha_round kw hs = hs"

definition sha_compress :: "w32 list \<Rightarrow> w32 list \<Rightarrow> w32 list" where
  "sha_compress hs block = map2 (+) hs (fold sha_round (zip sha_k (schedule block)) hs)"

text \<open>Big-endian bytes: a word from four bytes and back, and the padded message.\<close>

definition byte_word :: "char \<Rightarrow> w32" where
  "byte_word c = word_of_int (of_char c)"

fun be_words :: "string \<Rightarrow> w32 list" where
  "be_words (a # b # c # d # s) =
     (push_bit 24 (byte_word a) OR push_bit 16 (byte_word b) OR push_bit 8 (byte_word c) OR byte_word d) # be_words s"
| "be_words s = []"

definition be_bytes :: "nat \<Rightarrow> int \<Rightarrow> string" where
  "be_bytes n v = List.map (\<lambda>i. char_of (v div 256 ^ (n - Suc i) mod 256)) [0..<n]"

definition word_bytes :: "w32 \<Rightarrow> string" where
  "word_bytes w = be_bytes 4 (uint w)"

definition sha_pad :: "string \<Rightarrow> string" where
  "sha_pad s =
     s @ char_of (128::nat) # replicate ((119 - length s mod 64) mod 64) (char_of (0::nat))
       @ be_bytes 8 (8 * int (length s) mod 2 ^ 64)"

fun blocks_of :: "'a list \<Rightarrow> 'a list list" where
  "blocks_of [] = []"
| "blocks_of (x # xs) = take 16 (x # xs) # blocks_of (drop 16 (x # xs))"

definition sha256 :: "string \<Rightarrow> string" where
  "sha256 s = concat (List.map word_bytes (fold (\<lambda>b hs. sha_compress hs b) (blocks_of (be_words (sha_pad s))) sha_init))"

section \<open>HMAC and hexadecimal\<close>

definition xor_byte :: "int \<Rightarrow> char \<Rightarrow> char" where
  "xor_byte k c = char_of ((k XOR of_char c) :: int)"

definition hmac_key :: "string \<Rightarrow> string" where
  "hmac_key key = (let k = (if 64 < length key then sha256 key else key)
                   in k @ replicate (64 - length k) (char_of (0::nat)))"

definition hmac_sha256 :: "string \<Rightarrow> string \<Rightarrow> string" where
  "hmac_sha256 key msg =
     (let k = hmac_key key
      in sha256 (List.map (xor_byte 0x5c) k @ sha256 (List.map (xor_byte 0x36) k @ msg)))"

definition hex_digit :: "nat \<Rightarrow> char" where
  "hex_digit d = (''0123456789abcdef'' ! d)"

definition hex_encode :: "string \<Rightarrow> string" where
  "hex_encode s = concat (List.map (\<lambda>c. [hex_digit (of_char c div 16), hex_digit (of_char c mod 16)]) s)"

section \<open>Lengths and shape\<close>

lemma length_be_bytes [simp]: "length (be_bytes n v) = n"
  by (simp add: be_bytes_def)

lemma length_word_bytes [simp]: "length (word_bytes w) = 4"
  by (simp add: word_bytes_def)

lemma length_sha_round [simp]: "length (sha_round kw hs) = length hs"
  by (induction kw hs rule: sha_round.induct) (simp_all add: Let_def)

lemma length_fold_sha_round: "length (fold sha_round kws hs) = length hs"
  by (induction kws arbitrary: hs) simp_all

lemma length_sha_compress [simp]: "length (sha_compress hs b) = length hs"
  by (simp add: sha_compress_def length_fold_sha_round)

lemma length_sha_fold: "length (fold (\<lambda>b hs. sha_compress hs b) bs hs) = length hs"
  by (induction bs arbitrary: hs) simp_all

lemma length_concat_const: "(\<And>x. x \<in> set xs \<Longrightarrow> length x = n) \<Longrightarrow> length (concat xs) = n * length xs"
  by (induction xs) auto

lemma length_sha256 [simp]: "length (sha256 s) = 32"
  unfolding sha256_def
  by (subst length_concat_const [where n = 4]) (auto simp: length_sha_fold sha_init_def sha_primes_def)

lemma length_hmac_key: "length (hmac_key key) = 64"
  by (auto simp: hmac_key_def Let_def)

lemma length_hmac [simp]: "length (hmac_sha256 key msg) = 32"
  by (simp add: hmac_sha256_def Let_def)

lemma pad_amount: "(n + ((119 - n mod 64) mod 64 + 9)) mod 64 = (0::nat)"
proof -
  define r where "r = n mod 64"
  have r: "r < 64" by (simp add: r_def)
  have "(119 - r) mod 64 = (if r \<le> 55 then 55 - r else 119 - r)"
  proof (cases "r \<le> 55")
    case True
    then have "119 - r = (55 - r) + 64" by simp
    then have "(119 - r) mod 64 = (55 - r) mod 64" by (metis mod_add_self2)
    with True show ?thesis by simp
  next
    case False
    with r show ?thesis by simp
  qed
  then have "(r + ((119 - r) mod 64 + 9)) mod 64 = 0" using r by auto
  then show ?thesis unfolding r_def by (metis mod_add_left_eq)
qed

lemma sha_pad_multiple: "length (sha_pad s) mod 64 = 0"
  using pad_amount [of "length s"] by (simp add: sha_pad_def ac_simps)

lemma length_hex_encode: "length (hex_encode s) = 2 * length s"
  unfolding hex_encode_def by (subst length_concat_const [where n = 2]) auto

lemma hex_digit_mem: "d < 16 \<Longrightarrow> hex_digit d \<in> set ''0123456789abcdef''"
  unfolding hex_digit_def by (rule nth_mem) simp

lemma hex_encode_digits: "c \<in> set (hex_encode s) \<Longrightarrow> c \<in> set ''0123456789abcdef''"
proof -
  assume "c \<in> set (hex_encode s)"
  then obtain x where "c = hex_digit (of_char x div 16) \<or> c = hex_digit (of_char x mod 16)"
    unfolding hex_encode_def by auto
  moreover have "of_char x div 16 < (16::nat)" using nat_of_char_less_256 [of x] by linarith
  moreover have "of_char x mod 16 < (16::nat)" by simp
  ultimately show ?thesis using hex_digit_mem by metis
qed

section \<open>The constants\<close>

lemma iroot_bounds:
  assumes "0 < k" "0 \<le> r" "r ^ k \<le> x" "x < (r + 2 ^ n) ^ k"
  shows "iroot k x n r ^ k \<le> x \<and> x < (iroot k x n r + 1) ^ k"
  using assms
proof (induction n arbitrary: r)
  case (Suc n)
  have "r + 2 ^ n + 2 ^ n = r + 2 ^ Suc n" by simp
  with Suc show ?case by (auto simp: add.assoc)
qed auto

lemma iroot_numeral:
  "iroot k x (numeral n) r = iroot k x (pred_numeral n) (if (r + 2 ^ pred_numeral n) ^ k \<le> x then r + 2 ^ pred_numeral n else r)"
  by (simp add: numeral_eq_Suc)

lemma sha_roots:
  "iroot 2 (2 * 2 ^ 64) 36 0 = 0x16a09e667" "iroot 2 (19 * 2 ^ 64) 36 0 = 0x45be0cd19"
  "iroot 3 (2 * 2 ^ 96) 36 0 = 0x1428a2f98" "iroot 3 (311 * 2 ^ 96) 36 0 = 0x6c67178f2"
  by (simp_all add: iroot_numeral)

lemma sha_constants:
  "hd sha_init = 0x6a09e667" "last sha_init = 0x5be0cd19" "hd sha_k = 0x428a2f98" "last sha_k = 0xc67178f2"
  using arg_cong [OF sha_roots(1), of "word_of_int :: int \<Rightarrow> w32"] arg_cong [OF sha_roots(2), of "word_of_int :: int \<Rightarrow> w32"]
   arg_cong [OF sha_roots(3), of "word_of_int :: int \<Rightarrow> w32"] arg_cong [OF sha_roots(4), of "word_of_int :: int \<Rightarrow> w32"]
  by (simp_all add: sha_init_def sha_k_def sha_primes_def)

end
