(* ===== verification/Utils.thy ===== *)
theory Utils
  imports Sha256
begin

text \<open>
  \<open>src/utils/utils.go\<close>: the keyed hash, the shape of session ids, and the tests on channel and
  event names. The two random numbers of a session id are its arguments.
\<close>

definition HashMAC :: "string \<Rightarrow> string \<Rightarrow> string" where
  "HashMAC message key = hex_encode (hmac_sha256 key message)"

definition max_int32 :: int where
  "max_int32 = 2147483647"

definition GenerateSessionID :: "int \<Rightarrow> int \<Rightarrow> string" where
  "GenerateSessionID a b = int_dec a @ ''.'' @ int_dec b"

definition channel_name_char :: "char \<Rightarrow> bool" where
  "channel_name_char c \<longleftrightarrow> is_upper c \<or> is_lower c \<or> is_digit c \<or> c \<in> set ''_-=@,.;''"

definition IsChannelNameValid :: "string \<Rightarrow> bool" where
  "IsChannelNameValid channelName \<longleftrightarrow> channelName \<noteq> [] \<and> list_all channel_name_char channelName"

definition IsPrivateChannel :: "string \<Rightarrow> bool" where
  "IsPrivateChannel channelName \<longleftrightarrow> has_prefix channelName ''private-''"

definition IsPresenceChannel :: "string \<Rightarrow> bool" where
  "IsPresenceChannel channelName \<longleftrightarrow> has_prefix channelName ''presence-''"

definition IsClientEvent :: "string \<Rightarrow> bool" where
  "IsClientEvent event \<longleftrightarrow> has_prefix event ''client-''"

lemma HashMAC_length: "length (HashMAC m k) = 64"
  by (simp add: HashMAC_def length_hex_encode)

lemma HashMAC_no_colon: "CHR '':'' \<notin> set (HashMAC m k)"
proof
  assume "CHR '':'' \<in> set (HashMAC m k)"
  then have "CHR '':'' \<in> set ''0123456789abcdef''"
    unfolding HashMAC_def by (rule hex_encode_digits)
  then show False by simp
qed

lemma private_not_presence: "IsPrivateChannel n \<Longrightarrow> \<not> IsPresenceChannel n"
  by (auto simp: IsPrivateChannel_def IsPresenceChannel_def has_prefix_iff)

lemma colon_not_name_char: "\<not> channel_name_char (CHR '':'')"
  by (simp add: channel_name_char_def is_upper_def is_lower_def is_digit_def)

lemma valid_name_no_colon: "IsChannelNameValid n \<Longrightarrow> CHR '':'' \<notin> set n"
  using colon_not_name_char by (auto simp: IsChannelNameValid_def list_all_iff)

lemma session_id_no_colon:
  "0 \<le> a \<Longrightarrow> 0 \<le> b \<Longrightarrow> CHR '':'' \<notin> set (GenerateSessionID a b)"
  by (simp add: GenerateSessionID_def int_dec_def udec_no_char is_digit_def)

lemma split_session_id:
  "0 \<le> a \<Longrightarrow> 0 \<le> b \<Longrightarrow> strings_split (GenerateSessionID a b) (CHR ''.'') = [udec a, udec b]"
  by (simp add: GenerateSessionID_def int_dec_def split_append_sep split_no_sep udec_no_char is_digit_def)

end
