(* ===== verification/Channel.thy ===== *)
theory Channel
  imports Connection Utils
begin

text \<open>
  \<open>src/channel/channel.go\<close>. A channel owns a map from socket id to subscription and lists of
  listeners. A listener is a function of the channel's id, the subscription and the trace: all that
  the listeners installed by \<open>src/app/app.go\<close> read of the channel. Handlers run one at a time, so
  the read/write lock of a channel has no counterpart in its state.
\<close>

type_synonym listener = "string \<Rightarrow> subscription \<Rightarrow> trace \<Rightarrow> trace"
type_synonym client_listener = "string \<Rightarrow> subscription \<Rightarrow> string \<Rightarrow> gval \<Rightarrow> trace \<Rightarrow> trace"

record channel =
  chan_ID :: string
  subscriptions :: "(string \<times> subscription) list"
  createdAt :: gotime
  memberAddedListeners :: "listener list"
  memberRemovedListeners :: "listener list"
  channelOccupiedListeners :: "listener list"
  channelVacatedListeners :: "listener list"
  clientEventListeners :: "client_listener list"

definition WithMemberAddedListener :: "listener \<Rightarrow> channel \<Rightarrow> channel" where
  "WithMemberAddedListener f c = c\<lparr>memberAddedListeners := memberAddedListeners c @ [f]\<rparr>"

definition WithMemberRemovedListener :: "listener \<Rightarrow> channel \<Rightarrow> channel" where
  "WithMemberRemovedListener f c = c\<lparr>memberRemovedListeners := memberRemovedListeners c @ [f]\<rparr>"

definition WithChannelOccupiedListener :: "listener \<Rightarrow> channel \<Rightarrow> channel" where
  "WithChannelOccupiedListener f c = c\<lparr>channelOccupiedListeners := channelOccupiedListeners c @ [f]\<rparr>"

definition WithChannelVacatedListener :: "listener \<Rightarrow> channel \<Rightarrow> channel" where
  "WithChannelVacatedListener f c = c\<lparr>channelVacatedListeners := channelVacatedListeners c @ [f]\<rparr>"

definition WithClientEventListener :: "client_listener \<Rightarrow> channel \<Rightarrow> channel" where
  "WithClientEventListener f c = c\<lparr>clientEventListeners := clientEventListeners c @ [f]\<rparr>"

definition channel_New :: "env \<Rightarrow> string \<Rightarrow> (channel \<Rightarrow> channel) list \<Rightarrow> trace \<Rightarrow> channel \<times> trace" where
  "channel_New E channelID options tr =
     (let (now, tr1) = time_now E tr;
          c = \<lparr>chan_ID = channelID, subscriptions = [], createdAt = now,
               memberAddedListeners = [], memberRemovedListeners = [],
               channelOccupiedListeners = [], channelVacatedListeners = [], clientEventListeners = []\<rparr>
      in (fold (\<lambda>option. option) options c, tr1))"

section \<open>Queries\<close>

definition Subscriptions :: "channel \<Rightarrow> subscription list" where
  "Subscriptions c = List.map snd (subscriptions c)"

definition IsPresence :: "channel \<Rightarrow> bool" where
  "IsPresence c \<longleftrightarrow> IsPresenceChannel (chan_ID c)"

definition IsPrivate :: "channel \<Rightarrow> bool" where
  "IsPrivate c \<longleftrightarrow> IsPrivateChannel (chan_ID c)"

definition IsPresenceOrPrivate :: "channel \<Rightarrow> bool" where
  "IsPresenceOrPrivate c \<longleftrightarrow> IsPresence c \<or> IsPrivate c"

definition IsPublic :: "channel \<Rightarrow> bool" where
  "IsPublic c \<longleftrightarrow> \<not> IsPresenceOrPrivate c"

definition TotalSubscriptions :: "channel \<Rightarrow> int" where
  "TotalSubscriptions c = int (length (subscriptions c))"

definition IsOccupied :: "channel \<Rightarrow> bool" where
  "IsOccupied c \<longleftrightarrow> 0 < TotalSubscriptions c"

text \<open>The loop counts the subscriptions of each user id in a map and returns the size of the map.\<close>

definition count_user :: "string \<times> subscription \<Rightarrow> (string \<times> int) list \<Rightarrow> (string \<times> int) list" where
  "count_user ks tot =
     (let uid = sub_ID (snd ks);
          n = (case map_of tot uid of None \<Rightarrow> 0 | Some k \<Rightarrow> k)
      in AList.update uid (n + 1) tot)"

definition TotalUsers :: "channel \<Rightarrow> int" where
  "TotalUsers c = int (length (fold count_user (subscriptions c) []))"

definition IsSubscribed :: "channel \<Rightarrow> connection \<Rightarrow> bool" where
  "IsSubscribed c conn \<longleftrightarrow> map_of (subscriptions c) (SocketID conn) \<noteq> None"

section \<open>Operations\<close>

definition run_listeners :: "listener list \<Rightarrow> string \<Rightarrow> subscription \<Rightarrow> trace \<Rightarrow> trace" where
  "run_listeners hooks cid s tr = fold (\<lambda>hook tr. hook cid s tr) hooks tr"

definition run_client_listeners ::
  "client_listener list \<Rightarrow> string \<Rightarrow> subscription \<Rightarrow> string \<Rightarrow> gval \<Rightarrow> trace \<Rightarrow> trace" where
  "run_client_listeners hooks cid s event v tr = fold (\<lambda>hook tr. hook cid s event v tr) hooks tr"

text \<open>
  The subscription just made is the one stored under its own socket id, so \<open>subs != sub\<close> of the
  source is a comparison of keys; a removed subscription is no longer in the map.
\<close>

definition PublishMemberAddedEvent :: "env \<Rightarrow> channel \<Rightarrow> string \<Rightarrow> string \<Rightarrow> trace \<Rightarrow> trace" where
  "PublishMemberAddedEvent E c data sid tr =
     fold (\<lambda>(k, subs) tr. if k \<noteq> sid
             then snd (connection_Publish E (sub_Connection subs) (NewMemberAdded (chan_ID c) data) tr) else tr)
       (subscriptions c) tr"

definition PublishMemberRemovedEvent :: "env \<Rightarrow> channel \<Rightarrow> subscription \<Rightarrow> trace \<Rightarrow> trace" where
  "PublishMemberRemovedEvent E c s tr =
     fold (\<lambda>(k, subs) tr.
             snd (connection_Publish E (sub_Connection subs) (NewMemberRemoved (chan_ID c) (sub_ID s)) tr))
       (subscriptions c) tr"

text \<open>The presence information of the channel data: user id and raw user info.\<close>

definition unmarshal_member :: "string \<Rightarrow> (string \<times> string option) option" where
  "unmarshal_member data =
     (case unmarshal_members data of None \<Rightarrow> None
      | Some ms \<Rightarrow>
          (case (string_field ''user_id'' ms [], raw_field ''user_info'' ms None) of
             (Some u, Some i) \<Rightarrow> Some (u, i)
           | _ \<Rightarrow> None))"

definition put_subscription :: "string \<Rightarrow> subscription \<Rightarrow> channel \<Rightarrow> channel" where
  "put_subscription sid s c = c\<lparr>subscriptions := AList.update sid s (subscriptions c)\<rparr>"

definition notify_occupied :: "channel \<Rightarrow> subscription \<Rightarrow> trace \<Rightarrow> trace" where
  "notify_occupied c s tr =
     (if TotalSubscriptions c = 1 then run_listeners (channelOccupiedListeners c) (chan_ID c) s tr else tr)"

definition channel_Subscribe ::
  "env \<Rightarrow> channel \<Rightarrow> connection \<Rightarrow> string \<Rightarrow> trace \<Rightarrow> goerror option \<times> channel \<times> trace" where
  "channel_Subscribe E c conn channelData tr =
     (let sid = SocketID conn;
          s = subscription_New conn channelData;
          c1 = put_subscription sid s c
      in if IsPresence c1 then
           (case unmarshal_member channelData of
              None \<Rightarrow> (Some ErrUnmarshal, c1, tr)
            | Some (userID, userInfo) \<Rightarrow>
                let s2 = s\<lparr>sub_ID := userID, sub_Data := raw_marshal userInfo\<rparr>;
                    c2 = put_subscription sid s2 c1;
                    tr1 = PublishMemberAddedEvent E c2 channelData sid tr;
                    tr2 = run_listeners (memberAddedListeners c2) (chan_ID c2) s2 tr1;
                    js = marshal_presence (NewSubscriptionSucceedPresenceData (subscriptions c2));
                    tr3 = snd (connection_Publish E conn (NewSubscriptionSucceeded (chan_ID c2) js) tr2)
                in (None, c2, notify_occupied c2 s2 tr3))
         else
           let tr1 = snd (connection_Publish E conn (NewSubscriptionSucceeded (chan_ID c1) ''{}'') tr)
           in (None, c1, notify_occupied c1 s tr1))"

definition channel_Unsubscribe ::
  "env \<Rightarrow> channel \<Rightarrow> connection \<Rightarrow> trace \<Rightarrow> goerror option \<times> channel \<times> trace" where
  "channel_Unsubscribe E c conn tr =
     (case map_of (subscriptions c) (SocketID conn) of
        None \<Rightarrow> (Some ErrSubscriptionNotFound, c, tr)
      | Some s \<Rightarrow>
          let c1 = c\<lparr>subscriptions := AList.delete (SocketID conn) (subscriptions c)\<rparr>;
              tr1 = (if IsPresence c1
                     then run_listeners (memberRemovedListeners c1) (chan_ID c1) s (PublishMemberRemovedEvent E c1 s tr)
                     else tr);
              tr2 = (if \<not> IsOccupied c1 then run_listeners (channelVacatedListeners c1) (chan_ID c1) s tr1 else tr1)
          in (None, c1, tr2))"

text \<open>One round of the loop of \<open>Publish\<close>: send, or tell the client event listeners about the sender.\<close>

definition publish_step ::
  "env \<Rightarrow> channel \<Rightarrow> Raw \<Rightarrow> gval \<Rightarrow> string \<Rightarrow> string \<times> subscription \<Rightarrow> trace \<Rightarrow> trace" where
  "publish_step E c event v ignore ks tr =
     (let subs = snd ks
      in if SocketID (sub_Connection subs) \<noteq> ignore
         then snd (connection_Publish E (sub_Connection subs) (NewResponse (raw_Event event) (raw_Channel event) v) tr)
         else if IsClientEvent (raw_Event event)
         then run_client_listeners (clientEventListeners c) (chan_ID c) subs (raw_Event event) v tr
         else tr)"

definition channel_Publish ::
  "env \<Rightarrow> channel \<Rightarrow> Raw \<Rightarrow> string \<Rightarrow> trace \<Rightarrow> goerror option \<times> trace" where
  "channel_Publish E c event ignore tr =
     (case unmarshal_any (raw_marshal (raw_Data event)) of
        None \<Rightarrow> (Some ErrUnmarshal, tr)
      | Some v \<Rightarrow> (None, fold (publish_step E c event v ignore) (subscriptions c) tr))"

section \<open>Well-formed channels\<close>

text \<open>
  A subscription is stored under the socket id of its connection, and the listeners write to no
  socket and publish nothing (those of \<open>src/app/app.go\<close> only post web hooks).
\<close>

definition quiet :: "(trace \<Rightarrow> trace) \<Rightarrow> bool" where
  "quiet f \<longleftrightarrow> (\<forall>tr. attempts (f tr) = attempts tr \<and> publications (f tr) = publications tr
                   \<and> (\<forall>h. written h (f tr) = written h tr))"

definition listeners_quiet :: "channel \<Rightarrow> bool" where
  "listeners_quiet c \<longleftrightarrow>
     (\<forall>l \<in> set (memberAddedListeners c @ memberRemovedListeners c @ channelOccupiedListeners c @ channelVacatedListeners c).
        \<forall>cid s. quiet (l cid s)) \<and>
     (\<forall>l \<in> set (clientEventListeners c). \<forall>cid s e v. quiet (l cid s e v))"

definition chan_wf :: "channel \<Rightarrow> bool" where
  "chan_wf c \<longleftrightarrow> distinct (keys (subscriptions c))
     \<and> (\<forall>(k, s) \<in> set (subscriptions c). SocketID (sub_Connection s) = k)
     \<and> listeners_quiet c"

abbreviation sub_socket :: "string \<times> subscription \<Rightarrow> nat" where
  "sub_socket ks \<equiv> Socket (sub_Connection (snd ks))"

abbreviation sub_sid :: "string \<times> subscription \<Rightarrow> string" where
  "sub_sid ks \<equiv> SocketID (sub_Connection (snd ks))"

lemma quiet_fold:
  assumes "\<And>l. l \<in> set hooks \<Longrightarrow> quiet (f l)"
  shows "quiet (\<lambda>tr. fold f hooks tr)"
  using assms by (induction hooks) (auto simp: quiet_def)

lemma quiet_listeners:
  "(\<And>l. l \<in> set hooks \<Longrightarrow> quiet (l cid s)) \<Longrightarrow> quiet (run_listeners hooks cid s)"
  unfolding run_listeners_def by (rule quiet_fold) auto

lemma quiet_client_listeners:
  "(\<And>l. l \<in> set hooks \<Longrightarrow> quiet (l cid s e v)) \<Longrightarrow> quiet (run_client_listeners hooks cid s e v)"
  unfolding run_client_listeners_def by (rule quiet_fold) auto

lemma listeners_quietD:
  assumes "listeners_quiet c"
  shows "quiet (run_listeners (memberAddedListeners c) cid s)"
    and "quiet (run_listeners (memberRemovedListeners c) cid s)"
    and "quiet (run_listeners (channelOccupiedListeners c) cid s)"
    and "quiet (run_listeners (channelVacatedListeners c) cid s)"
    and "quiet (run_client_listeners (clientEventListeners c) cid s e v)"
  using assms by (auto simp: listeners_quiet_def intro!: quiet_listeners quiet_client_listeners)

lemma quietD:
  assumes "quiet f"
  shows "attempts (f tr) = attempts tr" and "publications (f tr) = publications tr" and "written h (f tr) = written h tr"
  using assms by (auto simp: quiet_def)

lemmas quiet_simps = listeners_quietD [THEN quietD(1)] listeners_quietD [THEN quietD(2)]
  listeners_quietD [THEN quietD(3)]

lemma connection_Publish_obs [obs_simps]:
  "attempts (snd (connection_Publish E conn m tr)) = attempts tr @ [Socket conn]"
  "posts (snd (connection_Publish E conn m tr)) = posts tr"
  "publications (snd (connection_Publish E conn m tr)) = publications tr"
  "h \<noteq> Socket conn \<Longrightarrow> written h (snd (connection_Publish E conn m tr)) = written h tr"
  "sockets_ok E \<Longrightarrow> written (Socket conn) (snd (connection_Publish E conn m tr)) = written (Socket conn) tr @ [m]"
  by (simp_all add: connection_Publish_def obs_simps)

lemma notify_occupied_obs:
  assumes "listeners_quiet c"
  shows "attempts (notify_occupied c s tr) = attempts tr"
    and "publications (notify_occupied c s tr) = publications tr"
    and "written h (notify_occupied c s tr) = written h tr"
  using assms by (simp_all add: notify_occupied_def quiet_simps)

lemma chan_wf_put:
  assumes "chan_wf c" "SocketID (sub_Connection s) = sid"
  shows "chan_wf (put_subscription sid s c)"
proof -
  have "(k, s') \<in> set (AList.update sid s (subscriptions c)) \<Longrightarrow> SocketID (sub_Connection s') = k" for k s'
    using assms set_update_distinct [of "subscriptions c" sid s] by (auto simp: chan_wf_def)
  then show ?thesis
    using assms by (auto simp: chan_wf_def put_subscription_def distinct_keys_update listeners_quiet_def)
qed

section \<open>What Publish sends\<close>

lemma publish_step_attempts:
  "listeners_quiet c \<Longrightarrow>
   attempts (publish_step E c event v ignore ks tr) = attempts tr @ (if sub_sid ks \<noteq> ignore then [sub_socket ks] else [])"
  by (simp add: publish_step_def Let_def obs_simps quiet_simps)

lemma publish_step_written:
  "listeners_quiet c \<Longrightarrow> sockets_ok E \<Longrightarrow>
   written h (publish_step E c event v ignore ks tr) =
     written h tr @ (if sub_socket ks = h \<and> sub_sid ks \<noteq> ignore
                     then [NewResponse (raw_Event event) (raw_Channel event) v] else [])"
  by (auto simp: publish_step_def Let_def obs_simps quiet_simps)

lemma publish_step_publications:
  "listeners_quiet c \<Longrightarrow> publications (publish_step E c event v ignore ks tr) = publications tr"
  by (simp add: publish_step_def Let_def obs_simps quiet_simps)

lemma publish_fold_attempts:
  "listeners_quiet c \<Longrightarrow>
   attempts (fold (publish_step E c event v ignore) xs tr) =
     attempts tr @ List.map sub_socket (List.filter (\<lambda>ks. sub_sid ks \<noteq> ignore) xs)"
  by (induction xs arbitrary: tr) (auto simp: publish_step_attempts)

lemma publish_fold_written:
  "listeners_quiet c \<Longrightarrow> sockets_ok E \<Longrightarrow>
   written h (fold (publish_step E c event v ignore) xs tr) =
     written h tr @ replicate (length (List.filter (\<lambda>ks. sub_socket ks = h \<and> sub_sid ks \<noteq> ignore) xs))
       (NewResponse (raw_Event event) (raw_Channel event) v)"
  by (induction xs arbitrary: tr) (auto simp: publish_step_written replicate_app_Cons_same)

lemma publish_fold_publications:
  "listeners_quiet c \<Longrightarrow> publications (fold (publish_step E c event v ignore) xs tr) = publications tr"
  by (induction xs arbitrary: tr) (auto simp: publish_step_publications)

lemma channel_Publish_publications:
  "chan_wf c \<Longrightarrow> publications (snd (channel_Publish E c event ignore tr)) = publications tr"
  by (simp add: channel_Publish_def publish_fold_publications chan_wf_def split: option.split)

lemma filter_unique:
  "distinct (List.map f xs) \<Longrightarrow> x \<in> set xs \<Longrightarrow> List.filter (\<lambda>y. f y = f x \<and> P y) xs = (if P x then [x] else [])"
proof (induction xs)
  case (Cons y ys)
  show ?case
  proof (cases "x = y")
    case True
    have "List.filter (\<lambda>z. f z = f x \<and> P z) ys = []"
      using Cons.prems True by (auto simp: filter_empty_conv) (metis image_eqI)
    with True show ?thesis by simp
  next
    case False
    then have x: "x \<in> set ys" using Cons.prems by simp
    then have "f y \<noteq> f x" using Cons.prems(1) by (metis distinct.simps(2) image_eqI list.set_map list.simps(9))
    note x this
    with Cons show ?thesis by simp
  qed
qed simp

text \<open>
  Publishing delivers the event exactly once to the socket of every subscriber other than the one to
  skip, and writes nothing to the skipped subscriber or to any other socket.
\<close>

lemma channel_delivers_once:
  assumes "chan_wf c" "sockets_ok E" "distinct (List.map sub_socket (subscriptions c))"
    and v: "unmarshal_any (raw_marshal (raw_Data event)) = Some v"
  shows "fst (channel_Publish E c event ignore tr) = None
    \<and> (\<forall>(k, s) \<in> set (subscriptions c).
        written (Socket (sub_Connection s)) (snd (channel_Publish E c event ignore tr)) =
          written (Socket (sub_Connection s)) tr
          @ (if k = ignore then [] else [NewResponse (raw_Event event) (raw_Channel event) v]))
    \<and> (\<forall>h. h \<notin> set (List.map sub_socket (subscriptions c)) \<longrightarrow>
        written h (snd (channel_Publish E c event ignore tr)) = written h tr)"
proof -
  have q: "listeners_quiet c" using assms(1) by (simp add: chan_wf_def)
  have w: "written h (snd (channel_Publish E c event ignore tr)) =
      written h tr @ replicate (length (List.filter (\<lambda>ks. sub_socket ks = h \<and> sub_sid ks \<noteq> ignore) (subscriptions c)))
        (NewResponse (raw_Event event) (raw_Channel event) v)" for h
    using assms q by (simp add: channel_Publish_def publish_fold_written)
  have "written (Socket (sub_Connection s)) (snd (channel_Publish E c event ignore tr)) =
        written (Socket (sub_Connection s)) tr
        @ (if k = ignore then [] else [NewResponse (raw_Event event) (raw_Channel event) v])"
    if ks: "(k, s) \<in> set (subscriptions c)" for k s
  proof -
    have "SocketID (sub_Connection s) = k" using assms(1) ks by (auto simp: chan_wf_def)
    then show ?thesis
      using w [of "Socket (sub_Connection s)"] filter_unique [OF assms(3) ks, of "\<lambda>ks. sub_sid ks \<noteq> ignore"]
      by simp
  qed
  moreover have "List.filter (\<lambda>ks. sub_socket ks = h \<and> sub_sid ks \<noteq> ignore) (subscriptions c) = []"
    if "h \<notin> set (List.map sub_socket (subscriptions c))" for h
    using that by (auto simp: filter_empty_conv)
  ultimately show ?thesis
    using v w by (fastforce simp: channel_Publish_def)
qed

text \<open>
  Whatever the sockets, Redis or the web hook endpoint answer, a write is started for every
  subscriber other than the skipped one, in order: a broken client never keeps the others from
  being served.
\<close>

theorem publish_attempts_everyone:
  assumes "chan_wf c" "unmarshal_any (raw_marshal (raw_Data event)) = Some v"
  shows "attempts (snd (channel_Publish E c event ignore tr)) =
    attempts tr @ List.map sub_socket (List.filter (\<lambda>(k, s). k \<noteq> ignore) (subscriptions c))"
proof -
  have "List.filter (\<lambda>ks. sub_sid ks \<noteq> ignore) (subscriptions c) = List.filter (\<lambda>(k, s). k \<noteq> ignore) (subscriptions c)"
    using assms(1) by (intro filter_cong) (auto simp: chan_wf_def)
  with assms show ?thesis
    by (simp add: channel_Publish_def publish_fold_attempts chan_wf_def)
qed

text \<open>A small presence channel with two members, on which the theorems are tried.\<close>

definition demo_env :: env where
  "demo_env = (\<lambda>tr c. ROk)"

definition demo_conn :: "string \<Rightarrow> nat \<Rightarrow> connection" where
  "demo_conn sid h = \<lparr>SocketID = sid, Socket = h, CreatedAt = \<lparr>unix_nano = 0, rfc3339 = []\<rparr>\<rparr>"

definition demo_sub :: "string \<Rightarrow> nat \<Rightarrow> string \<Rightarrow> subscription" where
  "demo_sub sid h uid = \<lparr>sub_Connection = demo_conn sid h, sub_ID = uid, sub_Data = ''null''\<rparr>"

definition demo_channel :: channel where
  "demo_channel = \<lparr>chan_ID = ''presence-a'',
     subscriptions = [(''1.1'', demo_sub ''1.1'' 1 ''u1''), (''2.2'', demo_sub ''2.2'' 2 ''u2'')],
     createdAt = \<lparr>unix_nano = 0, rfc3339 = []\<rparr>, memberAddedListeners = [], memberRemovedListeners = [],
     channelOccupiedListeners = [], channelVacatedListeners = [], clientEventListeners = []\<rparr>"

definition demo_event :: Raw where
  "demo_event = \<lparr>raw_Event = ''client-a'', raw_Channel = ''presence-a'', raw_Data = None\<rparr>"

lemmas demo_defs = demo_env_def demo_conn_def demo_sub_def demo_channel_def demo_event_def

lemma demo_wf: "chan_wf demo_channel" "sockets_ok demo_env" "distinct (List.map sub_socket (subscriptions demo_channel))"
  by (simp_all add: chan_wf_def listeners_quiet_def sockets_ok_def succeeded_def demo_defs)

lemma unmarshal_null: "unmarshal_any ''null'' = Some GNil"
  by code_simp

lemma unmarshal_member_empty: "unmarshal_member ''{}'' = Some ([], None)"
  by code_simp

lemma demo_event_value: "unmarshal_any (raw_marshal (raw_Data demo_event)) = Some GNil"
  by (simp add: demo_event_def raw_marshal_def unmarshal_null)

theorem publish_attempts_everyone_witness:
  "attempts (snd (channel_Publish (\<lambda>tr c. RErr) demo_channel demo_event ''none'' [])) = [1, 2]"
  using publish_attempts_everyone [OF demo_wf(1) demo_event_value, of "\<lambda>tr c. RErr" "''none''" "[]"]
  by (simp add: demo_defs attempts_simps)

section \<open>Joining and leaving\<close>

lemma member_added_attempts:
  "attempts (PublishMemberAddedEvent E c data sid tr) =
     attempts tr @ List.map sub_socket (List.filter (\<lambda>(k, s). k \<noteq> sid) (subscriptions c))"
proof -
  have "attempts (fold (\<lambda>(k, subs) tr. if k \<noteq> sid
             then snd (connection_Publish E (sub_Connection subs) m tr) else tr) xs tr) =
     attempts tr @ List.map sub_socket (List.filter (\<lambda>(k, s). k \<noteq> sid) xs)" for xs m
    by (induction xs arbitrary: tr) (auto simp: obs_simps)
  then show ?thesis by (simp add: PublishMemberAddedEvent_def)
qed

lemma member_added_written:
  assumes "sockets_ok E"
  shows "written h (PublishMemberAddedEvent E c data sid tr) =
     written h tr @ replicate (length (List.filter (\<lambda>ks. sub_socket ks = h \<and> fst ks \<noteq> sid) (subscriptions c)))
       (NewMemberAdded (chan_ID c) data)"
proof -
  have "written h (fold (\<lambda>(k, subs) tr. if k \<noteq> sid
             then snd (connection_Publish E (sub_Connection subs) m tr) else tr) xs tr) =
     written h tr @ replicate (length (List.filter (\<lambda>ks. sub_socket ks = h \<and> fst ks \<noteq> sid) xs)) m" for xs m
    using assms by (induction xs arbitrary: tr) (auto simp: obs_simps replicate_app_Cons_same)
  then show ?thesis by (simp add: PublishMemberAddedEvent_def)
qed

lemma member_removed_written:
  assumes "sockets_ok E"
  shows "written h (PublishMemberRemovedEvent E c s tr) =
     written h tr @ replicate (length (List.filter (\<lambda>ks. sub_socket ks = h) (subscriptions c)))
       (NewMemberRemoved (chan_ID c) (sub_ID s))"
proof -
  have "written h (fold (\<lambda>(k, subs) tr. snd (connection_Publish E (sub_Connection subs) m tr)) xs tr) =
     written h tr @ replicate (length (List.filter (\<lambda>ks. sub_socket ks = h) xs)) m" for xs m
    using assms by (induction xs arbitrary: tr) (auto simp: obs_simps replicate_app_Cons_same)
  then show ?thesis by (simp add: PublishMemberRemovedEvent_def)
qed

lemma member_events_publications [obs_simps]:
  "publications (PublishMemberAddedEvent E c data sid tr) = publications tr"
  "publications (PublishMemberRemovedEvent E c s tr) = publications tr"
proof -
  have "publications (fold (\<lambda>(k, subs) tr. if k \<noteq> sid
             then snd (connection_Publish E (sub_Connection subs) m tr) else tr) xs tr) = publications tr" for xs m
    by (induction xs arbitrary: tr) (auto simp: obs_simps)
  then show "publications (PublishMemberAddedEvent E c data sid tr) = publications tr"
    by (simp add: PublishMemberAddedEvent_def)
  have "publications (fold (\<lambda>(k, subs) tr. snd (connection_Publish E (sub_Connection subs) m tr)) xs tr)
      = publications tr" for xs m
    by (induction xs arbitrary: tr) (auto simp: obs_simps)
  then show "publications (PublishMemberRemovedEvent E c s tr) = publications tr"
    by (simp add: PublishMemberRemovedEvent_def)
qed

lemma put_subscription_fields [simp]:
  "chan_ID (put_subscription sid s c) = chan_ID c"
  "IsPresence (put_subscription sid s c) = IsPresence c"
  "listeners_quiet (put_subscription sid s c) = listeners_quiet c"
  "memberAddedListeners (put_subscription sid s c) = memberAddedListeners c"
  "memberRemovedListeners (put_subscription sid s c) = memberRemovedListeners c"
  "channelOccupiedListeners (put_subscription sid s c) = channelOccupiedListeners c"
  "channelVacatedListeners (put_subscription sid s c) = channelVacatedListeners c"
  "clientEventListeners (put_subscription sid s c) = clientEventListeners c"
  "subscriptions (put_subscription sid s c) = AList.update sid s (subscriptions c)"
  by (simp_all add: put_subscription_def IsPresence_def listeners_quiet_def)

lemma put_put [simp]: "put_subscription sid s' (put_subscription sid s c) = put_subscription sid s' c"
  by (simp add: put_subscription_def)

lemma subscription_New_fields [simp]:
  "sub_Connection (subscription_New conn d) = conn" "sub_ID (subscription_New conn d) = []"
  "sub_Data (subscription_New conn d) = d"
  by (simp_all add: subscription_New_def)

text \<open>Whatever Subscribe returns, the channel it leaves is the old one with one subscription put.\<close>

lemma channel_Subscribe_put:
  obtains s where "fst (snd (channel_Subscribe E c conn data tr)) = put_subscription (SocketID conn) s c"
    and "sub_Connection s = conn"
  by (cases "unmarshal_member data"; cases "IsPresence c")
     (auto simp: channel_Subscribe_def Let_def)

lemma channel_Subscribe_wf [wf_intros]:
  assumes "chan_wf c"
  shows "chan_wf (fst (snd (channel_Subscribe E c conn data tr)))"
  by (rule channel_Subscribe_put [of E c conn data tr]) (simp add: assms chan_wf_put)

lemma channel_Subscribe_frame [frame_simps]:
  "chan_ID (fst (snd (channel_Subscribe E c conn data tr))) = chan_ID c"
  by (rule channel_Subscribe_put [of E c conn data tr]) simp

lemma channel_Subscribe_keys:
  "set (keys (subscriptions (fst (snd (channel_Subscribe E c conn data tr))))) =
     insert (SocketID conn) (set (keys (subscriptions c)))"
  by (rule channel_Subscribe_put [of E c conn data tr]) (simp add: keys_update)

lemma channel_Subscribe_members:
  assumes "distinct (keys (subscriptions c))"
    and "(k, s) \<in> set (subscriptions (fst (snd (channel_Subscribe E c conn data tr))))"
  shows "(k = SocketID conn \<and> sub_Connection s = conn) \<or> (k \<noteq> SocketID conn \<and> (k, s) \<in> set (subscriptions c))"
  using assms
  by - (rule channel_Subscribe_put [of E c conn data tr], auto simp: set_update_distinct)

lemma channel_Subscribe_publications:
  "chan_wf c \<Longrightarrow> publications (snd (snd (channel_Subscribe E c conn data tr))) = publications tr"
  by (auto simp: channel_Subscribe_def Let_def chan_wf_def obs_simps quiet_simps notify_occupied_obs split: option.split)

lemma channel_Unsubscribe_wf [wf_intros]:
  "chan_wf c \<Longrightarrow> chan_wf (fst (snd (channel_Unsubscribe E c conn tr)))"
  by (auto simp: channel_Unsubscribe_def Let_def chan_wf_def listeners_quiet_def set_delete distinct_keys_delete
      split: option.split)

lemma channel_Unsubscribe_frame [frame_simps]:
  "chan_ID (fst (snd (channel_Unsubscribe E c conn tr))) = chan_ID c"
  by (auto simp: channel_Unsubscribe_def Let_def split: option.split)

lemma channel_Unsubscribe_subs:
  "subscriptions (fst (snd (channel_Unsubscribe E c conn tr))) =
     AList.delete (SocketID conn) (subscriptions c)"
proof (cases "map_of (subscriptions c) (SocketID conn)")
  case None
  then have "SocketID conn \<notin> fst ` set (subscriptions c)" by (simp add: map_of_eq_None_iff)
  with None show ?thesis by (simp add: channel_Unsubscribe_def)
next
  case (Some s)
  then show ?thesis by (simp add: channel_Unsubscribe_def Let_def)
qed

lemma channel_Unsubscribe_ok:
  "IsSubscribed c conn \<Longrightarrow> fst (channel_Unsubscribe E c conn tr) = None"
  by (auto simp: channel_Unsubscribe_def IsSubscribed_def Let_def)

lemma channel_Unsubscribe_publications:
  "chan_wf c \<Longrightarrow> publications (snd (snd (channel_Unsubscribe E c conn tr))) = publications tr"
proof (cases "map_of (subscriptions c) (SocketID conn)")
  case (Some s)
  assume wf: "chan_wf c"
  define c1 where "c1 = c\<lparr>subscriptions := AList.delete (SocketID conn) (subscriptions c)\<rparr>"
  have "listeners_quiet c1" using wf by (auto simp: chan_wf_def listeners_quiet_def c1_def)
  then show ?thesis using Some
    by (simp add: channel_Unsubscribe_def Let_def obs_simps quiet_simps flip: c1_def)
qed (simp add: channel_Unsubscribe_def)

text \<open>A join to a presence channel with data that decodes: the member stored, and what is written in what order.\<close>

lemma channel_Subscribe_member:
  assumes "IsPresence c" "unmarshal_member data = Some (uid, info)"
    and s: "s = \<lparr>sub_Connection = conn, sub_ID = uid, sub_Data = raw_marshal info\<rparr>" and c2: "c2 = put_subscription (SocketID conn) s c"
  shows "channel_Subscribe E c conn data tr = (None, c2, notify_occupied c2 s (snd (connection_Publish E conn
    (NewSubscriptionSucceeded (chan_ID c) (marshal_presence (NewSubscriptionSucceedPresenceData (subscriptions c2))))
    (run_listeners (memberAddedListeners c) (chan_ID c) s (PublishMemberAddedEvent E c2 data (SocketID conn) tr)))))"
proof -
  have "subscription_New conn data\<lparr>sub_ID := uid, sub_Data := raw_marshal info\<rparr> = s"
    by (simp add: s subscription_New_def)
  then show ?thesis using assms(1,2) by (simp add: channel_Subscribe_def Let_def c2)
qed

lemma member_added_others:
  assumes "sockets_ok E"
  shows "written h (PublishMemberAddedEvent E (put_subscription sid s c) data sid tr) = written h tr @
    replicate (length (List.filter (\<lambda>ks. sub_socket ks = h) (List.filter (\<lambda>(k, s). k \<noteq> sid) (subscriptions c))))
      (NewMemberAdded (chan_ID c) data)"
proof -
  have "List.filter (\<lambda>ks. sub_socket ks = h \<and> fst ks \<noteq> sid) (AList.update sid s xs) =
      List.filter (\<lambda>ks. sub_socket ks = h \<and> fst ks \<noteq> sid) xs" for xs
    by (induction xs) auto
  then show ?thesis by (simp add: member_added_written [OF assms] case_prod_beta conj_commute)
qed

text \<open>The members a roster can show, by the order of the map: user id and decoded user info.\<close>

definition members_of :: "channel \<Rightarrow> (string \<times> gval) list" where
  "members_of c = concat (List.map (\<lambda>(k, s). case unmarshal_any (sub_Data s) of None \<Rightarrow> [] | Some v \<Rightarrow> [(sub_ID s, v)])
     (subscriptions c))"

lemma kv_insert_map_of: "map_of (kv_insert k v m) = (map_of m)(k \<mapsto> v)"
  by (induction k v m rule: kv_insert.induct) (auto simp: fun_eq_iff)

lemma presence_fold:
  "fold presence_step xs (ids, hash) = (let ms = concat (List.map (\<lambda>(k, s). case unmarshal_any (sub_Data s) of None \<Rightarrow> []
       | Some v \<Rightarrow> [(sub_ID s, v)]) xs)
     in (ids @ List.map fst ms, fold (\<lambda>(u, v). kv_insert u v) ms hash))"
  by (induction xs arbitrary: ids hash) (auto simp: presence_step_def Let_def split: option.split)

lemma kv_fold_map_of: "map_of (fold (\<lambda>(u, v). kv_insert u v) ms hash) = map_of hash ++ map_of (rev ms)"
  by (induction ms arbitrary: hash) (auto simp: kv_insert_map_of)

text \<open>The roster: an id for each member that can be shown, the last info given for an id, and a count of all.\<close>

lemma roster:
  "pd_IDs (NewSubscriptionSucceedPresenceData (subscriptions c)) = List.map fst (members_of c)"
  "map_of (pd_Hash (NewSubscriptionSucceedPresenceData (subscriptions c))) = map_of (rev (members_of c))"
  "pd_Count (NewSubscriptionSucceedPresenceData (subscriptions c)) = TotalSubscriptions c"
  by (simp_all add: NewSubscriptionSucceedPresenceData_def presence_fold members_of_def TotalSubscriptions_def Let_def
      kv_fold_map_of)

lemma newcomer_shown:
  assumes "unmarshal_any (sub_Data s) = Some v"
  shows "(sub_ID s, v) \<in> set (members_of (put_subscription sid s c))"
proof -
  have "(sid, s) \<in> set (AList.update sid s (subscriptions c))"
    using map_of_SomeD [of "AList.update sid s (subscriptions c)" sid s] by (simp add: update_conv)
  then show ?thesis using assms by (force simp: members_of_def)
qed

text \<open>
  Claim C18: a member that joins a presence channel is stored with the user id and user info of its
  channel data and no other subscription changes, every other member is told once (\<open>member_added\<close> with
  the channel data), and the newcomer is sent one confirmation. Its roster has the user id of every
  subscription whose info is readable, the newcomer's included, the last info given for each id, and the
  number of all subscriptions.
\<close>

theorem presence_join:
  assumes wf: "chan_wf c" and ok: "sockets_ok E" and pres: "IsPresence c"
    and data: "unmarshal_member data = Some (uid, info)" and info: "unmarshal_any (raw_marshal info) = Some v"
    and dist: "distinct (Socket conn # List.map sub_socket (List.filter (\<lambda>(k, s). k \<noteq> SocketID conn) (subscriptions c)))"
    and sub: "channel_Subscribe E c conn data tr = (err, c', tr')"
  shows "err = None
    \<and> subscriptions c' = AList.update (SocketID conn) \<lparr>sub_Connection = conn, sub_ID = uid, sub_Data = raw_marshal info\<rparr> (subscriptions c)
    \<and> (\<forall>(k, s) \<in> set (subscriptions c). k \<noteq> SocketID conn \<longrightarrow>
        written (Socket (sub_Connection s)) tr' =
          written (Socket (sub_Connection s)) tr @ [NewMemberAdded (chan_ID c) data])
    \<and> (\<exists>p. written (Socket conn) tr' = written (Socket conn) tr @ [NewSubscriptionSucceeded (chan_ID c) (marshal_presence p)]
        \<and> pd_IDs p = List.map fst (members_of c') \<and> map_of (pd_Hash p) = map_of (rev (members_of c'))
        \<and> pd_Count p = int (length (subscriptions c')) \<and> (uid, v) \<in> set (members_of c'))"
proof -
  let ?sid = "SocketID conn"
  let ?others = "List.filter (\<lambda>(k, s). k \<noteq> ?sid) (subscriptions c)"
  define s2 where "s2 = \<lparr>sub_Connection = conn, sub_ID = uid, sub_Data = raw_marshal info\<rparr>"
  let ?c2 = "put_subscription ?sid s2 c"
  have res: "err = None" "c' = ?c2"
    and tr': "tr' = notify_occupied ?c2 s2 (snd (connection_Publish E conn
        (NewSubscriptionSucceeded (chan_ID c) (marshal_presence (NewSubscriptionSucceedPresenceData (subscriptions c'))))
        (run_listeners (memberAddedListeners c) (chan_ID c) s2 (PublishMemberAddedEvent E ?c2 data ?sid tr))))"
    using sub [unfolded channel_Subscribe_member [OF pres data s2_def refl]] by auto
  have q: "listeners_quiet c" "listeners_quiet ?c2" using wf by (simp_all add: chan_wf_def)
  note added = member_added_others [OF ok, of _ ?sid s2 c data tr]
  have "written (Socket (sub_Connection s)) tr' =
      written (Socket (sub_Connection s)) tr @ [NewMemberAdded (chan_ID c) data]"
    if "(k, s) \<in> set (subscriptions c)" "k \<noteq> ?sid" for k s
  proof -
    have mem: "(k, s) \<in> set ?others" using that by simp
    then have ne: "Socket (sub_Connection s) \<noteq> Socket conn" using dist by force
    have "List.filter (\<lambda>ks. sub_socket ks = Socket (sub_Connection s)) ?others = [(k, s)]"
      using filter_unique [of sub_socket ?others "(k, s)" "\<lambda>_. True"] dist mem by simp
    then show ?thesis
      using ne q by (simp add: tr' notify_occupied_obs connection_Publish_obs quiet_simps added)
  qed
  moreover have "written (Socket conn) tr' = written (Socket conn) tr @
        [NewSubscriptionSucceeded (chan_ID c) (marshal_presence (NewSubscriptionSucceedPresenceData (subscriptions c')))]"
  proof -
    have "List.filter (\<lambda>ks. sub_socket ks = Socket conn) ?others = []"
      using dist by (force simp: filter_empty_conv)
    then show ?thesis
      using q ok by (simp add: tr' notify_occupied_obs connection_Publish_obs quiet_simps added)
  qed
  moreover have "(uid, v) \<in> set (members_of c')" using newcomer_shown [of s2 v ?sid c] info by (simp add: s2_def res)
  moreover have "subscriptions c' = AList.update ?sid s2 (subscriptions c)" by (simp add: res)
  ultimately show ?thesis
    using res(1) roster [of c'] by (auto simp: s2_def TotalSubscriptions_def)
qed

lemma demo_join_distinct:
  "distinct (Socket (demo_conn ''3.3'' 3) # List.map sub_socket
     (List.filter (\<lambda>(k, s). k \<noteq> SocketID (demo_conn ''3.3'' 3)) (subscriptions demo_channel)))"
  by (simp add: demo_defs)

lemma demo_presence: "IsPresence demo_channel"
  by (simp add: IsPresence_def IsPresenceChannel_def demo_defs)

theorem presence_join_witness:
  "written 1 (snd (snd (channel_Subscribe demo_env demo_channel (demo_conn ''3.3'' 3) ''{}'' []))) =
     [NewMemberAdded ''presence-a'' ''{}'']
   \<and> (\<exists>p. written 3 (snd (snd (channel_Subscribe demo_env demo_channel (demo_conn ''3.3'' 3) ''{}'' []))) =
     [NewSubscriptionSucceeded ''presence-a'' (marshal_presence p)] \<and> pd_IDs p = [''u1'', ''u2'', []] \<and> pd_Count p = 3)"
proof -
  obtain err c' tr' where r: "channel_Subscribe demo_env demo_channel (demo_conn ''3.3'' 3) ''{}'' [] = (err, c', tr')"
    by (rule prod_cases3)
  have one: "(''1.1'', demo_sub ''1.1'' 1 ''u1'') \<in> set (subscriptions demo_channel)"
    by (simp add: demo_channel_def)
  have info: "unmarshal_any (raw_marshal None) = Some GNil" by (simp add: raw_marshal_def unmarshal_null)
  note j = presence_join [OF demo_wf(1,2) demo_presence unmarshal_member_empty info demo_join_distinct r]
  then have subs: "subscriptions c' = [(''1.1'', demo_sub ''1.1'' 1 ''u1''), (''2.2'', demo_sub ''2.2'' 2 ''u2''),
      (''3.3'', \<lparr>sub_Connection = demo_conn ''3.3'' 3, sub_ID = [], sub_Data = ''null''\<rparr>)]"
    by (simp add: demo_defs raw_marshal_def)
  then have "members_of c' = [(''u1'', GNil), (''u2'', GNil), ([], GNil)]"
    by (simp add: members_of_def unmarshal_null demo_sub_def)
  with j subs one show ?thesis unfolding r by (force simp: demo_defs written_simps)
qed

text \<open>
  Channel data that does not decode makes the join fail after the map was written: nobody is told,
  and the connection stays subscribed with an empty user id.
\<close>

lemma failed_join:
  assumes "IsPresence c" "unmarshal_member data = None"
  shows "channel_Subscribe E c conn data tr =
      (Some ErrUnmarshal, put_subscription (SocketID conn) (subscription_New conn data) c, tr)"
  using assms by (simp add: channel_Subscribe_def)

text \<open>
  Claim C19: leaving removes exactly this subscription and no error is possible; on a presence channel
  every remaining member is sent one \<open>member_removed\<close> with the leaver's user id, on other channels
  nothing is sent; leaving twice is an error that changes nothing.
\<close>

theorem leave_channel:
  assumes wf: "chan_wf c" and ok: "sockets_ok E"
    and s: "map_of (subscriptions c) (SocketID conn) = Some s"
    and dist: "distinct (List.map sub_socket (subscriptions c))"
    and un: "channel_Unsubscribe E c conn tr = (err, c', tr')"
  shows "err = None \<and> subscriptions c' = AList.delete (SocketID conn) (subscriptions c)
    \<and> \<not> IsSubscribed c' conn
    \<and> (\<forall>(k, t) \<in> set (subscriptions c').
         written (Socket (sub_Connection t)) tr' = written (Socket (sub_Connection t)) tr
           @ (if IsPresence c then [NewMemberRemoved (chan_ID c) (sub_ID s)] else []))
    \<and> channel_Unsubscribe E c' conn tr' = (Some ErrSubscriptionNotFound, c', tr')"
proof -
  define c1 where "c1 = c\<lparr>subscriptions := AList.delete (SocketID conn) (subscriptions c)\<rparr>"
  have c': "c' = c1" "err = None" using un s by (auto simp: channel_Unsubscribe_def Let_def c1_def)
  have q: "listeners_quiet c1" using wf by (auto simp: chan_wf_def listeners_quiet_def c1_def)
  have f: "IsPresence c1 = IsPresence c" "chan_ID c1 = chan_ID c"
    "subscriptions c1 = AList.delete (SocketID conn) (subscriptions c)"
    by (simp_all add: c1_def IsPresence_def)
  have gone: "map_of (subscriptions c1) (SocketID conn) = None" by (simp add: f map_of_delete)
  have d1: "distinct (List.map sub_socket (subscriptions c1))"
    using dist by (simp add: f AList.delete_eq distinct_map inj_on_def)
  have w: "written h tr' = (if IsPresence c then written h (PublishMemberRemovedEvent E c1 s tr) else written h tr)" for h
    using un s q f(1) by (auto simp: channel_Unsubscribe_def Let_def quiet_simps simp flip: c1_def)
  have "written (Socket (sub_Connection t)) tr' = written (Socket (sub_Connection t)) tr
      @ (if IsPresence c then [NewMemberRemoved (chan_ID c) (sub_ID s)] else [])"
    if "(k, t) \<in> set (subscriptions c1)" for k t
    using filter_unique [OF d1 that, of "\<lambda>_. True"]
    by (simp add: w member_removed_written [OF ok] f)
  with c' f gone show ?thesis
    by (auto simp: IsSubscribed_def channel_Unsubscribe_def)
qed

theorem leave_channel_witness:
  "written 2 (snd (snd (channel_Unsubscribe demo_env demo_channel (demo_conn ''1.1'' 1) []))) =
     [NewMemberRemoved ''presence-a'' ''u1'']"
proof -
  obtain err c' tr' where r: "channel_Unsubscribe demo_env demo_channel (demo_conn ''1.1'' 1) [] = (err, c', tr')"
    by (rule prod_cases3)
  have s: "map_of (subscriptions demo_channel) (SocketID (demo_conn ''1.1'' 1)) = Some (demo_sub ''1.1'' 1 ''u1'')"
    by (simp add: demo_defs)
  show ?thesis
    using leave_channel [OF demo_wf(1,2) s demo_wf(3) r] r demo_presence
    by (auto simp: demo_defs written_simps)
qed

section \<open>Counting\<close>

lemma count_user_keys: "set (keys (count_user ks m)) = insert (sub_ID (snd ks)) (set (keys m))"
  by (simp add: count_user_def Let_def keys_update)

lemma count_user_distinct: "distinct (keys m) \<Longrightarrow> distinct (keys (count_user ks m))"
  by (simp add: count_user_def Let_def distinct_keys_update)

lemma count_users_fold:
  "distinct (keys m) \<Longrightarrow> distinct (keys (fold count_user xs m))
     \<and> set (keys (fold count_user xs m)) = set (keys m) \<union> (\<lambda>ks. sub_ID (snd ks)) ` set xs"
  by (induction xs arbitrary: m) (auto simp: count_user_keys count_user_distinct)

text \<open>The number of users of a channel is the number of different user ids of its subscriptions.\<close>

lemma users_counted:
  "TotalUsers c = int (card (sub_ID ` set (Subscriptions c)))"
proof -
  have "length (fold count_user (subscriptions c) []) = card (set (keys (fold count_user (subscriptions c) [])))"
    using count_users_fold [of "[]" "subscriptions c"] by (simp add: length_keys)
  also have "\<dots> = card (sub_ID ` set (Subscriptions c))"
    using count_users_fold [of "[]" "subscriptions c"] by (simp add: Subscriptions_def image_image)
  finally show ?thesis by (simp add: TotalUsers_def)
qed

end
