(* ===== verification/Redis.thy ===== *)
theory Redis
  imports World Unicode_Lower
begin

text \<open>
  \<open>src/redis/redis.go\<close>: the client that keeps connections, subscriptions and presence data in Redis
  and publishes events across instances. The Redis commands are calls to the environment; key
  names, stored JSON, order of commands and error handling are the code's. An operation returns
  the error (or the value) and the extended trace.
\<close>

record redis_client =
  instanceID :: string
  isCluster :: bool

definition GetInstanceID :: "redis_client \<Rightarrow> string" where
  "GetInstanceID rc = instanceID rc"

definition IsCluster :: "redis_client \<Rightarrow> bool" where
  "IsCluster rc = isCluster rc"

record ConnectionMetadata =
  cm_InstanceID :: string
  cm_SocketID :: string
  cm_AppID :: string
  cm_CreatedAt :: string

record SubscriptionMetadata =
  sm_SocketID :: string
  sm_InstanceID :: string
  sm_ChannelID :: string
  sm_ChannelData :: string
  sm_SubscribedAt :: string

record EventMessage =
  em_Event :: string
  em_Channel :: string
  em_Data :: gval
  em_SocketID :: string
  em_IgnoreID :: string

definition day_seconds :: int where "day_seconds = 24 * 3600"

section \<open>Keys\<close>

definition connection_key :: "string \<Rightarrow> string \<Rightarrow> string" where
  "connection_key appID socketID = ''ipe:app:'' @ appID @ '':connection:'' @ socketID"

definition channel_key :: "string \<Rightarrow> string \<Rightarrow> string \<Rightarrow> string" where
  "channel_key appID channelID suffix = ''ipe:app:'' @ appID @ '':channel:'' @ channelID @ suffix"

abbreviation subscriptions_key :: "string \<Rightarrow> string \<Rightarrow> string" where
  "subscriptions_key appID channelID \<equiv> channel_key appID channelID '':subscriptions''"

abbreviation metadata_key :: "string \<Rightarrow> string \<Rightarrow> string \<Rightarrow> string" where
  "metadata_key appID channelID socketID \<equiv> channel_key appID channelID ('':subscription:'' @ socketID)"

abbreviation events_key :: "string \<Rightarrow> string \<Rightarrow> string" where
  "events_key appID channelID \<equiv> channel_key appID channelID '':events''"

abbreviation presence_key :: "string \<Rightarrow> string \<Rightarrow> string" where
  "presence_key appID channelID \<equiv> channel_key appID channelID '':presence''"

abbreviation info_key :: "string \<Rightarrow> string \<Rightarrow> string \<Rightarrow> string" where
  "info_key appID channelID socketID \<equiv> channel_key appID channelID ('':presence:'' @ socketID @ '':info'')"

section \<open>Stored JSON\<close>

definition marshal_connection_metadata :: "ConnectionMetadata \<Rightarrow> string" where
  "marshal_connection_metadata m = json_object
     [(''instance_id'', json_quote (cm_InstanceID m)), (''socket_id'', json_quote (cm_SocketID m)),
      (''app_id'', json_quote (cm_AppID m)), (''created_at'', json_quote (cm_CreatedAt m))]"

definition marshal_subscription_metadata :: "SubscriptionMetadata \<Rightarrow> string" where
  "marshal_subscription_metadata m = json_object
     ([(''socket_id'', json_quote (sm_SocketID m)), (''instance_id'', json_quote (sm_InstanceID m)),
       (''channel_id'', json_quote (sm_ChannelID m))] @
      omitempty ''channel_data'' (sm_ChannelData m) @
      [(''subscribed_at'', json_quote (sm_SubscribedAt m))])"

definition marshal_event_message :: "EventMessage \<Rightarrow> string" where
  "marshal_event_message m = json_object
     ([(''event'', json_quote (em_Event m)), (''channel'', json_quote (em_Channel m)),
       (''data'', marshal (em_Data m))] @
      omitempty ''socket_id'' (em_SocketID m) @ omitempty ''ignore_id'' (em_IgnoreID m))"

text \<open>
  A \<open>time.Time\<close> member is a JSON string in RFC 3339 form, \<open>YYYY-MM-DDThh:mm:ss\<close>, an optional
  fraction, and \<open>Z\<close> or an offset; the field ranges are checked.
\<close>

definition two_digits :: "string \<Rightarrow> int option" where
  "two_digits s = (if length s = 2 \<and> list_all is_digit s then Some (dec_val s) else None)"

definition in_two :: "string \<Rightarrow> int \<Rightarrow> int \<Rightarrow> bool" where
  "in_two s lo hi = (case two_digits s of None \<Rightarrow> False | Some v \<Rightarrow> lo \<le> v \<and> v \<le> hi)"

definition days_in :: "int \<Rightarrow> int \<Rightarrow> int" where
  "days_in y m = (if m = 2 then (if y mod 4 = 0 \<and> (y mod 100 \<noteq> 0 \<or> y mod 400 = 0) then 29 else 28)
                  else if m \<in> {4, 6, 9, 11} then 30 else 31)"

definition zone_ok :: "string \<Rightarrow> bool" where
  "zone_ok z \<longleftrightarrow> z = ''Z'' \<or>
     (length z = 6 \<and> hd z \<in> set ''+-'' \<and> in_two (take 2 (drop 1 z)) 0 23 \<and> take 1 (drop 3 z) = '':''
      \<and> in_two (drop 4 z) 0 59)"

definition rfc3339_ok :: "string \<Rightarrow> bool" where
  "rfc3339_ok s \<longleftrightarrow>
     (let y = take 4 s; mo = take 2 (drop 5 s); d = take 2 (drop 8 s); r = drop 19 s
      in length y = 4 \<and> list_all is_digit y \<and> in_two mo 1 12
         \<and> in_two d 1 (days_in (dec_val y) (dec_val mo))
         \<and> [take 1 (drop 4 s), take 1 (drop 7 s), take 1 (drop 10 s), take 1 (drop 13 s), take 1 (drop 16 s)]
             = [''-'', ''-'', ''T'', '':'', '':'']
         \<and> in_two (take 2 (drop 11 s)) 0 23 \<and> in_two (take 2 (drop 14 s)) 0 59 \<and> in_two (take 2 (drop 17 s)) 0 59
         \<and> (if take 1 r = ''.''
            then takeWhile is_digit (drop 1 r) \<noteq> [] \<and> zone_ok (dropWhile is_digit (drop 1 r))
            else zone_ok r))"

definition decode_time :: "string \<Rightarrow> string \<Rightarrow> json \<Rightarrow> string option" where
  "decode_time old raw j =
     (case j of
        JNull \<Rightarrow> Some old
      | JStr t \<Rightarrow> if raw = CHR 0x22 # t @ [CHR 0x22] \<and> rfc3339_ok t then Some t else None
      | _ \<Rightarrow> None)"

definition unmarshal_connection_metadata :: "string \<Rightarrow> ConnectionMetadata option" where
  "unmarshal_connection_metadata s =
     (case unmarshal_members s of None \<Rightarrow> None
      | Some ms \<Rightarrow>
          (case (string_field ''instance_id'' ms [], string_field ''socket_id'' ms [],
                 string_field ''app_id'' ms [], decode_field ''created_at'' decode_time ms []) of
             (Some i, Some s, Some a, Some t) \<Rightarrow>
               Some \<lparr>cm_InstanceID = i, cm_SocketID = s, cm_AppID = a, cm_CreatedAt = t\<rparr>
           | _ \<Rightarrow> None))"

definition unmarshal_subscription_metadata :: "string \<Rightarrow> SubscriptionMetadata option" where
  "unmarshal_subscription_metadata s =
     (case unmarshal_members s of None \<Rightarrow> None
      | Some ms \<Rightarrow>
          (case (string_field ''socket_id'' ms [], string_field ''instance_id'' ms [], string_field ''channel_id'' ms [],
                 string_field ''channel_data'' ms [], decode_field ''subscribed_at'' decode_time ms []) of
             (Some s, Some i, Some c, Some d, Some t) \<Rightarrow>
               Some \<lparr>sm_SocketID = s, sm_InstanceID = i, sm_ChannelID = c, sm_ChannelData = d, sm_SubscribedAt = t\<rparr>
           | _ \<Rightarrow> None))"

definition decode_any :: "gval \<Rightarrow> string \<Rightarrow> json \<Rightarrow> gval option" where
  "decode_any old raw j = gval_of j"

definition unmarshal_event_message :: "string \<Rightarrow> EventMessage option" where
  "unmarshal_event_message s =
     (case unmarshal_members s of None \<Rightarrow> None
      | Some ms \<Rightarrow>
          (case (string_field ''event'' ms [], string_field ''channel'' ms [], decode_field ''data'' decode_any ms GNil,
                 string_field ''socket_id'' ms [], string_field ''ignore_id'' ms []) of
             (Some e, Some c, Some d, Some s, Some i) \<Rightarrow>
               Some \<lparr>em_Event = e, em_Channel = c, em_Data = d, em_SocketID = s, em_IgnoreID = i\<rparr>
           | _ \<Rightarrow> None))"

section \<open>Connections\<close>

definition RegisterConnection :: "env \<Rightarrow> redis_client \<Rightarrow> string \<Rightarrow> string \<Rightarrow> trace \<Rightarrow> goerror option \<times> trace" where
  "RegisterConnection E c appID socketID tr =
     (let (now, tr1) = time_now E tr;
          data = marshal_connection_metadata
            \<lparr>cm_InstanceID = instanceID c, cm_SocketID = socketID, cm_AppID = appID, cm_CreatedAt = rfc3339 now\<rparr>;
          (r, tr2) = invoke E (RedisSet (connection_key appID socketID) data day_seconds) tr1
      in (if succeeded r then None else Some (ErrRedis ''failed to register connection''), tr2))"

definition UnregisterConnection :: "env \<Rightarrow> redis_client \<Rightarrow> string \<Rightarrow> string \<Rightarrow> trace \<Rightarrow> goerror option \<times> trace" where
  "UnregisterConnection E c appID socketID tr =
     (let (r, tr1) = invoke E (RedisDel (connection_key appID socketID)) tr
      in (if succeeded r then None else Some (ErrRedis ''failed to unregister connection''), tr1))"

definition GetConnectionInstance ::
  "env \<Rightarrow> redis_client \<Rightarrow> string \<Rightarrow> string \<Rightarrow> trace \<Rightarrow> (goerror + string) \<times> trace" where
  "GetConnectionInstance E c appID socketID tr =
     (let (r, tr1) = invoke E (RedisGet (connection_key appID socketID)) tr
      in (case r of
            RNil \<Rightarrow> Inl ErrConnectionNotFound
          | RText data \<Rightarrow>
              (case unmarshal_connection_metadata data of
                 None \<Rightarrow> Inl ErrUnmarshal
               | Some m \<Rightarrow> Inr (cm_InstanceID m))
          | _ \<Rightarrow> Inl (ErrRedis ''failed to get connection''), tr1))"

section \<open>Subscriptions\<close>

definition SubscribeToChannel ::
  "env \<Rightarrow> redis_client \<Rightarrow> string \<Rightarrow> string \<Rightarrow> string \<Rightarrow> string \<Rightarrow> trace \<Rightarrow> goerror option \<times> trace" where
  "SubscribeToChannel E c appID channelID socketID channelData tr =
     (let (r1, tr1) = invoke E (RedisSAdd (subscriptions_key appID channelID) socketID) tr
      in if \<not> succeeded r1 then (Some (ErrRedis ''failed to add subscription''), tr1)
         else let (now, tr2) = time_now E tr1;
                  data = marshal_subscription_metadata
                    \<lparr>sm_SocketID = socketID, sm_InstanceID = instanceID c, sm_ChannelID = channelID,
                     sm_ChannelData = channelData, sm_SubscribedAt = rfc3339 now\<rparr>;
                  (r2, tr3) = invoke E (RedisSet (metadata_key appID channelID socketID) data day_seconds) tr2
         in if \<not> succeeded r2 then (Some (ErrRedis ''failed to store subscription metadata''), tr3)
            else (None, snd (invoke E (RedisExpire (subscriptions_key appID channelID) day_seconds) tr3)))"

definition UnsubscribeFromChannel ::
  "env \<Rightarrow> redis_client \<Rightarrow> string \<Rightarrow> string \<Rightarrow> string \<Rightarrow> trace \<Rightarrow> goerror option \<times> trace" where
  "UnsubscribeFromChannel E c appID channelID socketID tr =
     (let (r1, tr1) = invoke E (RedisSRem (subscriptions_key appID channelID) socketID) tr
      in if \<not> succeeded r1 then (Some (ErrRedis ''failed to remove subscription''), tr1)
         else (None, snd (invoke E (RedisDel (metadata_key appID channelID socketID)) tr1)))"

definition GetChannelSubscriptions ::
  "env \<Rightarrow> redis_client \<Rightarrow> string \<Rightarrow> string \<Rightarrow> trace \<Rightarrow> (goerror + string list) \<times> trace" where
  "GetChannelSubscriptions E c appID channelID tr =
     (let (r, tr1) = invoke E (RedisSMembers (subscriptions_key appID channelID)) tr
      in (case r of
            RList ids \<Rightarrow> Inr ids
          | _ \<Rightarrow> Inl (ErrRedis ''failed to get channel subscriptions''), tr1))"

definition GetSubscriptionMetadata ::
  "env \<Rightarrow> redis_client \<Rightarrow> string \<Rightarrow> string \<Rightarrow> string \<Rightarrow> trace \<Rightarrow> (goerror + SubscriptionMetadata) \<times> trace" where
  "GetSubscriptionMetadata E c appID channelID socketID tr =
     (let (r, tr1) = invoke E (RedisGet (metadata_key appID channelID socketID)) tr
      in (case r of
            RNil \<Rightarrow> Inl ErrSubscriptionNotFound
          | RText data \<Rightarrow>
              (case unmarshal_subscription_metadata data of
                 None \<Rightarrow> Inl ErrUnmarshal
               | Some m \<Rightarrow> Inr m)
          | _ \<Rightarrow> Inl (ErrRedis ''failed to get subscription metadata''), tr1))"

section \<open>Events across instances\<close>

definition PublishEvent ::
  "env \<Rightarrow> redis_client \<Rightarrow> string \<Rightarrow> string \<Rightarrow> EventMessage \<Rightarrow> trace \<Rightarrow> goerror option \<times> trace" where
  "PublishEvent E c appID channelID event tr =
     (let (r, tr1) = invoke E (RedisPublish (events_key appID channelID) (marshal_event_message event)) tr
      in (if succeeded r then None else Some (ErrRedis ''failed to publish event''), tr1))"

definition SubscribeToChannelEvents ::
  "env \<Rightarrow> redis_client \<Rightarrow> string \<Rightarrow> string \<Rightarrow> trace \<Rightarrow> goerror option \<times> trace" where
  "SubscribeToChannelEvents E c appID channelID tr =
     (let (r, tr1) = invoke E (RedisSubscribe (events_key appID channelID)) tr
      in (if succeeded r then None else Some (ErrRedis ''failed to subscribe to channel events''), tr1))"

section \<open>Presence data\<close>

definition StorePresenceData ::
  "env \<Rightarrow> redis_client \<Rightarrow> string \<Rightarrow> string \<Rightarrow> string \<Rightarrow> string \<Rightarrow> string \<Rightarrow> trace \<Rightarrow> goerror option \<times> trace" where
  "StorePresenceData E c appID channelID socketID userID userInfo tr =
     (let (r1, tr1) = invoke E (RedisHSet (presence_key appID channelID) socketID userID) tr
      in if \<not> succeeded r1 then (Some (ErrRedis ''failed to store presence data''), tr1)
         else let (r2, tr2) = invoke E (RedisSet (info_key appID channelID socketID) userInfo day_seconds) tr1
         in if \<not> succeeded r2 then (Some (ErrRedis ''failed to store user info''), tr2)
            else (None, snd (invoke E (RedisExpire (presence_key appID channelID) day_seconds) tr2)))"

definition RemovePresenceData ::
  "env \<Rightarrow> redis_client \<Rightarrow> string \<Rightarrow> string \<Rightarrow> string \<Rightarrow> trace \<Rightarrow> goerror option \<times> trace" where
  "RemovePresenceData E c appID channelID socketID tr =
     (let tr1 = snd (invoke E (RedisHDel (presence_key appID channelID) socketID) tr)
      in (None, snd (invoke E (RedisDel (info_key appID channelID socketID)) tr1)))"

definition GetPresenceData ::
  "env \<Rightarrow> redis_client \<Rightarrow> string \<Rightarrow> string \<Rightarrow> trace \<Rightarrow> (goerror + (string \<times> string) list) \<times> trace" where
  "GetPresenceData E c appID channelID tr =
     (let (r, tr1) = invoke E (RedisHGetAll (presence_key appID channelID)) tr
      in (case r of
            RPairs m \<Rightarrow> Inr m
          | _ \<Rightarrow> Inl (ErrRedis ''failed to get presence data''), tr1))"

section \<open>Configuration\<close>

text \<open>The environment variables are a function; an unset variable is the empty string.\<close>

definition getEnv :: "(string \<Rightarrow> string) \<Rightarrow> string \<Rightarrow> string \<Rightarrow> string" where
  "getEnv vars key defaultValue = (if vars key = [] then defaultValue else vars key)"

definition trim_prefix :: "string \<Rightarrow> string \<Rightarrow> string" where
  "trim_prefix s p = (if has_prefix s p then drop (length p) s else s)"

definition redis_addrs :: "(string \<Rightarrow> string) \<Rightarrow> string list" where
  "redis_addrs vars =
     (let host = trim_prefix (trim_prefix (getEnv vars ''REDIS_HOST'' ''localhost'') ''redis://'') ''rediss://'';
          port = getEnv vars ''REDIS_PORT'' ''6379'';
          clusterMode = (strings_to_lower (getEnv vars ''REDIS_CLUSTER_MODE'' ''false'') = ''true'');
          addrsStr = getEnv vars ''REDIS_ADDRS'' []
      in if clusterMode \<and> addrsStr \<noteq> [] then List.map strings_trim_space (strings_split addrsStr (CHR '',''))
         else [host @ '':'' @ port])"

definition redis_NewClient :: "env \<Rightarrow> (string \<Rightarrow> string) \<Rightarrow> trace \<Rightarrow> (goerror + redis_client) \<times> trace" where
  "redis_NewClient E vars tr =
     (let clusterMode = (strings_to_lower (getEnv vars ''REDIS_CLUSTER_MODE'' ''false'') = ''true'');
          tlsEnabled = (strings_to_lower (getEnv vars ''REDIS_TLS_ENABLED'' ''false'') = ''true'');
          password = getEnv vars ''REDIS_PASSWORD'' [];
          given = getEnv vars ''IPE_INSTANCE_ID'' []
      in (case strconv_atoi (getEnv vars ''REDIS_DB'' ''0'') of
            None \<Rightarrow> (Inl (ErrRedis ''invalid REDIS_DB value''), tr)
          | Some db \<Rightarrow>
              let (inst, tr1) = (if given = []
                     then let (r, tr') = invoke E NewUUID tr in (case r of RText u \<Rightarrow> u | _ \<Rightarrow> [], tr')
                     else (given, tr));
                  (r, tr2) = invoke E (RedisPing (redis_addrs vars) password
                     (if clusterMode then None else Some db) tlsEnabled) tr1
              in if succeeded r then (Inr \<lparr>instanceID = inst, isCluster = clusterMode\<rparr>, tr2)
                 else (Inl (ErrRedis ''failed to connect to Redis''), tr2)))"

end
