(* ===== verification/App.thy ===== *)
theory App
  imports Channel Redis
begin

text \<open>
  \<open>src/app/app.go\<close> and \<open>src/app/webhooks.go\<close>: an application owns the map of its connections, the
  map of its channels, its counters, and the pub/sub listeners it started. Operations take the
  environment, the application and the trace and return them updated; handlers run one at a time
  (the interleavings of goroutines inside an operation are not modelled).
\<close>

record application =
  app_Name :: string
  AppID :: string
  app_Key :: string
  app_Secret :: string
  OnlySSL :: bool
  app_Enabled :: bool
  UserEvents :: bool
  WebHooks :: bool
  URLWebHook :: string
  channels :: "(string \<times> channel) list"
  connections :: "(string \<times> connection) list"
  redisClient :: "redis_client option"
  channelSubscribers :: "string list"
  pubsubListeners :: "string list"
  Stats :: "string \<Rightarrow> int"

text \<open>
  \<open>pubsubListeners\<close> is the list of running goroutines of \<open>setupChannelPubSub\<close>, by channel id: each
  has its own Redis subscription, and no code ends one.
\<close>

definition stats_Add :: "string \<Rightarrow> int \<Rightarrow> application \<Rightarrow> application" where
  "stats_Add name delta a = a\<lparr>Stats := (Stats a)(name := Stats a name + delta)\<rparr>"

text \<open>
  \<open>expvar.NewMap\<close> panics on a name that is already published, so creating an application takes the
  published names; \<open>None\<close> is the panic.
\<close>

definition stats_name :: "string \<Rightarrow> string \<Rightarrow> string" where
  "stats_name name appID = name @ '' ('' @ appID @ '')''"

definition empty_application ::
  "string \<Rightarrow> string \<Rightarrow> string \<Rightarrow> string \<Rightarrow> bool \<Rightarrow> bool \<Rightarrow> bool \<Rightarrow> bool \<Rightarrow> string \<Rightarrow> redis_client option \<Rightarrow> application" where
  "empty_application name appID key secret onlySSL enabled userEvents webHooks webHookURL redisC =
     \<lparr>app_Name = name, AppID = appID, app_Key = key, app_Secret = secret, OnlySSL = onlySSL,
      app_Enabled = enabled, UserEvents = userEvents, WebHooks = webHooks, URLWebHook = webHookURL,
      channels = [], connections = [], redisClient = redisC, channelSubscribers = [],
      pubsubListeners = [], Stats = (\<lambda>_. 0)\<rparr>"

definition NewApplication ::
  "string list \<Rightarrow> string \<Rightarrow> string \<Rightarrow> string \<Rightarrow> string \<Rightarrow> bool \<Rightarrow> bool \<Rightarrow> bool \<Rightarrow> bool \<Rightarrow> string \<Rightarrow> redis_client option
     \<Rightarrow> (application \<times> string list) option" where
  "NewApplication published name appID key secret onlySSL enabled userEvents webHooks webHookURL redisC =
     (if stats_name name appID \<in> set published then None
      else Some (empty_application name appID key secret onlySSL enabled userEvents webHooks webHookURL redisC,
                 stats_name name appID # published))"

section \<open>Web hooks\<close>

record hookEvent =
  he_Name :: string
  he_Channel :: string
  he_Event :: string
  he_Data :: "gval option"
  he_SocketID :: string
  he_UserID :: string

record webHook =
  TimeMs :: int
  wh_Events :: "hookEvent list"

definition newChannelOcuppiedHook :: "string \<Rightarrow> hookEvent" where
  "newChannelOcuppiedHook cid = \<lparr>he_Name = ''channel_occupied'', he_Channel = cid, he_Event = [],
     he_Data = None, he_SocketID = [], he_UserID = []\<rparr>"

definition newChannelVacatedHook :: "string \<Rightarrow> hookEvent" where
  "newChannelVacatedHook cid = \<lparr>he_Name = ''channel_vacated'', he_Channel = cid, he_Event = [],
     he_Data = None, he_SocketID = [], he_UserID = []\<rparr>"

definition newMemberAddedHook :: "string \<Rightarrow> subscription \<Rightarrow> hookEvent" where
  "newMemberAddedHook cid s = \<lparr>he_Name = ''member_added'', he_Channel = cid, he_Event = [],
     he_Data = None, he_SocketID = [], he_UserID = sub_ID s\<rparr>"

definition newMemberRemovedHook :: "string \<Rightarrow> subscription \<Rightarrow> hookEvent" where
  "newMemberRemovedHook cid s = \<lparr>he_Name = ''member_removed'', he_Channel = cid, he_Event = [],
     he_Data = None, he_SocketID = [], he_UserID = sub_ID s\<rparr>"

definition newClientHook :: "string \<Rightarrow> subscription \<Rightarrow> string \<Rightarrow> gval \<Rightarrow> hookEvent" where
  "newClientHook cid s event data = \<lparr>he_Name = ''client_event'', he_Channel = cid, he_Event = event,
     he_Data = (if data = GNil then None else Some data), he_SocketID = SocketID (sub_Connection s), he_UserID = []\<rparr>"

definition marshal_hook_event :: "hookEvent \<Rightarrow> string" where
  "marshal_hook_event e = json_object
     ([(''name'', json_quote (he_Name e)), (''channel'', json_quote (he_Channel e))]
      @ omitempty ''event'' (he_Event e)
      @ (case he_Data e of None \<Rightarrow> [] | Some d \<Rightarrow> [(''data'', marshal d)])
      @ omitempty ''socket_id'' (he_SocketID e) @ omitempty ''user_id'' (he_UserID e))"

definition marshal_webhook :: "webHook \<Rightarrow> string" where
  "marshal_webhook h = json_object
     [(''time_ms'', int_dec (TimeMs h)), (''events'', json_array (List.map marshal_hook_event (wh_Events h)))]"

text \<open>
  \<open>triggerHook\<close>: the request is made in a goroutine that the caller waits for, at most
  \<open>maxTimeout\<close>; a request that fails still ends the wait, one that times out returns the context's
  error. A URL that makes no request ends the goroutine silently, so the caller waits for the
  timeout. \<open>time.Now().Unix()\<close> is in seconds.
\<close>

definition triggerHook :: "env \<Rightarrow> application \<Rightarrow> hookEvent \<Rightarrow> trace \<Rightarrow> goerror option \<times> trace" where
  "triggerHook E a event tr =
     (if \<not> WebHooks a then (Some ErrWebHooksDisabled, tr)
      else let (now, tr1) = time_now E tr;
               hook = \<lparr>TimeMs = unix_nano now div 1000000000, wh_Events = [event]\<rparr>;
               js = marshal_webhook hook;
               (r0, tr2) = invoke E (HttpNewRequest (URLWebHook a)) tr1
      in if \<not> succeeded r0 then (Some ErrTimeout, tr2)
         else let headers = [(''User-Agent'', ''Ipe UA; (+https://github.com/dimiro1/ipe)''),
                             (''Content-Type'', ''application/json''),
                             (''X-Pusher-Key'', app_Key a),
                             (''X-Pusher-Signature'', HashMAC js (app_Secret a))];
                  (r, tr3) = invoke E (HttpPost (URLWebHook a) headers js) tr2
         in (if r = RTimeout then Some ErrTimeout else None, tr3))"

definition TriggerChannelOccupiedHook :: "env \<Rightarrow> application \<Rightarrow> string \<Rightarrow> trace \<Rightarrow> trace" where
  "TriggerChannelOccupiedHook E a cid tr = snd (triggerHook E a (newChannelOcuppiedHook cid) tr)"

definition TriggerChannelVacatedHook :: "env \<Rightarrow> application \<Rightarrow> string \<Rightarrow> trace \<Rightarrow> trace" where
  "TriggerChannelVacatedHook E a cid tr = snd (triggerHook E a (newChannelVacatedHook cid) tr)"

definition TriggerMemberAddedHook :: "env \<Rightarrow> application \<Rightarrow> string \<Rightarrow> subscription \<Rightarrow> trace \<Rightarrow> trace" where
  "TriggerMemberAddedHook E a cid s tr = snd (triggerHook E a (newMemberAddedHook cid s) tr)"

definition TriggerMemberRemovedHook :: "env \<Rightarrow> application \<Rightarrow> string \<Rightarrow> subscription \<Rightarrow> trace \<Rightarrow> trace" where
  "TriggerMemberRemovedHook E a cid s tr = snd (triggerHook E a (newMemberRemovedHook cid s) tr)"

definition TriggerClientEventHook ::
  "env \<Rightarrow> application \<Rightarrow> string \<Rightarrow> subscription \<Rightarrow> string \<Rightarrow> gval \<Rightarrow> trace \<Rightarrow> trace" where
  "TriggerClientEventHook E a cid s clientEvent data tr =
     (let event = newClientHook cid s clientEvent data;
          event = (if IsPresenceChannel cid then event\<lparr>he_UserID := sub_ID s\<rparr> else event)
      in snd (triggerHook E a event tr))"

section \<open>Channels of the application\<close>

definition Channels :: "application \<Rightarrow> channel list" where
  "Channels a = List.map snd (channels a)"

definition PresenceChannels :: "application \<Rightarrow> channel list" where
  "PresenceChannels a = List.filter IsPresence (Channels a)"

definition PrivateChannels :: "application \<Rightarrow> channel list" where
  "PrivateChannels a = List.filter IsPrivate (Channels a)"

definition PublicChannels :: "application \<Rightarrow> channel list" where
  "PublicChannels a = List.filter IsPublic (Channels a)"

definition FindConnection :: "application \<Rightarrow> string \<Rightarrow> goerror + connection" where
  "FindConnection a socketID =
     (case map_of (connections a) socketID of Some conn \<Rightarrow> Inr conn | None \<Rightarrow> Inl ErrConnectionNotFound)"

definition FindChannelByChannelID :: "application \<Rightarrow> string \<Rightarrow> goerror + channel" where
  "FindChannelByChannelID a n =
     (case map_of (channels a) n of Some c \<Rightarrow> Inr c | None \<Rightarrow> Inl ErrChannelNotFound)"

text \<open>A channel is a pointer: a changed channel is seen through the map that holds it.\<close>

definition store_channel :: "channel \<Rightarrow> application \<Rightarrow> application" where
  "store_channel c a =
     (if map_of (channels a) (chan_ID c) = None then a
      else a\<lparr>channels := AList.update (chan_ID c) c (channels a)\<rparr>)"

definition setupChannelPubSub :: "env \<Rightarrow> redis_client \<Rightarrow> string \<Rightarrow> application \<Rightarrow> trace \<Rightarrow> application \<times> trace" where
  "setupChannelPubSub E rc channelID a tr =
     (if channelID \<in> set (channelSubscribers a) then (a, tr)
      else (case SubscribeToChannelEvents E rc (AppID a) channelID tr of
              (Some e, tr1) \<Rightarrow> (a, tr1)
            | (None, tr1) \<Rightarrow>
                (a\<lparr>channelSubscribers := channelID # channelSubscribers a,
                   pubsubListeners := channelID # pubsubListeners a\<rparr>, tr1)))"

text \<open>The counters of a channel's kind, moved by \<open>delta\<close>.\<close>

definition count_channel :: "channel \<Rightarrow> int \<Rightarrow> application \<Rightarrow> application" where
  "count_channel c delta a =
     (let a1 = (if IsPresence c then stats_Add ''TotalPresenceChannels'' delta a else a);
          a2 = (if IsPrivate c then stats_Add ''TotalPrivateChannels'' delta a1 else a1);
          a3 = (if IsPublic c then stats_Add ''TotalPublicChannels'' delta a2 else a2)
      in stats_Add ''TotalChannels'' delta a3)"

definition AddChannel :: "env \<Rightarrow> channel \<Rightarrow> application \<Rightarrow> trace \<Rightarrow> application \<times> trace" where
  "AddChannel E c a tr =
     (let a1 = a\<lparr>channels := AList.update (chan_ID c) c (channels a)\<rparr>;
          (a2, tr1) = (case redisClient a1 of
             Some rc \<Rightarrow> setupChannelPubSub E rc (chan_ID c) a1 tr | None \<Rightarrow> (a1, tr))
      in (count_channel c 1 a2, tr1))"

definition RemoveChannel :: "channel \<Rightarrow> application \<Rightarrow> application" where
  "RemoveChannel c a =
     (let a1 = (if redisClient a \<noteq> None
                then a\<lparr>channelSubscribers := removeAll (chan_ID c) (channelSubscribers a)\<rparr> else a)
      in count_channel c (-1) (a1\<lparr>channels := AList.delete (chan_ID c) (channels a1)\<rparr>))"

text \<open>The options of a new channel: the listeners that trigger the web hooks of this application.\<close>

definition app_options :: "env \<Rightarrow> application \<Rightarrow> (channel \<Rightarrow> channel) list" where
  "app_options E a =
     [WithChannelOccupiedListener (\<lambda>cid s tr. TriggerChannelOccupiedHook E a cid tr),
      WithChannelVacatedListener (\<lambda>cid s tr. TriggerChannelVacatedHook E a cid tr),
      WithMemberAddedListener (\<lambda>cid s tr. TriggerMemberAddedHook E a cid s tr),
      WithMemberRemovedListener (\<lambda>cid s tr. TriggerMemberRemovedHook E a cid s tr),
      WithClientEventListener (\<lambda>cid s event data tr. TriggerClientEventHook E a cid s event data tr)]"

definition FindOrCreateChannelByChannelID ::
  "env \<Rightarrow> string \<Rightarrow> application \<Rightarrow> trace \<Rightarrow> channel \<times> application \<times> trace" where
  "FindOrCreateChannelByChannelID E n a tr =
     (case FindChannelByChannelID a n of
        Inr c \<Rightarrow> (c, a, tr)
      | Inl e \<Rightarrow>
          let (c, tr1) = channel_New E n (app_options E a) tr;
              (a1, tr2) = AddChannel E c a tr1
          in (c, a1, tr2))"

section \<open>Connections\<close>

definition app_Connect :: "env \<Rightarrow> connection \<Rightarrow> application \<Rightarrow> trace \<Rightarrow> application \<times> trace" where
  "app_Connect E conn a tr =
     (let tr1 = (case redisClient a of
             Some rc \<Rightarrow> snd (RegisterConnection E rc (AppID a) (SocketID conn) tr) | None \<Rightarrow> tr)
      in (stats_Add ''TotalConnections'' 1
            (a\<lparr>connections := AList.update (SocketID conn) conn (connections a)\<rparr>), tr1))"

definition app_Unsubscribe ::
  "env \<Rightarrow> channel \<Rightarrow> connection \<Rightarrow> application \<Rightarrow> trace \<Rightarrow> goerror option \<times> application \<times> trace" where
  "app_Unsubscribe E c conn a tr =
     (case channel_Unsubscribe E c conn tr of
        (Some err, c1, tr1) \<Rightarrow> (Some err, store_channel c1 a, tr1)
      | (None, c1, tr1) \<Rightarrow>
          let a1 = store_channel c1 a;
              tr3 = (case redisClient a of
                 None \<Rightarrow> tr1
               | Some rc \<Rightarrow>
                   let tr2 = snd (UnsubscribeFromChannel E rc (AppID a) (chan_ID c1) (SocketID conn) tr1)
                   in if IsPresence c1
                      then snd (RemovePresenceData E rc (AppID a) (chan_ID c1) (SocketID conn) tr2)
                      else tr2)
          in (None, if \<not> IsOccupied c1 then RemoveChannel c1 a1 else a1, tr3))"

definition app_Subscribe ::
  "env \<Rightarrow> channel \<Rightarrow> connection \<Rightarrow> string \<Rightarrow> application \<Rightarrow> trace \<Rightarrow> goerror option \<times> application \<times> trace" where
  "app_Subscribe E c conn data a tr =
     (case channel_Subscribe E c conn data tr of
        (Some err, c1, tr1) \<Rightarrow> (Some err, store_channel c1 a, tr1)
      | (None, c1, tr1) \<Rightarrow>
          let tr3 = (case redisClient a of
                 None \<Rightarrow> tr1
               | Some rc \<Rightarrow>
                   let tr2 = snd (SubscribeToChannel E rc (AppID a) (chan_ID c1) (SocketID conn) data tr1)
                   in if IsPresence c1 then
                        (case unmarshal_member data of
                           None \<Rightarrow> tr2
                         | Some (userID, userInfo) \<Rightarrow>
                             snd (StorePresenceData E rc (AppID a) (chan_ID c1) (SocketID conn) userID
                                   (case userInfo of None \<Rightarrow> [] | Some i \<Rightarrow> i) tr2))
                      else tr2)
          in (None, store_channel c1 a, tr3))"

text \<open>The loop of \<open>Disconnect\<close> over the channels, each looked up as it is when its turn comes.\<close>

definition disconnect_step ::
  "env \<Rightarrow> connection \<Rightarrow> string \<Rightarrow> application \<times> trace \<Rightarrow> application \<times> trace" where
  "disconnect_step E conn cid s =
     (case map_of (channels (fst s)) cid of
        None \<Rightarrow> s
      | Some c \<Rightarrow> if IsSubscribed c conn then snd (app_Unsubscribe E c conn (fst s) (snd s)) else s)"

definition app_Disconnect :: "env \<Rightarrow> string \<Rightarrow> application \<Rightarrow> trace \<Rightarrow> application \<times> trace" where
  "app_Disconnect E socketID a tr =
     (case FindConnection a socketID of
        Inl e \<Rightarrow> (a, tr)
      | Inr conn \<Rightarrow>
          let (a1, tr1) = fold (disconnect_step E conn) (keys (channels a)) (a, tr);
              tr2 = (case redisClient a1 of
                 Some rc \<Rightarrow> snd (UnregisterConnection E rc (AppID a1) socketID tr1) | None \<Rightarrow> tr1)
          in if map_of (connections a1) (SocketID conn) = None then (a1, tr2)
             else (stats_Add ''TotalConnections'' (-1)
                     (a1\<lparr>connections := AList.delete (SocketID conn) (connections a1)\<rparr>), tr2))"

section \<open>Publishing\<close>

fun has_remote :: "env \<Rightarrow> redis_client \<Rightarrow> string \<Rightarrow> string list \<Rightarrow> trace \<Rightarrow> bool \<times> trace" where
  "has_remote E rc appID [] tr = (False, tr)"
| "has_remote E rc appID (sid # sids) tr =
     (case GetConnectionInstance E rc appID sid tr of
        (Inr inst, tr1) \<Rightarrow> if inst \<noteq> instanceID rc then (True, tr1) else has_remote E rc appID sids tr1
      | (Inl e, tr1) \<Rightarrow> has_remote E rc appID sids tr1)"

definition publish_remote ::
  "env \<Rightarrow> redis_client \<Rightarrow> string \<Rightarrow> string \<Rightarrow> Raw \<Rightarrow> string \<Rightarrow> trace \<Rightarrow> trace" where
  "publish_remote E rc appID cid event ignore tr =
     (case GetChannelSubscriptions E rc appID cid tr of
        (Inl e, tr1) \<Rightarrow> tr1
      | (Inr all, tr1) \<Rightarrow>
          (case has_remote E rc appID all tr1 of
             (False, tr2) \<Rightarrow> tr2
           | (True, tr2) \<Rightarrow>
               (case unmarshal_any (raw_marshal (raw_Data event)) of
                  None \<Rightarrow> tr2
                | Some v \<Rightarrow>
                    snd (PublishEvent E rc appID cid
                      \<lparr>em_Event = raw_Event event, em_Channel = raw_Channel event, em_Data = v,
                       em_SocketID = [], em_IgnoreID = ignore\<rparr> tr2))))"

definition app_Publish ::
  "env \<Rightarrow> channel \<Rightarrow> Raw \<Rightarrow> string \<Rightarrow> application \<Rightarrow> trace \<Rightarrow> goerror option \<times> application \<times> trace" where
  "app_Publish E c event ignore a tr =
     (let a1 = stats_Add ''TotalUniqueMessages'' 1 a;
          (err, tr1) = channel_Publish E c event ignore tr;
          tr2 = (case redisClient a1 of
             None \<Rightarrow> tr1 | Some rc \<Rightarrow> publish_remote E rc (AppID a1) (chan_ID c) event ignore tr1)
      in (err, a1, tr2))"

text \<open>The body of the listener goroutine, for one message from Redis.\<close>

definition handle_pubsub :: "env \<Rightarrow> redis_client \<Rightarrow> string \<Rightarrow> string \<Rightarrow> application \<Rightarrow> trace \<Rightarrow> trace" where
  "handle_pubsub E rc channelID payload a tr =
     (case unmarshal_event_message payload of
        None \<Rightarrow> tr
      | Some m \<Rightarrow>
          (case FindChannelByChannelID a channelID of
             Inl e \<Rightarrow> tr
           | Inr ch \<Rightarrow>
               let event = \<lparr>raw_Event = em_Event m, raw_Channel = em_Channel m, raw_Data = Some (marshal (em_Data m))\<rparr>;
                   (ignoreID, tr1) = (if em_IgnoreID m \<noteq> []
                      then (case GetConnectionInstance E rc (AppID a) (em_IgnoreID m) tr of
                              (Inr inst, tr') \<Rightarrow> (if inst = instanceID rc then em_IgnoreID m else [], tr')
                            | (Inl e, tr') \<Rightarrow> ([], tr'))
                      else ([], tr))
               in snd (channel_Publish E ch event ignoreID tr1)))"

end
