(* ===== verification/Storage.thy ===== *)
theory Storage
  imports App
begin

text \<open>
  \<open>src/storage/storage.go\<close>: the list of applications, searched in order. The source returns
  pointers; \<open>store_by_app_id\<close> and \<open>store_by_key\<close> put a changed application back where the search
  found it.
\<close>

record storage =
  Apps :: "application list"

definition NewInMemory :: storage where
  "NewInMemory = \<lparr>Apps = []\<rparr>"

definition AddApp :: "application \<Rightarrow> storage \<Rightarrow> storage" where
  "AddApp a db = db\<lparr>Apps := Apps db @ [a]\<rparr>"

definition find_app :: "(application \<Rightarrow> bool) \<Rightarrow> storage \<Rightarrow> goerror + application" where
  "find_app p db = (case List.find p (Apps db) of Some a \<Rightarrow> Inr a | None \<Rightarrow> Inl ErrAppNotFound)"

definition GetAppByAppID :: "storage \<Rightarrow> string \<Rightarrow> goerror + application" where
  "GetAppByAppID db appID = find_app (\<lambda>a. AppID a = appID) db"

definition GetAppByKey :: "storage \<Rightarrow> string \<Rightarrow> goerror + application" where
  "GetAppByKey db key = find_app (\<lambda>a. app_Key a = key) db"

fun replace_first :: "('a \<Rightarrow> bool) \<Rightarrow> 'a \<Rightarrow> 'a list \<Rightarrow> 'a list" where
  "replace_first p x [] = []"
| "replace_first p x (y # ys) = (if p y then x # ys else y # replace_first p x ys)"

definition store_by_app_id :: "string \<Rightarrow> application \<Rightarrow> storage \<Rightarrow> storage" where
  "store_by_app_id appID a db = db\<lparr>Apps := replace_first (\<lambda>b. AppID b = appID) a (Apps db)\<rparr>"

definition store_by_key :: "string \<Rightarrow> application \<Rightarrow> storage \<Rightarrow> storage" where
  "store_by_key key a db = db\<lparr>Apps := replace_first (\<lambda>b. app_Key b = key) a (Apps db)\<rparr>"

section \<open>Putting an application back\<close>

lemma find_replace_first:
  "List.find p xs = Some x \<Longrightarrow> p y \<Longrightarrow> List.find p (replace_first p y xs) = Some y"
  by (induction xs) (auto split: if_splits)

lemma find_replace_other:
  "List.find p xs = Some x \<Longrightarrow> q y = q x \<Longrightarrow> \<not> q x \<Longrightarrow> List.find q (replace_first p y xs) = List.find q xs"
  by (induction xs) (auto split: if_splits)

text \<open>
  The contract that the API (by id) and the websockets (by key) rely on: what is put back where it
  was found is found again there, and no other application changes.
\<close>

locale app_store =
  fixes key_of :: "application \<Rightarrow> string"
    and get :: "storage \<Rightarrow> string \<Rightarrow> goerror + application"
    and put :: "string \<Rightarrow> application \<Rightarrow> storage \<Rightarrow> storage"
  assumes get_key: "get db k = Inr a \<Longrightarrow> key_of a = k"
    and get_put: "get db k = Inr a \<Longrightarrow> key_of a' = k \<Longrightarrow> get (put k a' db) k' = (if k' = k then Inr a' else get db k')"
begin

lemma put_found: "get db k = Inr a \<Longrightarrow> key_of a' = key_of a \<Longrightarrow> get (put k a' db) k' = (if k' = k then Inr a' else get db k')"
  using get_key get_put by simp

lemma put_twice: "get db k = Inr a \<Longrightarrow> key_of a1 = key_of a \<Longrightarrow> key_of a2 = key_of a \<Longrightarrow>
  get (put k a2 (put k a1 db)) k' = get (put k a2 db) k'"
  using put_found [of db k a a1] put_found [of "put k a1 db" k a1 a2] put_found [of db k a a2] by simp

end

lemma find_app_get: "find_app (\<lambda>a. f a = k) db = Inr a \<Longrightarrow> f a = k"
  by (auto simp: find_app_def find_Some_iff split: option.splits)

lemma find_app_put:
  assumes "find_app (\<lambda>a. f a = k) db = Inr a" "f a' = k"
  shows "find_app (\<lambda>a. f a = k') (db\<lparr>Apps := replace_first (\<lambda>b. f b = k) a' (Apps db)\<rparr>) =
    (if k' = k then Inr a' else find_app (\<lambda>a. f a = k') db)"
proof -
  have f: "List.find (\<lambda>a. f a = k) (Apps db) = Some a"
    using assms(1) by (auto simp: find_app_def split: option.splits)
  then show ?thesis
    using find_replace_first [OF f, of a'] find_replace_other [OF f, of "\<lambda>a. f a = k'" a'] find_app_get [OF assms(1)] assms(2)
    by (simp add: find_app_def)
qed

interpretation by_id: app_store AppID GetAppByAppID store_by_app_id
  by (unfold_locales, unfold GetAppByAppID_def store_by_app_id_def) (erule find_app_get, erule (1) find_app_put)

interpretation by_key: app_store app_Key GetAppByKey store_by_key
  by (unfold_locales, unfold GetAppByKey_def store_by_key_def) (erule find_app_get, erule (1) find_app_put)

end
