(* ===== verification/Websockets.thy ===== *)
theory Websockets
  imports Storage
begin

text \<open>
  \<open>src/websockets/websocket.go\<close> and \<open>errors.go\<close>: the handshake, the read loop and the handlers of the
  protocol's events. What arrives on the socket is the list of the results of \<open>ReadMessage\<close>; when it
  is used up the loop is waiting for the next frame.
\<close>

record websocketError =
  we_Code :: int
  we_Msg :: string

definition applicationOnlyAcceptsSSL :: websocketError where
  "applicationOnlyAcceptsSSL = \<lparr>we_Code = 4000, we_Msg = ''Application only accepts SSL connections, reconnect using wss://''\<rparr>"

definition applicationDoesNotExists :: websocketError where
  "applicationDoesNotExists = \<lparr>we_Code = 4001, we_Msg = ''Could not found an app with the given key''\<rparr>"

definition applicationDisabled :: websocketError where
  "applicationDisabled = \<lparr>we_Code = 4003, we_Msg = ''Application disabled''\<rparr>"

definition invalidVersionStringFormat :: websocketError where
  "invalidVersionStringFormat = \<lparr>we_Code = 4006, we_Msg = ''Invalid version string format''\<rparr>"

definition unsupportedProtocolVersion :: websocketError where
  "unsupportedProtocolVersion = \<lparr>we_Code = 4007, we_Msg = ''Unsupported protocol version''\<rparr>"

definition noProtocolVersionSupplied :: websocketError where
  "noProtocolVersionSupplied = \<lparr>we_Code = 4008, we_Msg = ''No protocol version supplied''\<rparr>"

definition reconnectImmediately :: websocketError where
  "reconnectImmediately = \<lparr>we_Code = 4200, we_Msg = ''Generic reconnect immediately''\<rparr>"

definition supportedProtocolVersion :: int where "supportedProtocolVersion = 7"

definition PongWait :: int where "PongWait = 60 * 1000000000"

definition PingPeriod :: int where "PingPeriod = (PongWait * 9) div 10"

record ws_request =
  wr_Key :: string
  wr_Protocol :: string
  wr_TLS :: bool

datatype read_result = Frame string | ReadEOF | ReadCloseError | ReadError

definition emitError :: "env \<Rightarrow> websocketError \<Rightarrow> nat \<Rightarrow> trace \<Rightarrow> trace" where
  "emitError E err sock tr = snd (connection_Send E sock [] (NewError (we_Code err) (we_Msg err)) tr)"

definition emitPeerError :: "env \<Rightarrow> websocketError \<Rightarrow> connection \<Rightarrow> trace \<Rightarrow> trace" where
  "emitPeerError E err peer tr = snd (connection_Publish E peer (NewError (we_Code err) (we_Msg err)) tr)"

definition peer_message :: "string \<Rightarrow> websocketError" where
  "peer_message m = \<lparr>we_Code = 0, we_Msg = m\<rparr>"

section \<open>Handlers\<close>

definition validateAuthKey :: "string \<Rightarrow> string list \<Rightarrow> application \<Rightarrow> bool" where
  "validateAuthKey givenAuthKey toSign a \<longleftrightarrow>
     givenAuthKey = app_Key a @ '':'' @ HashMAC (strings_join toSign '':'') (app_Secret a)"

definition handlePing :: "env \<Rightarrow> connection \<Rightarrow> trace \<Rightarrow> trace" where
  "handlePing E peer tr = snd (connection_Publish E peer NewPong tr)"

definition handleClientEvent ::
  "env \<Rightarrow> connection \<Rightarrow> string \<Rightarrow> string \<Rightarrow> application \<Rightarrow> trace \<Rightarrow> application \<times> trace" where
  "handleClientEvent E peer sessionID message a tr =
     (let tr0 = (if \<not> UserEvents a
                 then emitPeerError E (peer_message ''To send client events, you must enable this feature in the Settings.'') peer tr
                 else tr)
      in (case unmarshal_raw message of
            None \<Rightarrow> (a, emitPeerError E reconnectImmediately peer tr0)
          | Some clientEvent \<Rightarrow>
              (case FindChannelByChannelID a (raw_Channel clientEvent) of
                 Inl e \<Rightarrow> (a, emitPeerError E (peer_message (''Could not find a channel with the id '' @ raw_Channel clientEvent)) peer tr0)
               | Inr c \<Rightarrow>
                   if \<not> IsPresenceOrPrivate c
                   then (a, emitPeerError E (peer_message ''Client event rejected - only supported on private and presence channels'') peer tr0)
                   else (case app_Publish E c clientEvent sessionID a tr0 of
                           (Some e, a1, tr1) \<Rightarrow> (a1, emitPeerError E reconnectImmediately peer tr1)
                         | (None, a1, tr1) \<Rightarrow> (a1, tr1)))))"

definition handleUnsubscribe ::
  "env \<Rightarrow> connection \<Rightarrow> string \<Rightarrow> string \<Rightarrow> application \<Rightarrow> trace \<Rightarrow> application \<times> trace" where
  "handleUnsubscribe E peer sessionID message a tr =
     (case unmarshal_unsubscribe message of
        None \<Rightarrow> (a, emitPeerError E reconnectImmediately peer tr)
      | Some unsubscribeEvent \<Rightarrow>
          (case FindConnection a sessionID of
             Inl e \<Rightarrow> (a, emitPeerError E (peer_message (''Could not find a connection with the id '' @ sessionID)) peer tr)
           | Inr conn \<Rightarrow>
               (case FindChannelByChannelID a (uns_Channel unsubscribeEvent) of
                  Inl e \<Rightarrow> (a, emitPeerError E (peer_message (''Could not find a channel with the id '' @ uns_Channel unsubscribeEvent)) peer tr)
                | Inr c \<Rightarrow>
                    (case app_Unsubscribe E c conn a tr of
                       (Some e, a1, tr1) \<Rightarrow> (a1, emitPeerError E reconnectImmediately peer tr1)
                     | (None, a1, tr1) \<Rightarrow> (a1, tr1)))))"

text \<open>What must be signed to subscribe, \<open>None\<close> for a public channel.\<close>

definition strings_to_sign :: "connection \<Rightarrow> string \<Rightarrow> string \<Rightarrow> string list option" where
  "strings_to_sign conn channelName channelData =
     (let isPresence = IsPresenceChannel channelName; isPrivate = IsPrivateChannel channelName
      in if isPresence \<or> isPrivate
         then Some ([SocketID conn, channelName] @ (if isPresence \<or> channelData \<noteq> [] then [channelData] else []))
         else None)"

definition handleSubscribe ::
  "env \<Rightarrow> connection \<Rightarrow> string \<Rightarrow> string \<Rightarrow> application \<Rightarrow> trace \<Rightarrow> application \<times> trace" where
  "handleSubscribe E peer sessionID message a tr =
     (case unmarshal_subscribe message of
        None \<Rightarrow> (a, emitPeerError E reconnectImmediately peer tr)
      | Some subscribeEvent \<Rightarrow>
          (case FindConnection a sessionID of
             Inl e \<Rightarrow> (a, emitPeerError E reconnectImmediately peer tr)
           | Inr conn \<Rightarrow>
               let channelName = strings_trim_space (sd_Channel (sub_EvData subscribeEvent));
                   auth = sd_Auth (sub_EvData subscribeEvent);
                   channelData = sd_ChannelData (sub_EvData subscribeEvent)
               in if \<not> IsChannelNameValid channelName
                  then (a, emitPeerError E (peer_message ''This channel name is not valid'') peer tr)
                  else if (case strings_to_sign conn channelName channelData of
                             None \<Rightarrow> False | Some toSign \<Rightarrow> \<not> validateAuthKey auth toSign a)
                  then (a, emitPeerError E (peer_message (''Auth value for subscription to '' @ channelName @ '' is invalid'')) peer tr)
                  else let (c, a1, tr1) = FindOrCreateChannelByChannelID E channelName a tr
                       in (case app_Subscribe E c conn channelData a1 tr1 of
                             (Some e, a2, tr2) \<Rightarrow> (a2, emitPeerError E reconnectImmediately peer tr2)
                           | (None, a2, tr2) \<Rightarrow> (a2, tr2))))"

definition handleError :: "env \<Rightarrow> connection \<Rightarrow> read_result \<Rightarrow> trace \<Rightarrow> trace" where
  "handleError E peer err tr =
     (if err = ReadEOF then tr
      else if err = ReadCloseError then tr
      else emitPeerError E reconnectImmediately peer tr)"

section \<open>The read loop\<close>

text \<open>The variable \<open>event\<close> is declared once, before the loop: a frame decodes into what the last one left.\<close>

definition unmarshal_event :: "string \<Rightarrow> string \<Rightarrow> string option" where
  "unmarshal_event old message =
     (case unmarshal_members message of None \<Rightarrow> None | Some ms \<Rightarrow> string_field ''event'' ms old)"

definition dispatch ::
  "env \<Rightarrow> connection \<Rightarrow> string \<Rightarrow> string \<Rightarrow> string \<Rightarrow> application \<Rightarrow> trace \<Rightarrow> application \<times> trace" where
  "dispatch E peer sessionID event message a tr =
     (if event = ''pusher:ping'' then (a, handlePing E peer tr)
      else if event = ''pusher:subscribe'' then handleSubscribe E peer sessionID message a tr
      else if event = ''pusher:unsubscribe'' then handleUnsubscribe E peer sessionID message a tr
      else if IsClientEvent event then handleClientEvent E peer sessionID message a tr
      else (a, tr))"

definition renew_deadline :: "env \<Rightarrow> nat \<Rightarrow> trace \<Rightarrow> bool \<times> trace" where
  "renew_deadline E sock tr =
     (let (now, tr1) = time_now E tr; (r, tr2) = invoke E (SetReadDeadline sock (unix_nano now + PongWait)) tr1
      in (succeeded r, tr2))"

text \<open>
  The pong handler, which gorilla calls from \<open>ReadMessage\<close>, and one tick of the goroutine that pings the
  peer every \<open>PingPeriod\<close>: a ping that cannot be written closes the socket and ends the goroutine
  (\<open>False\<close>). The goroutine runs beside the loop and shares nothing with it but the socket.
\<close>

definition pong_handler :: "env \<Rightarrow> nat \<Rightarrow> trace \<Rightarrow> bool \<times> trace" where
  "pong_handler E sock tr = renew_deadline E sock tr"

definition ping_tick :: "env \<Rightarrow> nat \<Rightarrow> trace \<Rightarrow> bool \<times> trace" where
  "ping_tick E sock tr =
     (let (now, tr1) = time_now E tr; (r, tr2) = invoke E (WriteControl sock (unix_nano now + WriteWait)) tr1
      in if succeeded r then (True, tr2) else (False, snd (invoke E (CloseSocket sock) tr2)))"

text \<open>
  What the loop does with a message it has read: the new value of \<open>event\<close>, or \<open>None\<close> where the loop returns.
\<close>

definition handle_message ::
  "env \<Rightarrow> connection \<Rightarrow> string \<Rightarrow> string \<Rightarrow> string \<Rightarrow> application \<Rightarrow> trace \<Rightarrow> string option \<times> application \<times> trace" where
  "handle_message E peer sessionID event message a tr =
     (case unmarshal_event event message of
        None \<Rightarrow> (None, a, emitPeerError E reconnectImmediately peer tr)
      | Some event' \<Rightarrow> (Some event', dispatch E peer sessionID event' message a tr))"

text \<open>The result says whether the loop has ended.\<close>

fun message_loop ::
  "env \<Rightarrow> connection \<Rightarrow> nat \<Rightarrow> string \<Rightarrow> string \<Rightarrow> read_result list \<Rightarrow> application \<Rightarrow> trace \<Rightarrow> bool \<times> application \<times> trace" where
  "message_loop E peer sock sessionID event [] a tr = (False, a, tr)"
| "message_loop E peer sock sessionID event (r # rs) a tr =
     (case renew_deadline E sock tr of
        (False, tr1) \<Rightarrow> (True, a, tr1)
      | (True, tr1) \<Rightarrow>
          (case r of
             Frame message \<Rightarrow>
               (case handle_message E peer sessionID event message a tr1 of
                  (None, a2, tr2) \<Rightarrow> (True, a2, tr2)
                | (Some event', a2, tr2) \<Rightarrow> message_loop E peer sock sessionID event' rs a2 tr2)
           | err \<Rightarrow> (True, a, handleError E peer err tr1)))"

declare message_loop.simps(2) [simp del]

lemma message_loop_Cons [simp]:
  "message_loop E peer sock sessionID event (r # rs) a tr =
     (case renew_deadline E sock tr of
        (False, tr1) \<Rightarrow> (True, a, tr1)
      | (True, tr1) \<Rightarrow>
          (case r of
             Frame message \<Rightarrow>
               (case unmarshal_event event message of
                  None \<Rightarrow> (True, a, emitPeerError E reconnectImmediately peer tr1)
                | Some event' \<Rightarrow>
                    let (a2, tr2) = dispatch E peer sessionID event' message a tr1
                    in message_loop E peer sock sessionID event' rs a2 tr2)
           | err \<Rightarrow> (True, a, handleError E peer err tr1)))"
  by (auto simp: message_loop.simps(2) handle_message_def split: prod.split bool.split read_result.split option.split)

definition onClose :: "env \<Rightarrow> string \<Rightarrow> application \<Rightarrow> trace \<Rightarrow> application \<times> trace" where
  "onClose E sessionID a tr = app_Disconnect E sessionID a tr"

definition handleMessages ::
  "env \<Rightarrow> nat \<Rightarrow> string \<Rightarrow> read_result list \<Rightarrow> application \<Rightarrow> trace \<Rightarrow> bool \<times> application \<times> trace" where
  "handleMessages E sock sessionID rs a tr =
     (case FindConnection a sessionID of
        Inl e \<Rightarrow> (True, a, tr)
      | Inr peer \<Rightarrow>
          (case renew_deadline E sock tr of
             (False, tr1) \<Rightarrow> (let (a1, tr2) = onClose E sessionID a tr1 in (True, a1, tr2))
           | (True, tr1) \<Rightarrow>
               (case message_loop E peer sock sessionID [] rs a tr1 of
                  (False, a1, tr2) \<Rightarrow> (False, a1, tr2)
                | (True, a1, tr2) \<Rightarrow> (let (a2, tr3) = onClose E sessionID a1 tr2 in (True, a2, tr3)))))"

section \<open>The handshake\<close>

definition onOpen ::
  "env \<Rightarrow> nat \<Rightarrow> ws_request \<Rightarrow> string \<Rightarrow> application \<Rightarrow> trace \<Rightarrow> websocketError option \<times> application \<times> trace" where
  "onOpen E sock r sessionID a tr =
     (if strings_trim_space (wr_Protocol r) = [] then (Some noProtocolVersionSupplied, a, tr)
      else (case strconv_atoi (wr_Protocol r) of
              None \<Rightarrow> (Some invalidVersionStringFormat, a, tr)
            | Some protocol \<Rightarrow>
                if protocol \<noteq> supportedProtocolVersion then (Some unsupportedProtocolVersion, a, tr)
                else if \<not> app_Enabled a then (Some applicationDisabled, a, tr)
                else if OnlySSL a \<and> \<not> wr_TLS r then (Some applicationOnlyAcceptsSSL, a, tr)
                else let (conn, tr1) = connection_New E sessionID sock tr;
                         (a1, tr2) = app_Connect E conn a tr1
                     in (case connection_Publish E conn (NewConnectionEstablished (SocketID conn)) tr2 of
                           (None, tr3) \<Rightarrow> (None, a1, tr3)
                         | (Some e, tr3) \<Rightarrow>
                             (let (a2, tr4) = app_Disconnect E sessionID a1 tr3
                              in (Some reconnectImmediately, a2, tr4)))))"

definition random_id :: "env \<Rightarrow> trace \<Rightarrow> string \<times> trace" where
  "random_id E tr =
     (let (r1, tr1) = invoke E (RandIntn max_int32) tr; (r2, tr2) = invoke E (RandIntn max_int32) tr1;
          n1 = (case r1 of RInt i \<Rightarrow> i | _ \<Rightarrow> 0); n2 = (case r2 of RInt i \<Rightarrow> i | _ \<Rightarrow> 0)
      in (GenerateSessionID n1 n2, tr2))"

text \<open>
  \<open>ServeHTTP\<close> after the upgrade, which is gorilla's: \<open>None\<close> is a failed upgrade. The socket is closed
  when the handler returns.
\<close>

definition ServeWebsocket ::
  "env \<Rightarrow> nat option \<Rightarrow> ws_request \<Rightarrow> read_result list \<Rightarrow> storage \<Rightarrow> trace \<Rightarrow> bool \<times> storage \<times> trace" where
  "ServeWebsocket E upgraded r rs db tr =
     (case upgraded of
        None \<Rightarrow> (True, db, tr)
      | Some sock \<Rightarrow>
          (case GetAppByKey db (wr_Key r) of
             Inl e \<Rightarrow> (True, db, snd (invoke E (CloseSocket sock) (emitError E applicationDoesNotExists sock tr)))
           | Inr a \<Rightarrow>
               (let (sessionID, tr1) = random_id E tr
                in (case onOpen E sock r sessionID a tr1 of
                      (Some err, a1, tr2) \<Rightarrow>
                        (True, store_by_key (wr_Key r) a1 db, snd (invoke E (CloseSocket sock) (emitError E err sock tr2)))
                    | (None, a1, tr2) \<Rightarrow>
                        (case handleMessages E sock sessionID rs a1 tr2 of
                           (ended, a2, tr3) \<Rightarrow>
                             (ended, store_by_key (wr_Key r) a2 db,
                              if ended then snd (invoke E (CloseSocket sock) tr3) else tr3))))))"

end
