(* ===== verification/Api.thy ===== *)
theory Api
  imports Storage
begin

text \<open>
  \<open>src/api/handlers.go\<close>: the HTTP API. A handler takes the request, the storage and the trace. The
  response writer keeps the first status it is given; \<open>http.Error\<close> sets the content type, the status
  and a line of text; a header set after the status is sent has no effect.
\<close>

record http_request =
  rq_Method :: string
  rq_Path :: string
  rq_AppID :: string
  rq_ChannelName :: string
  rq_Query :: "(string \<times> string list) list"
  rq_Body :: string

record http_response =
  rs_Status :: "int option"
  rs_ContentType :: string
  rs_Body :: string

definition new_response :: http_response where
  "new_response = \<lparr>rs_Status = None, rs_ContentType = [], rs_Body = []\<rparr>"

definition set_content_type :: "string \<Rightarrow> http_response \<Rightarrow> http_response" where
  "set_content_type t w = (if rs_Status w = None then w\<lparr>rs_ContentType := t\<rparr> else w)"

definition write_header :: "int \<Rightarrow> http_response \<Rightarrow> http_response" where
  "write_header code w = (if rs_Status w = None then w\<lparr>rs_Status := Some code\<rparr> else w)"

definition write_body :: "string \<Rightarrow> http_response \<Rightarrow> http_response" where
  "write_body s w = (write_header 200 w)\<lparr>rs_Body := rs_Body w @ s\<rparr>"

definition http_Error :: "string \<Rightarrow> int \<Rightarrow> http_response \<Rightarrow> http_response" where
  "http_Error msg code w =
     write_body (msg @ [CHR 0x0A]) (write_header code (set_content_type ''text/plain; charset=utf-8'' w))"

type_synonym handler = "http_request \<Rightarrow> storage \<Rightarrow> trace \<Rightarrow> http_response \<times> storage \<times> trace"

definition values_get :: "(string \<times> string list) list \<Rightarrow> string \<Rightarrow> string" where
  "values_get q k = (case map_of q k of Some (v # vs) \<Rightarrow> v | _ \<Rightarrow> [])"

definition userCountAttr :: string where "userCountAttr = ''user_count''"

definition presencePrefix :: string where "presencePrefix = ''presence-''"

definition maxDataEventSize :: int where "maxDataEventSize = 10 * 1000"

definition app_not_found :: "string \<Rightarrow> string" where
  "app_not_found appID = ''Could not found an app with app_id: '' @ appID"

section \<open>Middleware\<close>

definition prepareQueryString :: "(string \<times> string list) list \<Rightarrow> string" where
  "prepareQueryString params =
     (let ks = sort (List.map strings_to_lower (keys params))
      in strings_join (List.map (\<lambda>key. key @ ''='' @ values_get params key) ks) ''&'')"

definition request_to_sign :: "http_request \<Rightarrow> string" where
  "request_to_sign r =
     strings_to_upper (rq_Method r) @ [CHR 0x0A] @ rq_Path r @ [CHR 0x0A]
     @ prepareQueryString (AList.delete ''auth_signature'' (rq_Query r))"

definition Authentication :: "handler \<Rightarrow> handler" where
  "Authentication next r db tr =
     (case GetAppByAppID db (rq_AppID r) of
        Inl e \<Rightarrow> (http_Error ''Not authorized'' 401 new_response, db, tr)
      | Inr a \<Rightarrow>
          if HashMAC (request_to_sign r) (app_Secret a) = values_get (rq_Query r) ''auth_signature''
          then next r db tr
          else (http_Error ''Not authorized'' 401 new_response, db, tr))"

definition CheckAppDisabled :: "handler \<Rightarrow> handler" where
  "CheckAppDisabled next r db tr =
     (case GetAppByAppID db (rq_AppID r) of
        Inl e \<Rightarrow> (http_Error (app_not_found (rq_AppID r)) 403 new_response, db, tr)
      | Inr a \<Rightarrow>
          if \<not> app_Enabled a then (http_Error ''Application disabled'' 403 new_response, db, tr)
          else next r db tr)"

section \<open>POST events\<close>

record event_input =
  in_Name :: string
  in_Data :: "string option"
  in_Channels :: "string list"
  in_Channel :: string
  in_SocketID :: string

definition decode_input :: "string \<Rightarrow> event_input option" where
  "decode_input body =
     (case json_first body of None \<Rightarrow> None
      | Some j \<Rightarrow>
          (case struct_members j of None \<Rightarrow> None
           | Some ms \<Rightarrow>
               (case (string_field ''name'' ms [], raw_field ''data'' ms None, slice_field ''channels'' decode_string [] ms,
                      string_field ''channel'' ms [], string_field ''socket_id'' ms []) of
                  (Some n, Some d, Some cs, Some c, Some s) \<Rightarrow>
                    Some \<lparr>in_Name = n, in_Data = d, in_Channels = cs, in_Channel = c, in_SocketID = s\<rparr>
                | _ \<Rightarrow> None)))"

definition input_channels :: "event_input \<Rightarrow> string list" where
  "input_channels i = (if in_Channel i \<noteq> [] \<and> in_Channels i = [] then [in_Channel i] else in_Channels i)"

definition post_step ::
  "env \<Rightarrow> event_input \<Rightarrow> string \<Rightarrow> http_response \<times> application \<times> trace \<Rightarrow> http_response \<times> application \<times> trace" where
  "post_step E i c s =
     (case s of (w, a, tr) \<Rightarrow>
        let (ch, a1, tr1) = FindOrCreateChannelByChannelID E c a tr
        in (case app_Publish E ch \<lparr>raw_Event = in_Name i, raw_Channel = c, raw_Data = in_Data i\<rparr> (in_SocketID i) a1 tr1 of
              (Some e, a2, tr2) \<Rightarrow> (http_Error ''Internal Server Error'' 500 w, a2, tr2)
            | (None, a2, tr2) \<Rightarrow> (w, a2, tr2)))"

definition PostEvents :: "env \<Rightarrow> handler" where
  "PostEvents E r db tr =
     (case GetAppByAppID db (rq_AppID r) of
        Inl e \<Rightarrow> (http_Error (app_not_found (rq_AppID r)) 400 new_response, db, tr)
      | Inr a \<Rightarrow>
          (case decode_input (rq_Body r) of
             None \<Rightarrow> (http_Error ''Bad request'' 400 new_response, db, tr)
           | Some i \<Rightarrow>
               if int (length (case in_Data i of None \<Rightarrow> [] | Some d \<Rightarrow> d)) > maxDataEventSize
               then (http_Error ''Request too large.'' 413 new_response, db, tr)
               else (case fold (post_step E i) (input_channels i) (new_response, a, tr) of
                       (w, a1, tr1) \<Rightarrow>
                         (write_body ''{}'' (write_header 200 (set_content_type ''application/json'' w)),
                          store_by_app_id (rq_AppID r) a1 db, tr1))))"

section \<open>GET channels\<close>

definition encode_response :: "string \<Rightarrow> http_response" where
  "encode_response js = write_body (js @ [CHR 0x0A]) (set_content_type ''application/json'' new_response)"

text \<open>The map from channel id to its attributes, written sorted by id.\<close>

definition channel_map :: "(channel \<Rightarrow> string) \<Rightarrow> channel list \<Rightarrow> (string \<times> string) list" where
  "channel_map attrs cs = fold (\<lambda>c m. kv_insert (chan_ID c) (attrs c) m) cs []"

definition selected_channels :: "string \<Rightarrow> application \<Rightarrow> channel list" where
  "selected_channels flt a =
     (if flt = ''presence-'' then PresenceChannels a
      else if flt = ''public-'' then PublicChannels a
      else if flt = ''private-'' then PrivateChannels a
      else Channels a)"

definition GetChannels :: handler where
  "GetChannels r db tr =
     (let flt = values_get (rq_Query r) ''filter_by_prefix'';
          attributes = strings_split (values_get (rq_Query r) ''info'') (CHR '','');
          requestedUserCount = (userCountAttr \<in> set attributes)
      in if requestedUserCount \<and> flt \<noteq> presencePrefix
         then (http_Error ''Attribute user_count is restricted to presence channels'' 400 new_response, db, tr)
         else (case GetAppByAppID db (rq_AppID r) of
                 Inl e \<Rightarrow> (http_Error (app_not_found (rq_AppID r)) 400 new_response, db, tr)
               | Inr a \<Rightarrow>
                   let attrs = (\<lambda>c. if flt = ''presence-'' \<and> requestedUserCount
                                  then json_object [(''user_count'', int_dec (TotalUsers c))] else ''{}'')
                   in (encode_response (json_object
                         [(''channels'', json_object (channel_map attrs (selected_channels flt a)))]), db, tr)))"

section \<open>GET one channel\<close>

definition omit_zero :: "string \<Rightarrow> int \<Rightarrow> (string \<times> string) list" where
  "omit_zero name n = (if n = 0 then [] else [(name, int_dec n)])"

definition GetChannel :: handler where
  "GetChannel r db tr =
     (let attributes = strings_split (values_get (rq_Query r) ''info'') (CHR '','');
          channelName = rq_ChannelName r
      in (case GetAppByAppID db (rq_AppID r) of
            Inl e \<Rightarrow> (http_Error (app_not_found (rq_AppID r)) 400 new_response, db, tr)
          | Inr a \<Rightarrow>
              if strings_trim_space channelName = []
              then (http_Error ''Empty channel name'' 400 new_response, db, tr)
              else let requestedUserCount = (''user_count'' \<in> set attributes);
                       requestedSubscriptionCount = (''subscription_count'' \<in> set attributes)
              in (case FindChannelByChannelID a channelName of
                    Inl e \<Rightarrow> (http_Error (''Could not find a channel with id '' @ channelName) 400 new_response, db, tr)
                  | Inr c \<Rightarrow>
                      if requestedUserCount \<and> \<not> IsPresence c
                      then (http_Error ''Attribute user_count is restricted to presence channels'' 400 new_response, db, tr)
                      else (encode_response (json_object
                              ([(''occupied'', if IsOccupied c then ''true'' else ''false'')]
                               @ omit_zero ''user_count'' (if requestedUserCount then TotalUsers c else 0)
                               @ omit_zero ''subscription_count'' (if requestedSubscriptionCount then TotalSubscriptions c else 0))),
                            db, tr))))"

section \<open>GET the users of a channel\<close>

definition GetChannelUsers :: handler where
  "GetChannelUsers r db tr =
     (if \<not> IsPresenceChannel (rq_ChannelName r)
      then (http_Error ''This api endpoint is restricted to presence channels.'' 400 new_response, db, tr)
      else (case GetAppByAppID db (rq_AppID r) of
              Inl e \<Rightarrow> (http_Error (app_not_found (rq_AppID r)) 400 new_response, db, tr)
            | Inr a \<Rightarrow>
                (case FindChannelByChannelID a (rq_ChannelName r) of
                   Inl e \<Rightarrow> (http_Error (''Could not find a channel with id '' @ rq_ChannelName r) 400 new_response, db, tr)
                 | Inr c \<Rightarrow>
                     let users = List.map (\<lambda>s. json_object [(''id'', json_quote (sub_ID s))]) (Subscriptions c)
                     in (encode_response (json_object
                           [(''users'', if users = [] then ''null'' else json_array users)]), db, tr))))"

end
