(* ===== verification/Expand.thy ===== *)
theory Expand
  imports Prelude
begin

text \<open>
  \<open>os.ExpandEnv\<close> of the Go library, which \<open>Start\<close> (\<open>src/ipe.go\<close>) applies to the whole text of the
  configuration file: \<open>$name\<close> and \<open>${name}\<close> are replaced by the variable, empty if it is not set, and
  what is put in is not expanded again.
\<close>

definition isShellSpecialVar :: "char \<Rightarrow> bool" where
  "isShellSpecialVar c \<longleftrightarrow> c \<in> set ''*#$@!?-0123456789''"

definition isAlphaNum :: "char \<Rightarrow> bool" where
  "isAlphaNum c \<longleftrightarrow> c = CHR ''_'' \<or> is_digit c \<or> is_lower c \<or> is_upper c"

text \<open>
  The name that follows a dollar and how many bytes it takes, for a text that is not empty. In
  braces the name is what stands before the first closing one.
\<close>

definition brace_name :: "string \<Rightarrow> string \<times> nat" where
  "brace_name s =
     (let name = takeWhile (\<lambda>c. c \<noteq> CHR ''}'') s
      in if CHR ''}'' \<in> set s then (if name = [] then ([], 2) else (name, length name + 2)) else ([], 1))"

definition getShellName :: "string \<Rightarrow> string \<times> nat" where
  "getShellName s =
     (case s of
        [] \<Rightarrow> ([], 0)
      | c # s' \<Rightarrow>
          if c = CHR ''{''
          then (case s' of
                  d # e # s'' \<Rightarrow> if isShellSpecialVar d \<and> e = CHR ''}'' then ([d], 3) else brace_name s'
                | _ \<Rightarrow> brace_name s')
          else if isShellSpecialVar c then ([c], 1)
          else let name = takeWhile isAlphaNum s in (name, length name))"

function os_Expand :: "(string \<Rightarrow> string) \<Rightarrow> string \<Rightarrow> string" where
  "os_Expand mapping [] = []"
| "os_Expand mapping (c # s) =
     (if c = CHR ''$'' \<and> s \<noteq> []
      then (case getShellName s of
              (name, w) \<Rightarrow>
                (if name = [] \<and> w > 0 then [] else if name = [] then [c] else mapping name)
                @ os_Expand mapping (drop w s))
      else c # os_Expand mapping s)"
  by pat_completeness auto
termination by (relation "measure (\<lambda>(mapping, s). length s)") (auto simp: less_Suc_eq_le)

declare os_Expand.simps [simp del]

section \<open>What is expanded\<close>

lemma expand_Nil [simp]: "os_Expand mapping [] = []"
  by (simp add: os_Expand.simps)

lemma expand_other: "c \<noteq> CHR ''$'' \<Longrightarrow> os_Expand mapping (c # s) = c # os_Expand mapping s"
  by (simp add: os_Expand.simps)

lemma expand_plain: "CHR ''$'' \<notin> set s \<Longrightarrow> os_Expand mapping (s @ t) = s @ os_Expand mapping t"
  by (induction s) (auto simp: expand_other)

lemma expand_name: "getShellName (name @ t) = (x, w) \<Longrightarrow> x \<noteq> [] \<Longrightarrow> w \<le> length (name @ t) \<Longrightarrow>
  os_Expand mapping (CHR ''$'' # name @ t) = mapping x @ os_Expand mapping (drop w (name @ t))"
  by (cases "name @ t") (auto simp: os_Expand.simps getShellName_def)

lemma takeWhile_not: "x \<notin> set xs \<Longrightarrow> takeWhile (\<lambda>c. c \<noteq> x) (xs @ x # ys) = xs"
  by (induction xs) auto

lemma braced_name:
  assumes "name \<noteq> []" "CHR ''}'' \<notin> set name"
  shows "getShellName (CHR ''{'' # name @ CHR ''}'' # t) = (name, length name + 2)"
proof -
  have "brace_name (name @ CHR ''}'' # t) = (name, length name + 2)"
    using assms by (simp add: brace_name_def takeWhile_not Let_def)
  moreover obtain d n where n: "name = d # n" using assms(1) by (cases name) auto
  ultimately show ?thesis
    using assms(2) by (cases n) (auto simp: getShellName_def n)
qed

lemma expand_braced:
  assumes "name \<noteq> []" "CHR ''}'' \<notin> set name"
  shows "os_Expand mapping (CHR ''$'' # CHR ''{'' # name @ CHR ''}'' # t) = mapping name @ os_Expand mapping t"
  using braced_name [OF assms, of t] assms(1) by (simp add: os_Expand.simps)

lemma takeWhile_stop: "list_all p xs \<Longrightarrow> t = [] \<or> \<not> p (hd t) \<Longrightarrow> takeWhile p (xs @ t) = xs"
  by (induction xs) (cases t; auto)+

lemma special_not_name: "isShellSpecialVar c \<Longrightarrow> \<not> is_digit c \<Longrightarrow> \<not> isAlphaNum c"
  unfolding isShellSpecialVar_def
  by (simp, elim disjE) (simp_all add: isAlphaNum_def is_digit_def is_lower_def is_upper_def)

lemma brace_not_name: "\<not> isAlphaNum (CHR ''{'')"
  by (simp add: isAlphaNum_def is_digit_def is_lower_def is_upper_def)

lemma expand_bare:
  assumes "name \<noteq> []" "list_all isAlphaNum name" "\<not> is_digit (hd name)" "t = [] \<or> \<not> isAlphaNum (hd t)"
  shows "os_Expand mapping (CHR ''$'' # name @ t) = mapping name @ os_Expand mapping t"
proof -
  obtain c s where n: "name = c # s" using assms(1) by (cases name) auto
  have "isAlphaNum c" "\<not> is_digit c" using assms(2,3) by (simp_all add: n)
  then have c: "c \<noteq> CHR ''{''" "\<not> isShellSpecialVar c" using special_not_name [of c] brace_not_name by auto
  have "getShellName (name @ t) = (name, length name)"
    using takeWhile_stop [OF assms(2,4)] c by (simp add: getShellName_def n Let_def)
  then show ?thesis using assms(1) by (simp add: os_Expand.simps)
qed

text \<open>A template is text without a dollar and references to variables, \<open>${name}\<close>.\<close>

datatype piece = Lit string | Var string

fun piece_ok :: "piece \<Rightarrow> bool" where
  "piece_ok (Lit s) \<longleftrightarrow> CHR ''$'' \<notin> set s"
| "piece_ok (Var n) \<longleftrightarrow> n \<noteq> [] \<and> CHR ''}'' \<notin> set n"

fun piece_text :: "piece \<Rightarrow> string" where
  "piece_text (Lit s) = s"
| "piece_text (Var n) = ''${'' @ n @ ''}''"

fun piece_value :: "(string \<Rightarrow> string) \<Rightarrow> piece \<Rightarrow> string" where
  "piece_value mapping (Lit s) = s"
| "piece_value mapping (Var n) = mapping n"

lemma expand_template:
  "list_all piece_ok ps \<Longrightarrow> os_Expand mapping (concat (List.map piece_text ps)) = concat (List.map (piece_value mapping) ps)"
proof (induction ps)
  case (Cons p ps)
  then show ?case by (cases p) (simp_all add: expand_plain expand_braced)
qed simp

end
