(* ===== verification/Server.thy ===== *)
theory Server
  imports Websockets Api Expand
begin

text \<open>
  \<open>src/config/config.go\<close> and \<open>src/ipe.go\<close>: the configuration, the applications made from it, and the
  routes. What the operating system and the third-party packages answer is given: whether the logger
  could be built, the text of the file (\<open>None\<close> if it cannot be read), the environment variables, and the
  decoder of YAML.
\<close>

record config_webhooks =
  cw_Enabled :: bool
  cw_URL :: string

record config_ssl =
  cs_Enabled :: bool
  cs_Host :: string
  cs_KeyFile :: string
  cs_CertFile :: string

record config_application =
  ca_Name :: string
  ca_AppID :: string
  ca_Key :: string
  ca_Secret :: string
  ca_OnlySSL :: bool
  ca_Enabled :: bool
  ca_UserEvents :: bool
  ca_WebHooks :: config_webhooks

record config_file =
  cf_Host :: string
  cf_SSL :: config_ssl
  cf_Profiling :: bool
  cf_Apps :: "config_application list"

text \<open>The applications of the configuration, in order; \<open>None\<close> is the panic of a repeated name.\<close>

fun add_apps :: "redis_client \<Rightarrow> config_application list \<Rightarrow> string list \<Rightarrow> storage \<Rightarrow> storage option" where
  "add_apps rc [] published db = Some db"
| "add_apps rc (c # cs) published db =
     (case NewApplication published (ca_Name c) (ca_AppID c) (ca_Key c) (ca_Secret c) (ca_OnlySSL c)
             (ca_Enabled c) (ca_UserEvents c) (cw_Enabled (ca_WebHooks c)) (cw_URL (ca_WebHooks c)) (Some rc) of
        None \<Rightarrow> None
      | Some (a, published') \<Rightarrow> add_apps rc cs published' (AddApp a db))"

text \<open>
  \<open>Start\<close> returns after logging a message, panics, or serves: over HTTPS too (address, certificate and
  key file) if the configuration enables it. \<open>AddApp\<close> never fails.
\<close>

record server =
  srv_Storage :: storage
  srv_HTTPS :: "(string \<times> string \<times> string) option"
  srv_HTTP :: string

datatype start_result = StartReturned string | StartPanic | Serving server

definition Start ::
  "env \<Rightarrow> (string \<Rightarrow> string) \<Rightarrow> (string \<Rightarrow> config_file option) \<Rightarrow> bool \<Rightarrow> string option \<Rightarrow> trace \<Rightarrow> start_result \<times> trace" where
  "Start E vars yaml logger_ok file tr =
     (if \<not> logger_ok then (StartPanic, tr)
      else (case file of
         None \<Rightarrow> (StartReturned ''Failed to read config file'', tr)
       | Some data \<Rightarrow>
           (case yaml (os_Expand vars data) of
              None \<Rightarrow> (StartReturned ''Failed to parse config file'', tr)
            | Some conf \<Rightarrow>
                (case redis_NewClient E vars tr of
                   (Inl e, tr1) \<Rightarrow> (StartReturned ''Failed to initialize Redis client'', tr1)
                 | (Inr rc, tr1) \<Rightarrow>
                     (case add_apps rc (cf_Apps conf) [] NewInMemory of
                        None \<Rightarrow> (StartPanic, tr1)
                      | Some db \<Rightarrow>
                          (Serving \<lparr>srv_Storage = db,
                             srv_HTTPS = (if cs_Enabled (cf_SSL conf)
                               then Some (cs_Host (cf_SSL conf), cs_CertFile (cf_SSL conf), cs_KeyFile (cf_SSL conf)) else None),
                             srv_HTTP = cf_Host conf\<rparr>, tr1))))))"

text \<open>The routes under \<open>/apps/{app_id}\<close>: every one behind both middlewares, in this order.\<close>

datatype route = RouteEvents | RouteChannels | RouteChannel | RouteChannelUsers

fun route_handler :: "env \<Rightarrow> route \<Rightarrow> handler" where
  "route_handler E RouteEvents = PostEvents E"
| "route_handler E RouteChannels = GetChannels"
| "route_handler E RouteChannel = GetChannel"
| "route_handler E RouteChannelUsers = GetChannelUsers"

definition serve_api :: "env \<Rightarrow> route \<Rightarrow> handler" where
  "serve_api E rt = CheckAppDisabled (Authentication (route_handler E rt))"

end
