(* ===== verification/App_Inv.thy ===== *)
theory App_Inv
  imports App
begin

text \<open>
  The invariant of an application and that every operation keeps it; what the operations do to the
  subscription relation, the abstract state the rest of the server relies on.
\<close>

section \<open>Calls to Redis and web hooks write to no socket\<close>

lemma invoke_obs:
  "written h (snd (invoke E c tr)) = written h tr @ frame_of h (c, E tr c)"
  "attempts (snd (invoke E c tr)) = attempts tr @ armed_of (c, E tr c)"
  "publications (snd (invoke E c tr)) = publications tr @ publication_of (c, E tr c)"
  by (simp_all add: invoke_def Let_def obs_simps)

lemmas call_defs = invoke_def time_now_def Let_def written_simps attempts_simps publications_simps

lemma redis_quiet:
  "quiet (\<lambda>tr. snd (RegisterConnection E rc x y tr))"
  "quiet (\<lambda>tr. snd (UnregisterConnection E rc x y tr))"
  "quiet (\<lambda>tr. snd (GetConnectionInstance E rc x y tr))"
  "quiet (\<lambda>tr. snd (SubscribeToChannel E rc x y z d tr))"
  "quiet (\<lambda>tr. snd (UnsubscribeFromChannel E rc x y z tr))"
  "quiet (\<lambda>tr. snd (GetChannelSubscriptions E rc x y tr))"
  "quiet (\<lambda>tr. snd (SubscribeToChannelEvents E rc x y tr))"
  "quiet (\<lambda>tr. snd (StorePresenceData E rc x y z u i tr))"
  "quiet (\<lambda>tr. snd (RemovePresenceData E rc x y z tr))"
  by (simp_all add: quiet_def call_defs RegisterConnection_def UnregisterConnection_def GetConnectionInstance_def
      SubscribeToChannel_def UnsubscribeFromChannel_def GetChannelSubscriptions_def SubscribeToChannelEvents_def
      StorePresenceData_def RemovePresenceData_def split: reply.split option.split)

lemmas redis_quiet_simps = redis_quiet [THEN quietD(1)] redis_quiet [THEN quietD(2)] redis_quiet [THEN quietD(3)]

lemma triggerHook_quiet: "quiet (\<lambda>tr. snd (triggerHook E a e tr))"
  by (simp add: quiet_def call_defs triggerHook_def split: reply.split)

lemma trigger_hooks_quiet:
  "quiet (TriggerChannelOccupiedHook E a cid)"
  "quiet (TriggerChannelVacatedHook E a cid)"
  "quiet (TriggerMemberAddedHook E a cid s)"
  "quiet (TriggerMemberRemovedHook E a cid s)"
  "quiet (TriggerClientEventHook E a cid s e v)"
  using triggerHook_quiet [of E a]
  by (simp_all add: quiet_def TriggerChannelOccupiedHook_def TriggerChannelVacatedHook_def
      TriggerMemberAddedHook_def TriggerMemberRemovedHook_def TriggerClientEventHook_def Let_def)

text \<open>A new channel of an application is empty, well-formed and carries the application's hooks.\<close>

lemma new_app_channel:
  assumes "channel_New E n (app_options E a) tr = (c, tr1)"
  shows "chan_ID c = n" "subscriptions c = []" "chan_wf c"
    "memberAddedListeners c = [TriggerMemberAddedHook E a]"
    "memberRemovedListeners c = [TriggerMemberRemovedHook E a]"
    "channelOccupiedListeners c = [\<lambda>cid s. TriggerChannelOccupiedHook E a cid]"
    "channelVacatedListeners c = [\<lambda>cid s. TriggerChannelVacatedHook E a cid]"
    "clientEventListeners c = [TriggerClientEventHook E a]"
proof -
  have c: "c = fold (\<lambda>option. option) (app_options E a)
      \<lparr>chan_ID = n, subscriptions = [], createdAt = fst (time_now E tr), memberAddedListeners = [],
       memberRemovedListeners = [], channelOccupiedListeners = [], channelVacatedListeners = [],
       clientEventListeners = []\<rparr>"
    using assms by (auto simp: channel_New_def Let_def split: prod.splits)
  note opts = app_options_def WithChannelOccupiedListener_def WithChannelVacatedListener_def
    WithMemberAddedListener_def WithMemberRemovedListener_def WithClientEventListener_def
  show "chan_ID c = n" "subscriptions c = []"
    "memberAddedListeners c = [TriggerMemberAddedHook E a]"
    "memberRemovedListeners c = [TriggerMemberRemovedHook E a]"
    "channelOccupiedListeners c = [\<lambda>cid s. TriggerChannelOccupiedHook E a cid]"
    "channelVacatedListeners c = [\<lambda>cid s. TriggerChannelVacatedHook E a cid]"
    "clientEventListeners c = [TriggerClientEventHook E a]"
    by (simp_all add: c opts)
  then show "chan_wf c"
    by (simp add: chan_wf_def listeners_quiet_def trigger_hooks_quiet)
qed

section \<open>The invariant\<close>

definition maps_ok :: "application \<Rightarrow> bool" where
  "maps_ok a \<longleftrightarrow> distinct (keys (channels a)) \<and> distinct (keys (connections a))
     \<and> (\<forall>(k, c) \<in> set (channels a). chan_ID c = k \<and> chan_wf c)
     \<and> (\<forall>(k, conn) \<in> set (connections a). SocketID conn = k)
     \<and> distinct (List.map (\<lambda>kc. Socket (snd kc)) (connections a))"

text \<open>Every subscription belongs to a live connection of the application.\<close>

definition subs_ok :: "application \<Rightarrow> bool" where
  "subs_ok a \<longleftrightarrow> (\<forall>(k, c) \<in> set (channels a). \<forall>(sid, s) \<in> set (subscriptions c).
     map_of (connections a) sid = Some (sub_Connection s))"

definition count_keys :: "(string \<Rightarrow> bool) \<Rightarrow> application \<Rightarrow> int" where
  "count_keys p a = int (length (List.filter p (keys (channels a))))"

definition public_name :: "string \<Rightarrow> bool" where
  "public_name n \<longleftrightarrow> \<not> IsPresenceChannel n \<and> \<not> IsPrivateChannel n"

definition stats_ok :: "application \<Rightarrow> bool" where
  "stats_ok a \<longleftrightarrow> Stats a ''TotalConnections'' = int (length (connections a))
     \<and> Stats a ''TotalChannels'' = int (length (channels a))
     \<and> Stats a ''TotalPresenceChannels'' = count_keys IsPresenceChannel a
     \<and> Stats a ''TotalPrivateChannels'' = count_keys IsPrivateChannel a
     \<and> Stats a ''TotalPublicChannels'' = count_keys public_name a"

definition subscribers_ok :: "application \<Rightarrow> bool" where
  "subscribers_ok a \<longleftrightarrow> distinct (channelSubscribers a)
     \<and> set (channelSubscribers a) \<subseteq> set (keys (channels a))
     \<and> (redisClient a = None \<longrightarrow> channelSubscribers a = [])"

definition app_wf :: "application \<Rightarrow> bool" where
  "app_wf a \<longleftrightarrow> maps_ok a \<and> subs_ok a \<and> stats_ok a \<and> subscribers_ok a"

lemmas app_wf_defs = app_wf_def maps_ok_def subs_ok_def stats_ok_def subscribers_ok_def

text \<open>The abstract state: who is connected, and who is subscribed to what.\<close>

definition live :: "application \<Rightarrow> string set" where
  "live a = set (keys (connections a))"

definition subs_rel :: "application \<Rightarrow> (string \<times> string) set" where
  "subs_rel a = {(cid, sid). \<exists>c. map_of (channels a) cid = Some c \<and> sid \<in> set (keys (subscriptions c))}"

lemma app_wf_channel:
  assumes "app_wf a" "map_of (channels a) cid = Some c"
  shows "chan_ID c = cid" "chan_wf c"
    "\<And>sid s. (sid, s) \<in> set (subscriptions c) \<Longrightarrow> map_of (connections a) sid = Some (sub_Connection s)"
  using assms by (auto simp: app_wf_defs dest!: map_of_SomeD)

lemma app_wf_connection:
  assumes "app_wf a" "map_of (connections a) sid = Some conn"
  shows "SocketID conn = sid"
  using assms by (auto simp: app_wf_defs dest!: map_of_SomeD)

lemma app_wf_empty: "app_wf (empty_application n i k s o1 en u w url rc)"
  by (simp add: app_wf_defs empty_application_def count_keys_def)

lemma subs_live: "app_wf a \<Longrightarrow> (cid, sid) \<in> subs_rel a \<Longrightarrow> sid \<in> live a"
proof -
  assume wf: "app_wf a" and m: "(cid, sid) \<in> subs_rel a"
  then obtain c s where c: "map_of (channels a) cid = Some c" "map_of (subscriptions c) sid = Some s"
    by (auto simp: subs_rel_def dest: in_keysD)
  have "map_of (connections a) sid = Some (sub_Connection s)"
    using app_wf_channel(3) [OF wf c(1)] c(2) by (auto dest: map_of_SomeD)
  then show ?thesis by (auto simp: live_def dest: map_of_some_keys)
qed

section \<open>Counters\<close>

lemma count_channel_fields [simp]:
  "channels (count_channel c d a) = channels a" "connections (count_channel c d a) = connections a"
  "redisClient (count_channel c d a) = redisClient a" "channelSubscribers (count_channel c d a) = channelSubscribers a"
  "pubsubListeners (count_channel c d a) = pubsubListeners a" "AppID (count_channel c d a) = AppID a"
  by (simp_all add: count_channel_def stats_Add_def Let_def)

lemma count_channel_stats:
  "Stats (count_channel c d a) ''TotalConnections'' = Stats a ''TotalConnections''"
  "Stats (count_channel c d a) ''TotalChannels'' = Stats a ''TotalChannels'' + d"
  "Stats (count_channel c d a) ''TotalPresenceChannels'' =
     Stats a ''TotalPresenceChannels'' + (if IsPresenceChannel (chan_ID c) then d else 0)"
  "Stats (count_channel c d a) ''TotalPrivateChannels'' =
     Stats a ''TotalPrivateChannels'' + (if IsPrivateChannel (chan_ID c) then d else 0)"
  "Stats (count_channel c d a) ''TotalPublicChannels'' =
     Stats a ''TotalPublicChannels'' + (if public_name (chan_ID c) then d else 0)"
  by (simp_all add: count_channel_def stats_Add_def Let_def IsPresence_def IsPrivate_def IsPublic_def
      IsPresenceOrPrivate_def public_name_def)

lemma stats_Add_fields [simp]:
  "channels (stats_Add n d a) = channels a" "connections (stats_Add n d a) = connections a"
  "redisClient (stats_Add n d a) = redisClient a" "channelSubscribers (stats_Add n d a) = channelSubscribers a"
  "pubsubListeners (stats_Add n d a) = pubsubListeners a" "AppID (stats_Add n d a) = AppID a"
  by (simp_all add: stats_Add_def)

lemma filter_remove_length:
  "distinct ks \<Longrightarrow> k \<in> set ks \<Longrightarrow>
   int (length (List.filter p (List.filter (\<lambda>x. x \<noteq> k) ks))) = int (length (List.filter p ks)) - (if p k then 1 else 0)"
proof (induction ks)
  case (Cons x ks)
  show ?case
  proof (cases "x = k")
    case True
    then have "List.filter (\<lambda>y. y \<noteq> k) ks = ks" using Cons.prems by (auto simp: filter_id_conv)
    with True show ?thesis by simp
  next
    case False
    with Cons show ?thesis by auto
  qed
qed simp

section \<open>Storing, adding and removing channels\<close>

lemma store_channel_fields [simp]:
  "connections (store_channel c a) = connections a" "Stats (store_channel c a) = Stats a"
  "redisClient (store_channel c a) = redisClient a" "channelSubscribers (store_channel c a) = channelSubscribers a"
  "pubsubListeners (store_channel c a) = pubsubListeners a" "AppID (store_channel c a) = AppID a"
  by (simp_all add: store_channel_def)

lemma store_channel_map:
  "map_of (channels a) (chan_ID c) \<noteq> None \<Longrightarrow>
   channels (store_channel c a) = AList.update (chan_ID c) c (channels a)"
  by (auto simp: store_channel_def)

lemma store_channel_keys [simp]: "keys (channels (store_channel c a)) = keys (channels a)"
  by (auto simp: store_channel_def keys_update_present dest: map_of_some_keys)

lemma store_channel_wf:
  assumes wf: "app_wf a" and "map_of (channels a) (chan_ID c) \<noteq> None" and "chan_wf c"
    and subs: "\<And>sid s. (sid, s) \<in> set (subscriptions c) \<Longrightarrow> map_of (connections a) sid = Some (sub_Connection s)"
  shows "app_wf (store_channel c a)"
proof -
  have set: "set (channels (store_channel c a)) = insert (chan_ID c, c) {(k, v) \<in> set (channels a). k \<noteq> chan_ID c}"
    using assms by (simp add: store_channel_map set_update_distinct app_wf_defs)
  have len: "length (channels (store_channel c a)) = length (channels a)"
    using store_channel_keys [of c a] by (metis keys_def length_map)
  show ?thesis
    using wf \<open>chan_wf c\<close> subs by (auto simp: app_wf_defs set len count_keys_def)
qed

lemma store_channel_rel:
  assumes "map_of (channels a) (chan_ID c) \<noteq> None"
  shows "subs_rel (store_channel c a) =
    {(cid, sid) \<in> subs_rel a. cid \<noteq> chan_ID c} \<union> {chan_ID c} \<times> set (keys (subscriptions c))"
  using assms by (auto simp: subs_rel_def store_channel_map map_of_update split: if_splits)

lemma setupChannelPubSub_fields:
  assumes "setupChannelPubSub E rc cid a tr = (a', tr')"
  shows "channels a' = channels a" "connections a' = connections a" "Stats a' = Stats a" "redisClient a' = redisClient a"
    "AppID a' = AppID a"
    "channelSubscribers a' = channelSubscribers a \<or> (cid \<notin> set (channelSubscribers a) \<and> channelSubscribers a' = cid # channelSubscribers a)"
  using assms by (auto simp: setupChannelPubSub_def split: if_splits prod.splits option.splits)

lemma AddChannel_result:
  assumes "AddChannel E c a tr = (a', tr')" "map_of (channels a) (chan_ID c) = None"
  shows "channels a' = channels a @ [(chan_ID c, c)]" "connections a' = connections a" "redisClient a' = redisClient a"
    "AppID a' = AppID a"
    "Stats a' = Stats (count_channel c 1 a)"
    "channelSubscribers a' = channelSubscribers a
      \<or> (redisClient a \<noteq> None \<and> chan_ID c \<notin> set (channelSubscribers a) \<and> channelSubscribers a' = chan_ID c # channelSubscribers a)"
proof -
  let ?a1 = "a\<lparr>channels := AList.update (chan_ID c) c (channels a)\<rparr>"
  obtain a2 tr1 where a2: "(case redisClient ?a1 of Some rc \<Rightarrow> setupChannelPubSub E rc (chan_ID c) ?a1 tr | None \<Rightarrow> (?a1, tr)) = (a2, tr1)"
    by fastforce
  have f: "channels a2 = channels ?a1" "connections a2 = connections a" "Stats a2 = Stats a" "redisClient a2 = redisClient a"
    "AppID a2 = AppID a"
    "channelSubscribers a2 = channelSubscribers a
      \<or> (redisClient a \<noteq> None \<and> chan_ID c \<notin> set (channelSubscribers a) \<and> channelSubscribers a2 = chan_ID c # channelSubscribers a)"
    using a2 by (cases "redisClient a"; auto dest: setupChannelPubSub_fields)+
  have a': "a' = count_channel c 1 a2" using assms(1) a2 by (simp add: AddChannel_def Let_def)
  show "channels a' = channels a @ [(chan_ID c, c)]" "connections a' = connections a" "redisClient a' = redisClient a"
    "AppID a' = AppID a"
    using f assms(2) by (simp_all add: a' update_fresh map_of_None_keys)
  show "Stats a' = Stats (count_channel c 1 a)"
    using f(3) by (simp add: a' count_channel_def stats_Add_def Let_def)
  show "channelSubscribers a' = channelSubscribers a
      \<or> (redisClient a \<noteq> None \<and> chan_ID c \<notin> set (channelSubscribers a) \<and> channelSubscribers a' = chan_ID c # channelSubscribers a)"
    using f(6) by (simp add: a')
qed

lemma AddChannel_wf:
  assumes wf: "app_wf a" and add: "AddChannel E c a tr = (a', tr')" and fresh: "map_of (channels a) (chan_ID c) = None"
    and c: "chan_wf c" "subscriptions c = []"
  shows "app_wf a'"
proof -
  note r = AddChannel_result [OF add fresh]
  have "chan_ID c \<notin> set (keys (channels a))" using fresh by (simp add: map_of_None_keys)
  then show ?thesis
    using wf c r(6) by (auto simp: app_wf_defs r(1-5) count_keys_def count_channel_stats)
qed

lemma RemoveChannel_fields [simp]:
  "channels (RemoveChannel c a) = AList.delete (chan_ID c) (channels a)" "connections (RemoveChannel c a) = connections a"
  "redisClient (RemoveChannel c a) = redisClient a" "pubsubListeners (RemoveChannel c a) = pubsubListeners a"
  "AppID (RemoveChannel c a) = AppID a"
  by (simp_all add: RemoveChannel_def Let_def)

lemma RemoveChannel_stats:
  "Stats (RemoveChannel c a) = Stats (count_channel c (-1) a)"
  by (simp add: RemoveChannel_def Let_def count_channel_def stats_Add_def)

lemma RemoveChannel_wf:
  assumes wf: "app_wf a" and "chan_ID c \<in> set (keys (channels a))"
  shows "app_wf (RemoveChannel c a)"
proof -
  have sub: "channelSubscribers (RemoveChannel c a) =
      (if redisClient a \<noteq> None then removeAll (chan_ID c) (channelSubscribers a) else channelSubscribers a)"
    by (simp add: RemoveChannel_def Let_def)
  have len: "int (length (AList.delete (chan_ID c) (channels a))) = int (length (channels a)) - 1"
  proof -
    have "distinct (keys (channels a))" "channels a \<noteq> []" using assms by (auto simp: app_wf_defs keys_def)
    then show ?thesis using assms(2) by (simp add: length_delete of_nat_diff Suc_le_eq)
  qed
  have d: "distinct (keys (channels a))" using wf by (simp add: app_wf_defs)
  have ks: "count_keys p (RemoveChannel c a) = count_keys p a - (if p (chan_ID c) then 1 else 0)" for p
    using filter_remove_length [OF d assms(2), of p] by (simp add: count_keys_def keys_delete removeAll_filter_not_eq eq_commute)
  have "stats_ok (RemoveChannel c a)"
    using wf by (simp add: app_wf_def stats_ok_def RemoveChannel_stats count_channel_stats ks len)
  moreover have "subscribers_ok (RemoveChannel c a)"
    using wf by (auto simp: app_wf_def subscribers_ok_def sub keys_delete distinct_removeAll)
  moreover have "maps_ok (RemoveChannel c a)"
    using wf d by (auto simp: app_wf_def maps_ok_def set_delete distinct_keys_delete)
  moreover have "subs_ok (RemoveChannel c a)"
    using wf by (auto simp: app_wf_def subs_ok_def set_delete)
  ultimately show ?thesis by (simp add: app_wf_def)
qed

lemma RemoveChannel_rel:
  "subs_rel (RemoveChannel c a) = {(cid, sid) \<in> subs_rel a. cid \<noteq> chan_ID c}"
  by (auto simp: subs_rel_def map_of_delete split: if_splits)

end
