(* ===== verification/App_Ops.thy ===== *)
theory App_Ops
  imports App_Inv
begin

text \<open>
  The operations of an application keep its invariant, and what each does to the two relations that
  matter to its clients: who is connected (\<open>live\<close>) and who is subscribed to what (\<open>subs_rel\<close>).
\<close>

section \<open>Finding and creating channels\<close>

lemma FindOrCreate_found:
  assumes "map_of (channels a) n = Some c"
  shows "FindOrCreateChannelByChannelID E n a tr = (c, a, tr)"
  using assms by (simp add: FindOrCreateChannelByChannelID_def FindChannelByChannelID_def)

lemma FindOrCreate_result:
  assumes wf: "app_wf a" and r: "FindOrCreateChannelByChannelID E n a tr = (c, a', tr')"
  shows "app_wf a'" "map_of (channels a') n = Some c" "chan_ID c = n" "connections a' = connections a"
    "subs_rel a' = subs_rel a" "redisClient a' = redisClient a" "AppID a' = AppID a"
proof -
  have "app_wf a' \<and> map_of (channels a') n = Some c \<and> chan_ID c = n \<and> connections a' = connections a
    \<and> subs_rel a' = subs_rel a \<and> redisClient a' = redisClient a \<and> AppID a' = AppID a"
  proof (cases "map_of (channels a) n")
    case None
    then obtain tr1 where n: "channel_New E n (app_options E a) tr = (c, tr1)"
      and add: "AddChannel E c a tr1 = (a', tr')"
      using r by (auto simp: FindOrCreateChannelByChannelID_def FindChannelByChannelID_def split: prod.splits)
    note new = new_app_channel [OF n]
    have fresh: "map_of (channels a) (chan_ID c) = None" using None new(1) by simp
    note res = AddChannel_result [OF add fresh]
    have m: "map_of (channels a') k = (if k = n then Some c else map_of (channels a) k)" for k
      using None by (auto simp: res(1) new(1) map_add_def split: option.split)
    have "keys (subscriptions c) = []" by (simp add: new(2) keys_def)
    then have rel: "subs_rel a' = subs_rel a"
      using None by (auto simp: subs_rel_def m split: if_splits)
    show ?thesis
      using AddChannel_wf [OF wf add fresh new(3,2)] m new(1) rel by (simp add: res)
  next
    case (Some c0)
    then have "c0 = c" "a' = a" using r by (auto simp: FindOrCreate_found)
    with Some wf show ?thesis using app_wf_channel(1) [OF wf Some] by simp
  qed
  then show "app_wf a'" "map_of (channels a') n = Some c" "chan_ID c = n" "connections a' = connections a"
    "subs_rel a' = subs_rel a" "redisClient a' = redisClient a" "AppID a' = AppID a" by blast+
qed

section \<open>Connecting\<close>

lemma app_Connect_fields:
  "connections (fst (app_Connect E conn a tr)) = AList.update (SocketID conn) conn (connections a)"
  "channels (fst (app_Connect E conn a tr)) = channels a"
  "redisClient (fst (app_Connect E conn a tr)) = redisClient a"
  "channelSubscribers (fst (app_Connect E conn a tr)) = channelSubscribers a"
  "AppID (fst (app_Connect E conn a tr)) = AppID a"
  "Stats (fst (app_Connect E conn a tr)) = Stats (stats_Add ''TotalConnections'' 1 a)"
  by (simp_all add: app_Connect_def Let_def stats_Add_def)

definition fresh_connection :: "connection \<Rightarrow> application \<Rightarrow> bool" where
  "fresh_connection conn a \<longleftrightarrow>
     SocketID conn \<notin> live a \<and> Socket conn \<notin> (\<lambda>kc. Socket (snd kc)) ` set (connections a)"

lemma app_Connect_wf [wf_intros]:
  assumes wf: "app_wf a" and fresh: "fresh_connection conn a"
  shows "app_wf (fst (app_Connect E conn a tr))"
proof -
  let ?a = "fst (app_Connect E conn a tr)"
  have new: "map_of (connections a) (SocketID conn) = None"
    using fresh by (auto simp: fresh_connection_def live_def dest: map_of_some_keys)
  then have c: "connections ?a = connections a @ [(SocketID conn, conn)]"
    by (simp add: app_Connect_fields update_fresh map_of_None_keys)
  have "maps_ok ?a"
    using wf fresh by (auto simp: app_wf_def maps_ok_def c app_Connect_fields(2) fresh_connection_def live_def)
  moreover have "subs_ok ?a"
  proof -
    have "sid \<noteq> SocketID conn" if "map_of (connections a) sid = Some x" for sid x using that new by auto
    then show ?thesis
      using wf by (fastforce simp: app_wf_def subs_ok_def app_Connect_fields map_of_update)
  qed
  moreover have "stats_ok ?a"
    using wf by (simp add: app_wf_def stats_ok_def c app_Connect_fields(2,6) stats_Add_def count_keys_def)
  moreover have "subscribers_ok ?a"
    using wf by (simp add: app_wf_def subscribers_ok_def app_Connect_fields)
  ultimately show ?thesis by (simp add: app_wf_def)
qed

lemma app_Connect_rel:
  "live (fst (app_Connect E conn a tr)) = insert (SocketID conn) (live a)"
  "subs_rel (fst (app_Connect E conn a tr)) = subs_rel a"
  by (simp_all add: live_def subs_rel_def app_Connect_fields keys_update)

section \<open>Subscribing\<close>

lemma app_Subscribe_app:
  "fst (snd (app_Subscribe E c conn data a tr)) = store_channel (fst (snd (channel_Subscribe E c conn data tr))) a"
  by (simp add: app_Subscribe_def Let_def split: prod.split option.split)

lemma app_Subscribe_wf [wf_intros]:
  assumes wf: "app_wf a" and c: "map_of (channels a) (chan_ID c) = Some c"
    and conn: "map_of (connections a) (SocketID conn) = Some conn"
  shows "app_wf (fst (snd (app_Subscribe E c conn data a tr)))"
proof -
  let ?c1 = "fst (snd (channel_Subscribe E c conn data tr))"
  have cw: "chan_wf c" using app_wf_channel(2) [OF wf c] .
  then have d: "distinct (keys (subscriptions c))" by (simp add: chan_wf_def)
  have "map_of (connections a) sid = Some (sub_Connection s)" if m: "(sid, s) \<in> set (subscriptions ?c1)" for sid s
    using channel_Subscribe_members [OF d m] app_wf_channel(3) [OF wf c, of sid s] conn by auto
  then show ?thesis
    unfolding app_Subscribe_app using wf c cw
    by (intro store_channel_wf) (simp_all add: frame_simps wf_intros)
qed

lemma app_Subscribe_rel:
  assumes c: "map_of (channels a) (chan_ID c) = Some c"
  shows "subs_rel (fst (snd (app_Subscribe E c conn data a tr))) = insert (chan_ID c, SocketID conn) (subs_rel a)"
    "connections (fst (snd (app_Subscribe E c conn data a tr))) = connections a"
proof -
  have "map_of (channels a) (chan_ID (fst (snd (channel_Subscribe E c conn data tr)))) \<noteq> None"
    using c by (simp add: frame_simps)
  from store_channel_rel [OF this]
  show "subs_rel (fst (snd (app_Subscribe E c conn data a tr))) = insert (chan_ID c, SocketID conn) (subs_rel a)"
    using c by (auto simp: app_Subscribe_app frame_simps channel_Subscribe_keys subs_rel_def)
qed (simp add: app_Subscribe_app)

section \<open>Unsubscribing\<close>

lemma app_Unsubscribe_app:
  assumes "r = channel_Unsubscribe E c conn tr"
  shows "fst (snd (app_Unsubscribe E c conn a tr)) =
    (if fst r = None \<and> \<not> IsOccupied (fst (snd r)) then RemoveChannel (fst (snd r)) (store_channel (fst (snd r)) a)
     else store_channel (fst (snd r)) a)"
  by (simp add: app_Unsubscribe_def assms Let_def split: prod.split option.split)

lemma app_Unsubscribe_wf [wf_intros]:
  assumes wf: "app_wf a" and c: "map_of (channels a) (chan_ID c) = Some c"
  shows "app_wf (fst (snd (app_Unsubscribe E c conn a tr)))"
proof -
  let ?c1 = "fst (snd (channel_Unsubscribe E c conn tr))"
  have "map_of (connections a) sid = Some (sub_Connection s)" if m: "(sid, s) \<in> set (subscriptions ?c1)" for sid s
    using app_wf_channel(3) [OF wf c, of sid s] m by (auto simp: channel_Unsubscribe_subs set_delete)
  then have st: "app_wf (store_channel ?c1 a)"
    using wf c app_wf_channel(2) [OF wf c] by (intro store_channel_wf) (simp_all add: frame_simps wf_intros)
  have "chan_ID ?c1 \<in> set (keys (channels (store_channel ?c1 a)))"
    using c by (auto simp: frame_simps dest: map_of_some_keys)
  with st show ?thesis
    by (simp add: app_Unsubscribe_app [OF refl] RemoveChannel_wf)
qed

lemma app_Unsubscribe_rel:
  assumes wf: "app_wf a" and c: "map_of (channels a) (chan_ID c) = Some c"
  shows "subs_rel (fst (snd (app_Unsubscribe E c conn a tr))) = subs_rel a - {(chan_ID c, SocketID conn)}"
    "connections (fst (snd (app_Unsubscribe E c conn a tr))) = connections a"
proof -
  let ?c1 = "fst (snd (channel_Unsubscribe E c conn tr))"
  have "map_of (channels a) (chan_ID ?c1) \<noteq> None" using c by (simp add: frame_simps)
  from store_channel_rel [OF this]
  have "subs_rel (store_channel ?c1 a) = subs_rel a - {(chan_ID c, SocketID conn)}"
    using c by (auto simp: frame_simps channel_Unsubscribe_subs keys_delete subs_rel_def)
  moreover have "subscriptions ?c1 = []" if "\<not> IsOccupied ?c1"
    using that by (simp add: IsOccupied_def TotalSubscriptions_def)
  moreover have "subs_rel (RemoveChannel ?c1 (store_channel ?c1 a)) = subs_rel (store_channel ?c1 a)"
    if "subscriptions ?c1 = []"
    using that store_channel_rel [OF \<open>map_of (channels a) (chan_ID ?c1) \<noteq> None\<close>]
    by (auto simp: RemoveChannel_rel keys_def)
  ultimately show "subs_rel (fst (snd (app_Unsubscribe E c conn a tr))) = subs_rel a - {(chan_ID c, SocketID conn)}"
    by (simp add: app_Unsubscribe_app [OF refl])
qed (simp add: app_Unsubscribe_app [OF refl])

section \<open>Disconnecting\<close>

lemma disconnect_step_effect:
  assumes wf: "app_wf (fst s)"
  shows "app_wf (fst (disconnect_step E conn cid s))"
    "subs_rel (fst (disconnect_step E conn cid s)) = subs_rel (fst s) - {(cid, SocketID conn)}"
    "connections (fst (disconnect_step E conn cid s)) = connections (fst s)"
proof -
  have "app_wf (fst (disconnect_step E conn cid s))
    \<and> subs_rel (fst (disconnect_step E conn cid s)) = subs_rel (fst s) - {(cid, SocketID conn)}
    \<and> connections (fst (disconnect_step E conn cid s)) = connections (fst s)"
  proof (cases "map_of (channels (fst s)) cid")
    case None
    then show ?thesis using wf by (auto simp: disconnect_step_def subs_rel_def)
  next
    case (Some c)
    have c: "map_of (channels (fst s)) (chan_ID c) = Some c" "chan_ID c = cid"
      using Some app_wf_channel(1) [OF wf Some] by simp_all
    show ?thesis
    proof (cases "IsSubscribed c conn")
      case True
      then show ?thesis
        using Some c app_Unsubscribe_wf [OF wf c(1), of E conn "snd s"] app_Unsubscribe_rel [OF wf c(1), of E conn "snd s"]
        by (simp add: disconnect_step_def)
    next
      case False
      then have "SocketID conn \<notin> set (keys (subscriptions c))"
        by (auto simp: IsSubscribed_def dest: in_keysD)
      with False Some wf show ?thesis by (auto simp: disconnect_step_def subs_rel_def)
    qed
  qed
  then show "app_wf (fst (disconnect_step E conn cid s))"
    "subs_rel (fst (disconnect_step E conn cid s)) = subs_rel (fst s) - {(cid, SocketID conn)}"
    "connections (fst (disconnect_step E conn cid s)) = connections (fst s)" by blast+
qed

lemma disconnect_fold:
  assumes "app_wf (fst s)"
  shows "app_wf (fst (fold (disconnect_step E conn) ks s))
    \<and> subs_rel (fst (fold (disconnect_step E conn) ks s)) = subs_rel (fst s) - set ks \<times> {SocketID conn}
    \<and> connections (fst (fold (disconnect_step E conn) ks s)) = connections (fst s)"
  using assms
proof (induction ks arbitrary: s)
  case (Cons k ks)
  note e = disconnect_step_effect [OF Cons.prems, of E conn k]
  from Cons.IH [OF e(1)] show ?case by (auto simp: e)
qed simp

lemma subs_rel_keys: "(cid, sid) \<in> subs_rel a \<Longrightarrow> cid \<in> set (keys (channels a))"
  by (auto simp: subs_rel_def dest: map_of_some_keys)

text \<open>The application after the loop, and the rest of \<open>Disconnect\<close>.\<close>

lemma app_Disconnect_app:
  assumes "map_of (connections a) sid = Some conn" "app_wf a"
    and "a1 = fst (fold (disconnect_step E conn) (keys (channels a)) (a, tr))"
  shows "fst (app_Disconnect E sid a tr) =
    stats_Add ''TotalConnections'' (-1) (a1\<lparr>connections := AList.delete sid (connections a1)\<rparr>)"
proof -
  have "connections a1 = connections a" using disconnect_fold [of "(a, tr)" E conn] assms(2,3) by simp
  moreover obtain tr1 where "fold (disconnect_step E conn) (keys (channels a)) (a, tr) = (a1, tr1)"
    using assms(3) by (cases "fold (disconnect_step E conn) (keys (channels a)) (a, tr)") simp
  ultimately show ?thesis
    using assms(1) app_wf_connection [OF assms(2,1)]
    by (simp add: app_Disconnect_def FindConnection_def)
qed

lemma delete_connection_wf:
  assumes wf: "app_wf a1" and conn: "sid \<in> live a1" and gone: "\<And>cid. (cid, sid) \<notin> subs_rel a1"
  shows "app_wf (stats_Add ''TotalConnections'' (-1) (a1\<lparr>connections := AList.delete sid (connections a1)\<rparr>))"
    (is "app_wf ?a")
proof -
  have d: "distinct (keys (connections a1))" using wf by (simp add: app_wf_defs)
  have ne: "connections a1 \<noteq> []" using conn by (auto simp: live_def keys_def)
  have "distinct (List.map (\<lambda>kc. Socket (snd kc)) (AList.delete sid (connections a1)))"
    using wf by (auto simp: app_wf_def maps_ok_def AList.delete_eq distinct_map inj_on_def)
  then have "maps_ok ?a"
    using wf d by (auto simp: app_wf_def maps_ok_def set_delete distinct_keys_delete)
  moreover have "subs_ok ?a"
  proof -
    have "sid' \<noteq> sid" if "(k, c) \<in> set (channels a1)" "(sid', s) \<in> set (subscriptions c)" for k c sid' s
    proof -
      have "map_of (channels a1) k = Some c"
        using that(1) wf by (auto simp: app_wf_defs keys_def intro: map_of_is_SomeI)
      then show ?thesis using gone [of k] that(2) by (force simp: subs_rel_def keys_def)
    qed
    then show ?thesis using wf by (fastforce simp: app_wf_def subs_ok_def map_of_delete)
  qed
  moreover have "stats_ok ?a"
    using wf d ne conn
    by (simp add: app_wf_def stats_ok_def stats_Add_def count_keys_def length_delete live_def of_nat_diff Suc_le_eq)
  moreover have "subscribers_ok ?a"
    using wf by (simp add: app_wf_def subscribers_ok_def)
  ultimately show ?thesis by (simp add: app_wf_def)
qed

lemma app_Disconnect_effect:
  assumes wf: "app_wf a"
  shows "app_wf (fst (app_Disconnect E sid a tr))"
    "live (fst (app_Disconnect E sid a tr)) = live a - {sid}"
    "subs_rel (fst (app_Disconnect E sid a tr)) = {(cid, k) \<in> subs_rel a. k \<noteq> sid}"
proof -
  let ?a = "fst (app_Disconnect E sid a tr)"
  have "app_wf ?a \<and> live ?a = live a - {sid} \<and> subs_rel ?a = {(cid, k) \<in> subs_rel a. k \<noteq> sid}"
  proof (cases "map_of (connections a) sid")
    case None
    then have n: "sid \<notin> live a" by (simp add: live_def map_of_None_keys)
    then have "(cid, sid) \<notin> subs_rel a" for cid using subs_live [OF wf] by blast
    with n None wf show ?thesis by (auto simp: app_Disconnect_def FindConnection_def)
  next
    case (Some conn)
    define a1 where "a1 = fst (fold (disconnect_step E conn) (keys (channels a)) (a, tr))"
    have sid: "SocketID conn = sid" using app_wf_connection [OF wf Some] .
    have f: "app_wf a1" "subs_rel a1 = {(cid, k) \<in> subs_rel a. k \<noteq> sid}" "connections a1 = connections a"
      using disconnect_fold [of "(a, tr)" E conn "keys (channels a)"] wf sid subs_rel_keys [of _ _ a]
      by (auto simp: a1_def)
    have "sid \<in> live a1" using Some by (auto simp: live_def f(3) dest: map_of_some_keys)
    then have w: "app_wf (stats_Add ''TotalConnections'' (-1) (a1\<lparr>connections := AList.delete sid (connections a1)\<rparr>))"
      using f(2) by (intro delete_connection_wf [OF f(1)]) auto
    show ?thesis
      using w f by (auto simp: app_Disconnect_app [OF Some wf a1_def] live_def keys_delete subs_rel_def)
  qed
  then show "app_wf ?a" "live ?a = live a - {sid}" "subs_rel ?a = {(cid, k) \<in> subs_rel a. k \<noteq> sid}" by blast+
qed

section \<open>Publishing\<close>

lemma app_Publish_app:
  "fst (snd (app_Publish E c event ignore a tr)) = stats_Add ''TotalUniqueMessages'' 1 a"
  by (simp add: app_Publish_def Let_def split: prod.split)

lemma app_Publish_effect:
  "app_wf a \<Longrightarrow> app_wf (fst (snd (app_Publish E c event ignore a tr)))"
  "live (fst (snd (app_Publish E c event ignore a tr))) = live a"
  "subs_rel (fst (snd (app_Publish E c event ignore a tr))) = subs_rel a"
  by (simp_all add: app_Publish_app app_wf_defs live_def subs_rel_def stats_Add_def count_keys_def)

lemma has_remote_quiet: "quiet (\<lambda>tr. snd (has_remote E rc appID sids tr))"
proof (induction sids)
  case (Cons sid sids)
  then show ?case
    by (auto simp: quiet_def redis_quiet_simps split: prod.splits sum.splits)
       (metis redis_quiet_simps snd_conv)+
qed (simp add: quiet_def)

end
