(* ===== verification/Hub.thy ===== *)
theory Hub
  imports Prelude
begin

text \<open>
  What the server promises its clients, without sockets, Redis, web hooks or JSON: a hub is the set
  of connections (socket id and socket) and the relation of subscriptions. The locale \<open>hub_impl\<close> is the contract
  of an implementation; in it, the subscriptions after any sequence of operations are read off the
  sequence.
\<close>

record hub =
  who :: "(string \<times> nat) set"
  subscribed :: "(string \<times> string) set"

datatype hub_op =
    HConnect string nat
  | HJoin string string
  | HLeave string string
  | HDrop string
  | HTalk

definition empty_hub :: hub where
  "empty_hub = \<lparr>who = {}, subscribed = {}\<rparr>"

definition is_live :: "string \<Rightarrow> hub \<Rightarrow> bool" where
  "is_live sid h \<longleftrightarrow> sid \<in> fst ` who h"

fun hub_run :: "hub_op \<Rightarrow> hub \<Rightarrow> hub" where
  "hub_run (HConnect sid sock) h = h\<lparr>who := insert (sid, sock) (who h)\<rparr>"
| "hub_run (HJoin cid sid) h = (if is_live sid h then h\<lparr>subscribed := insert (cid, sid) (subscribed h)\<rparr> else h)"
| "hub_run (HLeave cid sid) h = h\<lparr>subscribed := subscribed h - {(cid, sid)}\<rparr>"
| "hub_run (HDrop sid) h =
     \<lparr>who = {p \<in> who h. fst p \<noteq> sid}, subscribed = {p \<in> subscribed h. snd p \<noteq> sid}\<rparr>"
| "hub_run HTalk h = h"

text \<open>A connection comes with a socket id and a socket that are not in use.\<close>

fun allowed :: "hub_op \<Rightarrow> hub \<Rightarrow> bool" where
  "allowed (HConnect sid sock) h \<longleftrightarrow> \<not> is_live sid h \<and> sock \<notin> snd ` who h"
| "allowed op h \<longleftrightarrow> True"

fun legal :: "hub_op list \<Rightarrow> hub \<Rightarrow> bool" where
  "legal [] h \<longleftrightarrow> True"
| "legal (op # ops) h \<longleftrightarrow> allowed op h \<and> legal ops (hub_run op h)"

definition hub_ok :: "hub \<Rightarrow> bool" where
  "hub_ok h \<longleftrightarrow> inj_on fst (who h) \<and> inj_on snd (who h) \<and> snd ` subscribed h \<subseteq> fst ` who h"

lemma hub_run_ok [wf_intros]: "hub_ok h \<Longrightarrow> allowed op h \<Longrightarrow> hub_ok (hub_run op h)"
proof (cases op)
  case (HConnect sid sock)
  moreover assume "hub_ok h" "allowed op h"
  ultimately show ?thesis by (auto simp: hub_ok_def is_live_def image_iff inj_on_def)
next
  case (HDrop sid)
  moreover assume "hub_ok h"
  ultimately show ?thesis by (force simp: hub_ok_def inj_on_def)
qed (auto simp: hub_ok_def is_live_def)

section \<open>Reading the subscriptions off the history\<close>

text \<open>
  A connection is live after a sequence of operations when it connected and has not been dropped
  since; it is subscribed to a channel when it joined while live, and neither left nor was dropped
  since.
\<close>

fun connected_by :: "hub_op list \<Rightarrow> string \<Rightarrow> bool" where
  "connected_by [] sid \<longleftrightarrow> False"
| "connected_by (op # earlier) sid \<longleftrightarrow>
     (case op of HConnect k s \<Rightarrow> k = sid \<or> connected_by earlier sid
      | HDrop k \<Rightarrow> k \<noteq> sid \<and> connected_by earlier sid
      | _ \<Rightarrow> connected_by earlier sid)"

definition joined_in :: "hub_op list \<Rightarrow> string \<Rightarrow> string \<Rightarrow> bool" where
  "joined_in ops cid sid \<longleftrightarrow> (\<exists>before after. ops = before @ HJoin cid sid # after
     \<and> connected_by (rev before) sid \<and> HLeave cid sid \<notin> set after \<and> HDrop sid \<notin> set after)"

lemma connected_by_live:
  "is_live sid (fold hub_run ops empty_hub) \<longleftrightarrow> connected_by (rev ops) sid"
proof (induction ops rule: rev_induct)
  case Nil
  show ?case by (simp add: is_live_def empty_hub_def)
next
  case (snoc op ops)
  then show ?case by (cases op) (force simp: is_live_def)+
qed

lemma joined_in_snoc:
  "joined_in (ops @ [op]) cid sid \<longleftrightarrow>
     (op = HJoin cid sid \<and> connected_by (rev ops) sid)
     \<or> (joined_in ops cid sid \<and> op \<noteq> HLeave cid sid \<and> op \<noteq> HDrop sid)"
proof
  assume "joined_in (ops @ [op]) cid sid"
  then obtain before after where s: "ops @ [op] = before @ HJoin cid sid # after"
    and c: "connected_by (rev before) sid" "HLeave cid sid \<notin> set after" "HDrop sid \<notin> set after"
    by (auto simp: joined_in_def)
  show "(op = HJoin cid sid \<and> connected_by (rev ops) sid)
     \<or> (joined_in ops cid sid \<and> op \<noteq> HLeave cid sid \<and> op \<noteq> HDrop sid)"
  proof (cases after rule: rev_cases)
    case Nil
    with s c show ?thesis by simp
  next
    case (snoc ys y)
    with s have "ops = before @ HJoin cid sid # ys" "op = y" by simp_all
    with c snoc show ?thesis by (auto simp: joined_in_def)
  qed
next
  assume "(op = HJoin cid sid \<and> connected_by (rev ops) sid)
     \<or> (joined_in ops cid sid \<and> op \<noteq> HLeave cid sid \<and> op \<noteq> HDrop sid)"
  then show "joined_in (ops @ [op]) cid sid"
  proof
    assume "op = HJoin cid sid \<and> connected_by (rev ops) sid"
    then show ?thesis unfolding joined_in_def by (intro exI [of _ ops] exI [of _ "[]"]) simp
  next
    assume a: "joined_in ops cid sid \<and> op \<noteq> HLeave cid sid \<and> op \<noteq> HDrop sid"
    then obtain before after where "ops = before @ HJoin cid sid # after"
      "connected_by (rev before) sid" "HLeave cid sid \<notin> set after" "HDrop sid \<notin> set after"
      by (auto simp: joined_in_def)
    with a show ?thesis unfolding joined_in_def
      by (intro exI [of _ before] exI [of _ "after @ [op]"]) auto
  qed
qed

lemma joined_in_subscribed:
  "(cid, sid) \<in> subscribed (fold hub_run ops empty_hub) \<longleftrightarrow> joined_in ops cid sid"
proof (induction ops rule: rev_induct)
  case Nil
  show ?case by (simp add: empty_hub_def joined_in_def)
next
  case (snoc op ops)
  show ?case
    using snoc connected_by_live [of sid ops] by (cases op) (auto simp: joined_in_snoc)
qed

section \<open>The contract of an implementation\<close>

locale hub_impl =
  fixes inv :: "'s \<Rightarrow> bool" and absf :: "'s \<Rightarrow> hub" and kind :: "'op \<Rightarrow> hub_op" and run :: "'op \<Rightarrow> 's \<Rightarrow> 's"
  assumes run_inv: "inv s \<Longrightarrow> allowed (kind op) (absf s) \<Longrightarrow> inv (run op s)"
    and run_abs: "inv s \<Longrightarrow> allowed (kind op) (absf s) \<Longrightarrow> absf (run op s) = hub_run (kind op) (absf s)"
    and inv_ok: "inv s \<Longrightarrow> hub_ok (absf s)"
begin

lemma runs:
  "inv s \<Longrightarrow> legal (List.map kind ops) (absf s) \<Longrightarrow>
   inv (fold run ops s) \<and> absf (fold run ops s) = fold hub_run (List.map kind ops) (absf s)"
proof (induction ops arbitrary: s)
  case (Cons op ops)
  then have a: "allowed (kind op) (absf s)" "legal (List.map kind ops) (hub_run (kind op) (absf s))" by simp_all
  show ?case
    using Cons.IH [OF run_inv [OF Cons.prems(1) a(1)]] a(2) by (simp add: run_abs [OF Cons.prems(1) a(1)])
qed simp

lemma subscribed_history:
  assumes "inv s" "absf s = empty_hub" "legal (List.map kind ops) empty_hub"
  shows "(cid, sid) \<in> subscribed (absf (fold run ops s)) \<longleftrightarrow> joined_in (List.map kind ops) cid sid"
  using runs [OF assms(1), of ops] assms(2,3) by (simp add: joined_in_subscribed)

lemma live_history:
  assumes "inv s" "absf s = empty_hub" "legal (List.map kind ops) empty_hub"
  shows "is_live sid (absf (fold run ops s)) \<longleftrightarrow> connected_by (rev (List.map kind ops)) sid"
  using runs [OF assms(1), of ops] assms(2,3) by (simp add: connected_by_live)

lemma subscribed_live: "inv s \<Longrightarrow> (cid, sid) \<in> subscribed (absf s) \<Longrightarrow> is_live sid (absf s)"
  using inv_ok [of s] by (force simp: hub_ok_def is_live_def)

end

end
