(* ===== verification/App_Hub.thy ===== *)
theory App_Hub
  imports App_Ops Hub
begin

text \<open>
  An application implements the hub: its operations, composed the way the handlers of
  \<open>src/websockets/websocket.go\<close> and \<open>src/api/handlers.go\<close> compose them, are an interpretation of the
  contract, with the environment arbitrary.
\<close>

datatype app_op =
    OpConnect connection
  | OpSubscribe string string string
  | OpUnsubscribe string string
  | OpDisconnect string
  | OpClientEvent string Raw string
  | OpPost string Raw string

fun run_op :: "env \<Rightarrow> app_op \<Rightarrow> application \<times> trace \<Rightarrow> application \<times> trace" where
  "run_op E (OpConnect conn) (a, tr) = app_Connect E conn a tr"
| "run_op E (OpSubscribe cid sid data) (a, tr) =
     (case FindConnection a sid of
        Inl e \<Rightarrow> (a, tr)
      | Inr conn \<Rightarrow> (let (c, a1, tr1) = FindOrCreateChannelByChannelID E cid a tr
                     in snd (app_Subscribe E c conn data a1 tr1)))"
| "run_op E (OpUnsubscribe cid sid) (a, tr) =
     (case (FindConnection a sid, FindChannelByChannelID a cid) of
        (Inr conn, Inr c) \<Rightarrow> snd (app_Unsubscribe E c conn a tr)
      | _ \<Rightarrow> (a, tr))"
| "run_op E (OpDisconnect sid) (a, tr) = app_Disconnect E sid a tr"
| "run_op E (OpClientEvent cid event sid) (a, tr) =
     (case FindChannelByChannelID a cid of
        Inl e \<Rightarrow> (a, tr)
      | Inr c \<Rightarrow> snd (app_Publish E c event sid a tr))"
| "run_op E (OpPost cid event ignore) (a, tr) =
     (let (c, a1, tr1) = FindOrCreateChannelByChannelID E cid a tr
      in snd (app_Publish E c event ignore a1 tr1))"

fun op_kind :: "app_op \<Rightarrow> hub_op" where
  "op_kind (OpConnect conn) = HConnect (SocketID conn) (Socket conn)"
| "op_kind (OpSubscribe cid sid data) = HJoin cid sid"
| "op_kind (OpUnsubscribe cid sid) = HLeave cid sid"
| "op_kind (OpDisconnect sid) = HDrop sid"
| "op_kind (OpClientEvent cid event sid) = HTalk"
| "op_kind (OpPost cid event ignore) = HTalk"

definition hub_of :: "application \<Rightarrow> hub" where
  "hub_of a = \<lparr>who = (\<lambda>(k, conn). (k, Socket conn)) ` set (connections a), subscribed = subs_rel a\<rparr>"

lemma hub_of_live [simp]: "is_live sid (hub_of a) \<longleftrightarrow> sid \<in> live a"
  by (force simp: is_live_def hub_of_def live_def keys_def)

lemma hub_of_empty: "hub_of (empty_application n i k s o1 en u w url rc) = empty_hub"
  by (simp add: hub_of_def empty_hub_def empty_application_def subs_rel_def)

lemma allowed_connect:
  "allowed (HConnect (SocketID conn) (Socket conn)) (hub_of a) \<longleftrightarrow> fresh_connection conn a"
  by (force simp: fresh_connection_def hub_of_def is_live_def live_def keys_def)

lemma hub_of_eqI:
  "connections a' = connections a \<Longrightarrow> subs_rel a' = r \<Longrightarrow> hub_of a' = (hub_of a)\<lparr>subscribed := r\<rparr>"
  by (simp add: hub_of_def)

lemma hub_of_ok: "app_wf a \<Longrightarrow> hub_ok (hub_of a)"
proof -
  assume wf: "app_wf a"
  have "distinct (List.map fst (connections a))" using wf by (simp add: app_wf_defs keys_def)
  then have "inj_on fst (who (hub_of a))"
    by (auto simp: hub_of_def inj_on_def dest: eq_key_imp_eq_value)
  moreover have "k = k'" if "(k, c) \<in> set (connections a)" "(k', c') \<in> set (connections a)" "Socket c = Socket c'" for k k' c c'
  proof -
    have "inj_on (\<lambda>kc. Socket (snd kc)) (set (connections a))" using wf by (simp add: app_wf_defs distinct_map)
    from inj_onD [OF this, of "(k, c)" "(k', c')"] that show ?thesis by simp
  qed
  then have "inj_on snd (who (hub_of a))"
    by (auto simp: hub_of_def inj_on_def)
  moreover have "snd ` subscribed (hub_of a) \<subseteq> fst ` who (hub_of a)"
    using subs_live [OF wf] hub_of_live [of _ a] by (auto simp: is_live_def hub_of_def simp del: hub_of_live)
  ultimately show ?thesis by (simp add: hub_ok_def)
qed

section \<open>Every operation refines the hub's\<close>

lemma connect_refines:
  assumes "app_wf a" "fresh_connection conn a"
  shows "hub_of (fst (app_Connect E conn a tr)) = hub_run (HConnect (SocketID conn) (Socket conn)) (hub_of a)"
proof -
  have "SocketID conn \<notin> set (keys (connections a))" using assms(2) by (simp add: fresh_connection_def live_def)
  then have "connections (fst (app_Connect E conn a tr)) = connections a @ [(SocketID conn, conn)]"
    by (simp add: app_Connect_fields update_fresh)
  then show ?thesis by (simp add: hub_of_def app_Connect_rel)
qed

lemma subscribe_refines:
  assumes wf: "app_wf a" and conn: "FindConnection a sid = Inr conn"
    and ch: "FindOrCreateChannelByChannelID E cid a tr = (c, a1, tr1)"
  shows "app_wf (fst (snd (app_Subscribe E c conn data a1 tr1)))"
    "hub_of (fst (snd (app_Subscribe E c conn data a1 tr1))) = hub_run (HJoin cid sid) (hub_of a)"
proof -
  note f = FindOrCreate_result [OF wf ch]
  have m: "map_of (connections a) sid = Some conn" using conn by (auto simp: FindConnection_def split: option.splits)
  then have sid: "SocketID conn = sid" "sid \<in> live a"
    using app_wf_connection [OF wf m] by (auto simp: live_def dest: map_of_some_keys)
  have c: "map_of (channels a1) (chan_ID c) = Some c" "map_of (connections a1) (SocketID conn) = Some conn"
    using f m sid by simp_all
  show "app_wf (fst (snd (app_Subscribe E c conn data a1 tr1)))"
    by (rule app_Subscribe_wf [OF f(1) c])
  show "hub_of (fst (snd (app_Subscribe E c conn data a1 tr1))) = hub_run (HJoin cid sid) (hub_of a)"
    using app_Subscribe_rel [OF c(1), of E conn data tr1] f sid by (simp add: hub_of_def is_live_def [symmetric] flip: hub_of_live)
qed

lemma unsubscribe_refines:
  assumes wf: "app_wf a" and conn: "FindConnection a sid = Inr conn" and ch: "FindChannelByChannelID a cid = Inr c"
  shows "app_wf (fst (snd (app_Unsubscribe E c conn a tr)))"
    "hub_of (fst (snd (app_Unsubscribe E c conn a tr))) = hub_run (HLeave cid sid) (hub_of a)"
proof -
  have m: "map_of (connections a) sid = Some conn" "map_of (channels a) cid = Some c"
    using conn ch by (auto simp: FindConnection_def FindChannelByChannelID_def split: option.splits)
  have c: "map_of (channels a) (chan_ID c) = Some c" "chan_ID c = cid" "SocketID conn = sid"
    using m app_wf_channel(1) [OF wf m(2)] app_wf_connection [OF wf m(1)] by simp_all
  show "app_wf (fst (snd (app_Unsubscribe E c conn a tr)))"
    by (rule app_Unsubscribe_wf [OF wf c(1)])
  show "hub_of (fst (snd (app_Unsubscribe E c conn a tr))) = hub_run (HLeave cid sid) (hub_of a)"
    using app_Unsubscribe_rel [OF wf c(1), of E conn tr] c by (simp add: hub_of_def)
qed

lemma disconnect_connections:
  assumes wf: "app_wf a"
  shows "connections (fst (app_Disconnect E sid a tr)) = AList.delete sid (connections a)"
proof (cases "map_of (connections a) sid")
  case None
  then have "AList.delete sid (connections a) = connections a"
    by (auto simp: AList.delete_eq filter_id_conv map_of_eq_None_iff image_iff)
  with None show ?thesis by (simp add: app_Disconnect_def FindConnection_def)
next
  case (Some conn)
  show ?thesis
    using disconnect_fold [of "(a, tr)" E conn "keys (channels a)"] wf
    by (simp add: app_Disconnect_app [OF Some wf refl])
qed

lemma disconnect_refines:
  "app_wf a \<Longrightarrow> hub_of (fst (app_Disconnect E sid a tr)) = hub_run (HDrop sid) (hub_of a)"
  by (auto simp: hub_of_def disconnect_connections app_Disconnect_effect set_delete)

lemma publish_refines:
  "app_wf a \<Longrightarrow> app_wf (fst (snd (app_Publish E c event ignore a tr)))"
  "hub_of (fst (snd (app_Publish E c event ignore a tr))) = hub_of a"
  by (simp_all add: app_Publish_effect(1) hub_of_def app_Publish_effect(3))
     (simp add: app_Publish_app)

lemma post_refines:
  assumes wf: "app_wf a" and ch: "FindOrCreateChannelByChannelID E cid a tr = (c, a1, tr1)"
  shows "app_wf (fst (snd (app_Publish E c event ignore a1 tr1)))"
    "hub_of (fst (snd (app_Publish E c event ignore a1 tr1))) = hub_of a"
proof -
  note f = FindOrCreate_result [OF wf ch]
  show "app_wf (fst (snd (app_Publish E c event ignore a1 tr1)))" by (rule publish_refines(1) [OF f(1)])
  show "hub_of (fst (snd (app_Publish E c event ignore a1 tr1))) = hub_of a"
    using f by (simp add: publish_refines(2)) (simp add: hub_of_def)
qed

lemma run_op_refines:
  assumes wf: "app_wf a" and al: "allowed (op_kind op) (hub_of a)"
  shows "app_wf (fst (run_op E op (a, tr))) \<and> hub_of (fst (run_op E op (a, tr))) = hub_run (op_kind op) (hub_of a)"
proof (cases op)
  case (OpConnect conn)
  then have "fresh_connection conn a" using al by (simp only: op_kind.simps allowed_connect)
  then show ?thesis using wf OpConnect by (simp add: app_Connect_wf connect_refines del: hub_run.simps)
next
  case (OpSubscribe cid sid data)
  show ?thesis
  proof (cases "FindConnection a sid")
    case (Inl e)
    then have "sid \<notin> live a" by (auto simp: FindConnection_def live_def map_of_None_keys split: option.splits)
    then show ?thesis using wf Inl OpSubscribe by simp
  next
    case (Inr conn)
    obtain c a1 tr1 where ch: "FindOrCreateChannelByChannelID E cid a tr = (c, a1, tr1)" by (rule prod_cases3)
    show ?thesis
      using subscribe_refines [OF wf Inr ch, of data] Inr OpSubscribe ch by (simp del: hub_run.simps)
  qed
next
  case (OpUnsubscribe cid sid)
  show ?thesis
  proof (cases "\<exists>conn c. FindConnection a sid = Inr conn \<and> FindChannelByChannelID a cid = Inr c")
    case True
    then obtain conn c where f: "FindConnection a sid = Inr conn" "FindChannelByChannelID a cid = Inr c" by blast
    then show ?thesis
      using unsubscribe_refines [OF wf f] OpUnsubscribe by (simp del: hub_run.simps)
  next
    case False
    then have same: "fst (run_op E op (a, tr)) = a" using OpUnsubscribe by (auto split: sum.split)
    have "sid \<notin> live a \<or> map_of (channels a) cid = None"
      using False by (auto simp: FindConnection_def FindChannelByChannelID_def live_def map_of_None_keys split: option.splits)
    then have "(cid, sid) \<notin> subs_rel a" using subs_live [OF wf] by (auto simp: subs_rel_def)
    then show ?thesis using wf OpUnsubscribe unfolding same by (simp add: hub_of_def)
  qed
next
  case (OpDisconnect sid)
  then show ?thesis using wf by (simp add: app_Disconnect_effect disconnect_refines del: hub_run.simps)
next
  case (OpClientEvent cid event sid)
  then show ?thesis using wf by (simp add: publish_refines split: sum.split)
next
  case (OpPost cid event ignore)
  obtain c a1 tr1 where ch: "FindOrCreateChannelByChannelID E cid a tr = (c, a1, tr1)" by (rule prod_cases3)
  then show ?thesis using post_refines [OF wf ch] OpPost by simp
qed

interpretation ah: hub_impl "\<lambda>s. app_wf (fst s)" "\<lambda>s. hub_of (fst s)" op_kind "run_op E" for E
proof
  fix s :: "application \<times> trace" and op
  assume "app_wf (fst s)" "allowed (op_kind op) (hub_of (fst s))"
  then show "app_wf (fst (run_op E op s))" "hub_of (fst (run_op E op s)) = hub_run (op_kind op) (hub_of (fst s))"
    using run_op_refines [of "fst s" op E "snd s"] by simp_all
next
  fix s :: "application \<times> trace" assume "app_wf (fst s)"
  then show "hub_ok (hub_of (fst s))" by (rule hub_of_ok)
qed

section \<open>The roster: which channels exist, and who is in each\<close>

definition roster :: "application \<Rightarrow> string \<Rightarrow> string set option" where
  "roster a cid = map_option (\<lambda>c. set (keys (subscriptions c))) (map_of (channels a) cid)"

text \<open>A member leaves; a channel whose last member leaves is gone.\<close>

definition leave :: "string \<Rightarrow> string set option \<Rightarrow> string set option" where
  "leave sid r = (case r of None \<Rightarrow> None
     | Some S \<Rightarrow> if sid \<notin> S then Some S else if S = {sid} then None else Some (S - {sid}))"

lemma roster_subs: "(cid, sid) \<in> subs_rel a \<longleftrightarrow> (\<exists>S. roster a cid = Some S \<and> sid \<in> S)"
  by (auto simp: roster_def subs_rel_def)

lemma leave_leave [simp]: "leave sid (leave sid r) = leave sid r"
  by (auto simp: leave_def split: option.split)

lemma leave_outsider: "(\<And>S. r = Some S \<Longrightarrow> sid \<notin> S) \<Longrightarrow> leave sid r = r"
  by (auto simp: leave_def split: option.split)

lemma roster_FindOrCreate:
  assumes "FindOrCreateChannelByChannelID E n a tr = (c, a', tr')"
  shows "roster a' = (if roster a n = None then (roster a)(n \<mapsto> {}) else roster a)"
proof (cases "map_of (channels a) n")
  case None
  then obtain tr1 where n: "channel_New E n (app_options E a) tr = (c, tr1)" and add: "AddChannel E c a tr1 = (a', tr')"
    using assms by (auto simp: FindOrCreateChannelByChannelID_def FindChannelByChannelID_def split: prod.splits)
  note new = new_app_channel [OF n]
  have fresh: "map_of (channels a) (chan_ID c) = None" using None new(1) by simp
  have "map_of (channels a') k = (if k = n then Some c else map_of (channels a) k)" for k
    using None by (auto simp: AddChannel_result(1) [OF add fresh] new(1) map_add_def split: option.split)
  then show ?thesis using None new(2) by (auto simp: roster_def fun_eq_iff keys_def)
next
  case (Some c0)
  then show ?thesis using assms by (simp add: FindOrCreate_found roster_def)
qed

lemma roster_store:
  "map_of (channels a) (chan_ID c) \<noteq> None \<Longrightarrow> roster (store_channel c a) = (roster a)(chan_ID c \<mapsto> set (keys (subscriptions c)))"
  by (auto simp: roster_def store_channel_map map_of_update fun_eq_iff)

lemma roster_Remove: "roster (RemoveChannel c a) = (roster a)(chan_ID c := None)"
  by (auto simp: roster_def map_of_delete fun_eq_iff)

lemma roster_Subscribe:
  assumes "map_of (channels a) (chan_ID c) = Some c"
  shows "roster (fst (snd (app_Subscribe E c conn data a tr))) =
    (roster a)(chan_ID c \<mapsto> insert (SocketID conn) (set (keys (subscriptions c))))"
  using assms by (simp add: app_Subscribe_app roster_store frame_simps channel_Subscribe_keys)

lemma roster_Unsubscribe:
  assumes c: "map_of (channels a) (chan_ID c) = Some c"
  shows "roster (fst (snd (app_Unsubscribe E c conn a tr))) = (roster a)(chan_ID c := leave (SocketID conn) (roster a (chan_ID c)))"
proof -
  let ?r = "channel_Unsubscribe E c conn tr"
  let ?c1 = "fst (snd ?r)"
  have st: "roster (store_channel ?c1 a) = (roster a)(chan_ID c \<mapsto> set (keys (subscriptions c)) - {SocketID conn})"
    using c by (subst roster_store) (auto simp: frame_simps channel_Unsubscribe_subs keys_delete)
  have r: "roster a (chan_ID c) = Some (set (keys (subscriptions c)))" using c by (simp add: roster_def)
  show ?thesis
  proof (cases "SocketID conn \<in> set (keys (subscriptions c))")
    case True
    then have ok: "fst ?r = None"
      by (intro channel_Unsubscribe_ok) (auto simp: IsSubscribed_def map_of_None_keys)
    have "IsOccupied ?c1 \<longleftrightarrow> subscriptions ?c1 \<noteq> []" by (simp add: IsOccupied_def TotalSubscriptions_def)
    also have "\<dots> \<longleftrightarrow> set (keys (subscriptions ?c1)) \<noteq> {}" by (simp add: keys_def)
    also have "\<dots> \<longleftrightarrow> set (keys (subscriptions c)) \<noteq> {SocketID conn}"
      using True by (auto simp: channel_Unsubscribe_subs keys_delete)
    finally show ?thesis
      using True ok by (auto simp: app_Unsubscribe_app [OF refl] roster_Remove st r leave_def frame_simps)
  next
    case False
    then have err: "fst ?r \<noteq> None"
      by (auto simp: channel_Unsubscribe_def map_of_None_keys split: option.split dest: map_of_some_keys)
    have "insert (SocketID conn) (set (keys (subscriptions c))) - {SocketID conn} = set (keys (subscriptions c))"
      using False by auto
    with False err show ?thesis
      by (auto simp: app_Unsubscribe_app [OF refl] st r leave_def)
  qed
qed

lemma roster_disconnect_step:
  assumes "app_wf (fst s)"
  shows "roster (fst (disconnect_step E conn cid s)) = (roster (fst s))(cid := leave (SocketID conn) (roster (fst s) cid))"
proof (cases "map_of (channels (fst s)) cid")
  case None
  then show ?thesis by (auto simp: disconnect_step_def roster_def leave_def fun_eq_iff)
next
  case (Some c)
  then have c: "map_of (channels (fst s)) (chan_ID c) = Some c" "chan_ID c = cid"
    using app_wf_channel(1) [OF assms Some] by simp_all
  show ?thesis
  proof (cases "IsSubscribed c conn")
    case True
    then show ?thesis using Some c roster_Unsubscribe [OF c(1), of E conn "snd s"] by (simp add: disconnect_step_def)
  next
    case False
    then have "SocketID conn \<notin> set (keys (subscriptions c))" by (auto simp: IsSubscribed_def dest: in_keysD)
    with False Some show ?thesis by (auto simp: disconnect_step_def roster_def leave_def fun_eq_iff)
  qed
qed

lemma roster_disconnect_fold:
  "app_wf (fst s) \<Longrightarrow> roster (fst (fold (disconnect_step E conn) ks s)) =
     (\<lambda>cid. if cid \<in> set ks then leave (SocketID conn) (roster (fst s) cid) else roster (fst s) cid)"
proof (induction ks arbitrary: s)
  case (Cons k ks)
  note e = disconnect_step_effect(1) [OF Cons.prems, of E conn k]
  from Cons.IH [OF e] show ?case by (auto simp: roster_disconnect_step [OF Cons.prems] fun_eq_iff)
qed simp

lemma roster_connections [simp]: "roster (a\<lparr>connections := x\<rparr>) = roster a" "roster (stats_Add n d a) = roster a"
  by (simp_all add: roster_def fun_eq_iff)

lemma roster_Disconnect:
  assumes wf: "app_wf a"
  shows "roster (fst (app_Disconnect E sid a tr)) = (\<lambda>cid. leave sid (roster a cid))"
proof (cases "map_of (connections a) sid")
  case None
  then have "sid \<notin> live a" by (simp add: live_def map_of_None_keys)
  then have "leave sid (roster a cid) = roster a cid" for cid
    using subs_live [OF wf] by (intro leave_outsider) (auto simp: roster_subs)
  with None show ?thesis by (simp add: app_Disconnect_def FindConnection_def)
next
  case (Some conn)
  have "roster a cid = None" if "cid \<notin> set (keys (channels a))" for cid
    using that by (simp add: roster_def map_of_None_keys)
  then show ?thesis
    using app_wf_connection [OF wf Some] roster_disconnect_fold [of "(a, tr)" E conn "keys (channels a)"] wf
    by (auto simp: app_Disconnect_app [OF Some wf refl] fun_eq_iff leave_def)
qed

end
