(* ===== verification/App_Spec.thy ===== *)
theory App_Spec
  imports App_Hub
begin

text \<open>
  The properties of an application as a whole: subscriptions follow the history of operations,
  counters and channels follow the subscriptions, and events reach exactly the subscribers.
\<close>

abbreviation fresh_app :: "bool \<Rightarrow> string \<Rightarrow> redis_client option \<Rightarrow> application" where
  "fresh_app hooks url rc \<equiv> empty_application ''app'' ''1'' ''key'' ''secret'' False True True hooks url rc"

definition demo_app :: application where
  "demo_app = fresh_app False [] None"

definition demo_ops :: "app_op list" where
  "demo_ops = [OpConnect (demo_conn ''1.1'' 1), OpConnect (demo_conn ''2.2'' 2), OpSubscribe ''a'' ''1.1'' [],
     OpSubscribe ''a'' ''2.2'' [], OpUnsubscribe ''a'' ''1.1'', OpSubscribe ''b'' ''1.1'' [], OpDisconnect ''1.1'']"

lemma demo_legal: "legal (List.map op_kind demo_ops) empty_hub"
  by (simp add: demo_ops_def demo_defs empty_hub_def is_live_def)

lemma run_from_empty:
  assumes "legal (List.map op_kind ops) empty_hub"
  shows "app_wf (fst (fold (run_op E) ops (empty_application n i k s o1 en u w url rc, tr)))"
    "hub_of (fst (fold (run_op E) ops (empty_application n i k s o1 en u w url rc, tr)))
       = fold hub_run (List.map op_kind ops) empty_hub"
  using ah.runs [of "(empty_application n i k s o1 en u w url rc, tr)" ops E] assms
  by (simp_all add: app_wf_empty hub_of_empty)

text \<open>
  Claim C2: whatever Redis, the web hooks and the sockets answer, after any sequence of operations a
  connection is subscribed to a channel exactly when it subscribed while connected and has neither
  unsubscribed nor disconnected since.
\<close>

theorem subscriptions_follow_history:
  assumes "legal (List.map op_kind ops) empty_hub"
  shows "(cid, sid) \<in> subs_rel (fst (fold (run_op E) ops (empty_application n i k s o1 en u w url rc, tr)))
    \<longleftrightarrow> joined_in (List.map op_kind ops) cid sid"
  using ah.subscribed_history [of "(empty_application n i k s o1 en u w url rc, tr)" ops cid sid E] assms
  by (simp add: app_wf_empty hub_of_empty) (simp add: hub_of_def)

theorem subscriptions_follow_history_witness:
  "(''a'', ''2.2'') \<in> subs_rel (fst (fold (run_op demo_env) demo_ops (demo_app, [])))"
proof -
  have "joined_in (List.map op_kind demo_ops) ''a'' ''2.2''"
    unfolding joined_in_def
    by (rule exI [of _ "take 3 (List.map op_kind demo_ops)"], rule exI [of _ "drop 4 (List.map op_kind demo_ops)"])
       (simp add: demo_ops_def demo_defs)
  then show ?thesis
    unfolding demo_app_def by (subst subscriptions_follow_history [OF demo_legal])
qed

text \<open>
  Claim C17: after any sequence of operations the exported counters tell the truth: the number of
  connections, of channels, and of presence, private and public channels; and every subscription
  belongs to the connection that is registered under its socket id.
\<close>

theorem counters_track_state:
  assumes "legal (List.map op_kind ops) empty_hub"
    and "a = fst (fold (run_op E) ops (empty_application n i k s o1 en u w url rc, tr))"
  shows "Stats a ''TotalConnections'' = int (card (live a))
    \<and> Stats a ''TotalChannels'' = int (card (dom (roster a)))
    \<and> Stats a ''TotalPresenceChannels'' = int (card {n \<in> dom (roster a). IsPresenceChannel n})
    \<and> Stats a ''TotalPrivateChannels'' = int (card {n \<in> dom (roster a). IsPrivateChannel n})
    \<and> Stats a ''TotalPublicChannels'' = int (card {n \<in> dom (roster a). \<not> IsPresenceChannel n \<and> \<not> IsPrivateChannel n})
    \<and> (\<forall>c \<in> set (Channels a). \<forall>s \<in> set (Subscriptions c).
         FindConnection a (SocketID (sub_Connection s)) = Inr (sub_Connection s))"
proof -
  have wf: "app_wf a" using run_from_empty(1) [OF assms(1)] assms(2) by simp
  have d: "distinct (keys (channels a))" "distinct (keys (connections a))" using wf by (simp_all add: app_wf_defs)
  have dom: "dom (roster a) = set (keys (channels a))"
    by (auto simp: roster_def dest: map_of_some_keys in_keysD)
  have flt: "count_keys p a = int (card {n \<in> dom (roster a). p n})" for p
    using d(1) distinct_card [of "List.filter p (keys (channels a))"] by (simp add: count_keys_def dom)
  have len: "int (length (connections a)) = int (card (live a))" "int (length (channels a)) = int (card (dom (roster a)))"
    using d by (simp_all add: live_def dom length_keys)
  have "FindConnection a (SocketID (sub_Connection s)) = Inr (sub_Connection s)"
    if "c \<in> set (Channels a)" "s \<in> set (Subscriptions c)" for c s
    using wf that by (fastforce simp: app_wf_defs Channels_def Subscriptions_def FindConnection_def chan_wf_def)
  then show ?thesis
    using wf by (simp add: app_wf_def stats_ok_def flt len public_name_def)
qed

theorem counters_track_state_witness:
  "Stats (fst (fold (run_op demo_env) demo_ops (demo_app, []))) ''TotalConnections'' = 1"
proof -
  let ?a = "fst (fold (run_op demo_env) demo_ops (demo_app, []))"
  have "who (hub_of ?a) = {(''2.2'', 2)}"
    unfolding demo_app_def run_from_empty(2) [OF demo_legal]
    by (auto simp: demo_ops_def demo_defs empty_hub_def is_live_def)
  then have "live ?a = {''2.2''}"
    using hub_of_live [of _ ?a] by (auto simp: is_live_def simp del: hub_of_live)
  then show ?thesis
    using counters_track_state [OF demo_legal, of ?a demo_env] by (simp add: demo_app_def)
qed

text \<open>
  Claim C14: disconnecting removes the connection and all its subscriptions, deletes the channels it
  was the last to leave, and touches nobody else.
\<close>

theorem disconnect_cleans_up:
  assumes "app_wf a"
  shows "app_wf (fst (app_Disconnect E sid a tr))
    \<and> live (fst (app_Disconnect E sid a tr)) = live a - {sid}
    \<and> (\<forall>cid. roster (fst (app_Disconnect E sid a tr)) cid = leave sid (roster a cid))
    \<and> (\<forall>cid S. roster (fst (app_Disconnect E sid a tr)) cid = Some S \<longrightarrow> sid \<notin> S)"
proof -
  have "sid \<notin> S" if "leave sid r = Some S" for r S
    using that by (auto simp: leave_def split: option.splits if_splits)
  then show ?thesis using assms by (simp add: app_Disconnect_effect roster_Disconnect)
qed

text \<open>The demo application after its operations satisfies the invariant.\<close>

definition demo_state :: "application \<times> trace" where
  "demo_state = fold (run_op demo_env) demo_ops (demo_app, [])"

lemma demo_state_wf: "app_wf (fst demo_state)"
  unfolding demo_state_def demo_app_def by (rule run_from_empty(1) [OF demo_legal])

theorem disconnect_cleans_up_witness:
  "live (fst (app_Disconnect demo_env ''2.2'' (fst demo_state) [])) = live (fst demo_state) - {''2.2''}"
  using disconnect_cleans_up [OF demo_state_wf, of demo_env "''2.2''" "[]"] by blast

section \<open>Channels come and go with their subscribers, but for the HTTP API\<close>

definition all_occupied :: "application \<Rightarrow> bool" where
  "all_occupied a \<longleftrightarrow> (\<forall>cid. roster a cid \<noteq> Some {})"

fun is_post :: "app_op \<Rightarrow> bool" where
  "is_post (OpPost cid event ignore) = True"
| "is_post op = False"

lemma leave_nonempty: "r \<noteq> Some {} \<Longrightarrow> leave sid r \<noteq> Some {}"
  by (auto simp: leave_def split: option.split)

lemma roster_run_subscribe:
  assumes wf: "app_wf a"
  shows "roster (fst (run_op E (OpSubscribe cid sid data) (a, tr))) =
    (if sid \<in> live a
     then (roster a)(cid \<mapsto> insert sid (case roster a cid of None \<Rightarrow> {} | Some S \<Rightarrow> S)) else roster a)"
proof (cases "FindConnection a sid")
  case (Inl e)
  then have "sid \<notin> live a" by (auto simp: FindConnection_def live_def map_of_None_keys split: option.splits)
  with Inl show ?thesis by simp
next
  case (Inr conn)
  then have m: "map_of (connections a) sid = Some conn" by (auto simp: FindConnection_def split: option.splits)
  then have sid: "sid \<in> live a" "SocketID conn = sid"
    using app_wf_connection [OF wf m] by (auto simp: live_def dest: map_of_some_keys)
  obtain c a1 tr1 where ch: "FindOrCreateChannelByChannelID E cid a tr = (c, a1, tr1)" by (rule prod_cases3)
  note f = FindOrCreate_result [OF wf ch] and r = roster_FindOrCreate [OF ch]
  have c: "map_of (channels a1) (chan_ID c) = Some c" using f by simp
  have "roster a1 cid = Some (set (keys (subscriptions c)))" using f by (simp add: roster_def)
  then have s: "set (keys (subscriptions c)) = (case roster a cid of None \<Rightarrow> {} | Some S \<Rightarrow> S)"
    using r by (auto split: option.splits if_splits)
  show ?thesis
    using roster_Subscribe [OF c, of E conn data tr1] Inr ch sid f(3) r s by (auto simp: fun_eq_iff)
qed

lemma roster_run_unsubscribe:
  assumes wf: "app_wf a"
  shows "roster (fst (run_op E (OpUnsubscribe cid sid) (a, tr))) = (roster a)(cid := leave sid (roster a cid))"
proof (cases "\<exists>conn c. FindConnection a sid = Inr conn \<and> FindChannelByChannelID a cid = Inr c")
  case True
  then obtain conn c where f: "FindConnection a sid = Inr conn" "FindChannelByChannelID a cid = Inr c" by blast
  then have m: "map_of (connections a) sid = Some conn" "map_of (channels a) cid = Some c"
    by (auto simp: FindConnection_def FindChannelByChannelID_def split: option.splits)
  have c: "map_of (channels a) (chan_ID c) = Some c" "chan_ID c = cid" "SocketID conn = sid"
    using m app_wf_channel(1) [OF wf m(2)] app_wf_connection [OF wf m(1)] by simp_all
  show ?thesis using roster_Unsubscribe [OF c(1), of E conn tr] c f by simp
next
  case False
  then have same: "fst (run_op E (OpUnsubscribe cid sid) (a, tr)) = a" by (auto split: sum.split)
  have "sid \<notin> live a \<or> map_of (channels a) cid = None"
    using False by (auto simp: FindConnection_def FindChannelByChannelID_def live_def map_of_None_keys split: option.splits)
  then have "(cid, sid) \<notin> subs_rel a" using subs_live [OF wf] by (auto simp: subs_rel_def)
  then have "leave sid (roster a cid) = roster a cid" by (intro leave_outsider) (auto simp: roster_subs)
  then show ?thesis unfolding same by simp
qed

lemma roster_Publish: "roster (fst (snd (app_Publish E c event ignore a tr))) = roster a"
  by (simp add: app_Publish_app)

lemma roster_run_post:
  "roster (fst (run_op E (OpPost cid event ignore) (a, tr))) =
     (if roster a cid = None then (roster a)(cid \<mapsto> {}) else roster a)"
proof -
  obtain c a1 tr1 where ch: "FindOrCreateChannelByChannelID E cid a tr = (c, a1, tr1)" by (rule prod_cases3)
  then show ?thesis using roster_FindOrCreate [OF ch] by (simp add: roster_Publish)
qed

lemma roster_run_others:
  "roster (fst (run_op E (OpConnect conn) (a, tr))) = roster a"
  "roster (fst (run_op E (OpClientEvent cid event sid) (a, tr))) = roster a"
proof -
  show "roster (fst (run_op E (OpConnect conn) (a, tr))) = roster a"
    by (simp add: roster_def app_Connect_fields fun_eq_iff)
  show "roster (fst (run_op E (OpClientEvent cid event sid) (a, tr))) = roster a"
    by (simp add: roster_Publish split: sum.split)
qed

lemmas roster_run = roster_run_subscribe roster_run_unsubscribe roster_run_post roster_run_others roster_Disconnect

lemma run_legal_invariant:
  assumes start: "app_wf a0" "P a0" and legal: "legal (List.map op_kind ops) (hub_of a0)"
    and step: "\<And>op a tr. op \<in> set ops \<Longrightarrow> app_wf a \<Longrightarrow> P a \<Longrightarrow> P (fst (run_op E op (a, tr)))"
  shows "P (fst (fold (run_op E) ops (a0, tr0)))"
  using assms
proof (induction ops arbitrary: a0 tr0)
  case (Cons op ops)
  obtain a1 tr1 where r: "run_op E op (a0, tr0) = (a1, tr1)" by fastforce
  have al: "allowed (op_kind op) (hub_of a0)" using Cons.prems(3) by simp
  have n: "app_wf a1" "hub_of a1 = hub_run (op_kind op) (hub_of a0)"
    using run_op_refines [OF Cons.prems(1) al, of E tr0] r by simp_all
  have p: "P a1" using Cons.prems(4) [of op a0 tr0] Cons.prems(1,2) r by simp
  have "P (fst (fold (run_op E) ops (a1, tr1)))"
    using Cons.prems(3) n Cons.prems(4) by (intro Cons.IH [OF n(1) p]) simp_all
  then show ?case by (simp add: r)
qed simp

text \<open>
  Claim C37: as long as events come from clients only, no channel without subscribers exists; and a
  channel that a \<open>POST\<close> to the HTTP API creates without subscribers stays in the map for ever unless
  somebody subscribes to it.
\<close>

theorem channels_without_subscribers:
  assumes wf: "app_wf a" and legal: "legal (List.map op_kind ops) (hub_of a)"
  shows "(all_occupied a \<and> (\<forall>op \<in> set ops. \<not> is_post op) \<longrightarrow> all_occupied (fst (fold (run_op E) ops (a, tr))))
    \<and> (roster a cid = None \<longrightarrow> roster (fst (run_op E (OpPost cid event ignore) (a, tr))) cid = Some {})
    \<and> (roster a cid = Some {} \<and> (\<forall>op \<in> set ops. \<forall>sid data. op \<noteq> OpSubscribe cid sid data)
         \<longrightarrow> roster (fst (fold (run_op E) ops (a, tr))) cid = Some {})"
proof -
  have "all_occupied (fst (fold (run_op E) ops (a, tr)))"
    if "all_occupied a" "\<forall>op \<in> set ops. \<not> is_post op"
  proof (rule run_legal_invariant [where P = all_occupied, OF wf that(1) legal])
    fix op and a :: application and tr :: trace
    assume "op \<in> set ops" "app_wf a" "all_occupied a"
    then show "all_occupied (fst (run_op E op (a, tr)))"
      using that(2) by - (cases op, auto simp: all_occupied_def roster_run leave_nonempty simp del: run_op.simps(1-3,5-6))
  qed
  moreover have "roster (fst (fold (run_op E) ops (a, tr))) cid = Some {}"
    if "roster a cid = Some {}" "\<forall>op \<in> set ops. \<forall>sid data. op \<noteq> OpSubscribe cid sid data"
  proof (rule run_legal_invariant [where P = "\<lambda>a. roster a cid = Some {}", OF wf that(1) legal])
    fix op and a :: application and tr :: trace
    assume "op \<in> set ops" "app_wf a" "roster a cid = Some {}"
    then show "roster (fst (run_op E op (a, tr))) cid = Some {}"
      using that(2) by - (cases op, auto simp: roster_run leave_def simp del: run_op.simps(1-3,5-6))
  qed
  ultimately show ?thesis by (simp add: roster_run del: run_op.simps)
qed

definition demo_empty_app :: application where
  "demo_empty_app = fst (run_op demo_env (OpPost ''a'' demo_event []) (demo_app, []))"

lemma demo_empty_app_ok: "app_wf demo_empty_app" "hub_of demo_empty_app = empty_hub" "roster demo_empty_app ''a'' = Some {}"
  using run_op_refines [of demo_app "OpPost ''a'' demo_event []" demo_env "[]"]
    roster_run_post [of demo_env "''a''" demo_event "[]" demo_app "[]"]
  by (simp_all add: demo_empty_app_def demo_app_def app_wf_empty hub_of_empty del: run_op.simps)
     (simp add: roster_def empty_application_def)

theorem channels_without_subscribers_witness:
  "roster (fst (fold (run_op demo_env) [OpConnect (demo_conn ''1.1'' 1), OpDisconnect ''1.1''] (demo_empty_app, []))) ''a'' = Some {}"
  using channels_without_subscribers [OF demo_empty_app_ok(1), of "[OpConnect (demo_conn ''1.1'' 1), OpDisconnect ''1.1'']"
      demo_env "[]" "''a''"] demo_empty_app_ok(2,3)
  by (auto simp: empty_hub_def is_live_def demo_defs)

section \<open>Delivery\<close>

lemma publish_remote_obs:
  "written h (publish_remote E rc appID cid event ignore tr) = written h tr"
  "attempts (publish_remote E rc appID cid event ignore tr) = attempts tr"
proof -
  have q: "quiet (\<lambda>tr. snd (GetChannelSubscriptions E rc appID cid tr))" by (rule redis_quiet)
  note r = has_remote_quiet [of E rc appID]
  have p: "written h (snd (PublishEvent E rc appID cid m tr')) = written h tr'"
    "attempts (snd (PublishEvent E rc appID cid m tr')) = attempts tr'" for m tr'
    by (simp_all add: PublishEvent_def call_defs)
  obtain x tr1 where g: "GetChannelSubscriptions E rc appID cid tr = (x, tr1)" by fastforce
  have g': "written h tr1 = written h tr" "attempts tr1 = attempts tr"
    using quietD(3) [OF q, of h tr] quietD(1) [OF q, of tr] g by simp_all
  obtain b tr2 where h: "has_remote E rc appID (case x of Inl e \<Rightarrow> [] | Inr all \<Rightarrow> all) tr1 = (b, tr2)" by fastforce
  have h': "written h tr2 = written h tr" "attempts tr2 = attempts tr"
    using quietD(3) [OF r, of h "(case x of Inl e \<Rightarrow> [] | Inr all \<Rightarrow> all)" tr1] quietD(1) [OF r, of "(case x of Inl e \<Rightarrow> [] | Inr all \<Rightarrow> all)" tr1] h g' by simp_all
  show "written h (publish_remote E rc appID cid event ignore tr) = written h tr"
    "attempts (publish_remote E rc appID cid event ignore tr) = attempts tr"
    using g g' h h' p by (simp_all add: publish_remote_def split: sum.splits bool.split option.split)
qed

lemma app_Publish_trace:
  "written h (snd (snd (app_Publish E c event ignore a tr))) = written h (snd (channel_Publish E c event ignore tr))"
  "fst (app_Publish E c event ignore a tr) = fst (channel_Publish E c event ignore tr)"
  by (simp_all add: app_Publish_def Let_def publish_remote_obs split: prod.split option.split)

lemma app_wf_sockets:
  assumes wf: "app_wf a" and c: "map_of (channels a) cid = Some c"
  shows "distinct (List.map sub_socket (subscriptions c))"
proof -
  have cw: "chan_wf c" using app_wf_channel(2) [OF wf c] .
  have i: "inj_on (\<lambda>kc. Socket (snd kc)) (set (connections a))" using wf by (simp add: app_wf_defs distinct_map)
  have "k = k' \<and> s = s'" if "(k, s) \<in> set (subscriptions c)" "(k', s') \<in> set (subscriptions c)"
    "Socket (sub_Connection s) = Socket (sub_Connection s')" for k s k' s'
  proof -
    have "(k, sub_Connection s) \<in> set (connections a)" "(k', sub_Connection s') \<in> set (connections a)"
      using app_wf_channel(3) [OF wf c] that(1,2) by (auto dest: map_of_SomeD)
    from inj_onD [OF i _ this] that(3) have "k = k'" by simp
    then show ?thesis using that(1,2) cw by (auto simp: chan_wf_def keys_def dest: eq_key_imp_eq_value)
  qed
  then have "inj_on sub_socket (set (subscriptions c))" by (auto simp: inj_on_def)
  moreover have "distinct (subscriptions c)" using cw by (simp add: chan_wf_def keys_def distinct_map)
  ultimately show ?thesis by (simp add: distinct_map)
qed

lemma app_publish_delivers:
  assumes wf: "app_wf a" and ok: "sockets_ok E" and c: "FindChannelByChannelID a cid = Inr c"
    and v: "unmarshal_any (raw_marshal (raw_Data event)) = Some v"
    and conn: "FindConnection a sid = Inr conn"
  shows "fst (app_Publish E c event ignore a tr) = None
    \<and> written (Socket conn) (snd (snd (app_Publish E c event ignore a tr))) = written (Socket conn) tr
      @ (if (cid, sid) \<in> subs_rel a \<and> sid \<noteq> ignore then [NewResponse (raw_Event event) (raw_Channel event) v] else [])"
proof -
  have m: "map_of (channels a) cid = Some c" "map_of (connections a) sid = Some conn"
    using c conn by (auto simp: FindChannelByChannelID_def FindConnection_def split: option.splits)
  have cw: "chan_wf c" using app_wf_channel(2) [OF wf m(1)] .
  note d = channel_delivers_once [OF cw ok app_wf_sockets [OF wf m(1)] v, of ignore tr]
  show ?thesis
  proof (cases "(cid, sid) \<in> subs_rel a")
    case True
    then obtain s where s: "(sid, s) \<in> set (subscriptions c)" using m by (auto simp: subs_rel_def keys_def)
    then have "sub_Connection s = conn" using app_wf_channel(3) [OF wf m(1) s] m(2) by simp
    then show ?thesis using d s True by (fastforce simp: app_Publish_trace)
  next
    case False
    have i: "inj_on (\<lambda>kc. Socket (snd kc)) (set (connections a))" using wf by (simp add: app_wf_defs distinct_map)
    have "Socket conn \<notin> set (List.map sub_socket (subscriptions c))"
    proof
      assume "Socket conn \<in> set (List.map sub_socket (subscriptions c))"
      then obtain k s where ks: "(k, s) \<in> set (subscriptions c)" "Socket (sub_Connection s) = Socket conn" by auto
      have "(k, sub_Connection s) \<in> set (connections a)" using app_wf_channel(3) [OF wf m(1) ks(1)] by (rule map_of_SomeD)
      from inj_onD [OF i _ this map_of_SomeD [OF m(2)]] ks(2) have "k = sid" by simp
      with ks(1) False m show False by (force simp: subs_rel_def keys_def)
    qed
    with d False show ?thesis by (simp add: app_Publish_trace)
  qed
qed

text \<open>
  Publishing on a channel writes the event exactly once to the socket of every connection
  that is subscribed to it and is not the one to skip, and writes nothing to any other connection.
\<close>

theorem publish_reaches_subscribers:
  assumes wf: "app_wf a" and ok: "sockets_ok E" and c: "FindChannelByChannelID a cid = Inr c"
    and v: "unmarshal_any (raw_marshal (raw_Data event)) = Some v"
    and conn: "FindConnection a sid = Inr conn"
  shows "fst (app_Publish E c event ignore a tr) = None
    \<and> written (Socket conn) (snd (snd (app_Publish E c event ignore a tr))) = written (Socket conn) tr
      @ (if (cid, sid) \<in> subs_rel a \<and> sid \<noteq> ignore then [NewResponse (raw_Event event) (raw_Channel event) v] else [])"
  by (rule app_publish_delivers [OF assms])

lemma demo_state_facts:
  obtains c conn where "FindChannelByChannelID (fst demo_state) ''a'' = Inr c"
    and "FindConnection (fst demo_state) ''2.2'' = Inr conn" and "Socket conn = 2"
    and "(''a'', ''2.2'') \<in> subs_rel (fst demo_state)"
proof -
  have h: "hub_of (fst demo_state) = fold hub_run (List.map op_kind demo_ops) empty_hub"
    unfolding demo_state_def demo_app_def by (rule run_from_empty(2) [OF demo_legal])
  then have who: "who (hub_of (fst demo_state)) = {(''2.2'', 2)}" and sub: "(''a'', ''2.2'') \<in> subscribed (hub_of (fst demo_state))"
    by (auto simp: demo_ops_def demo_defs empty_hub_def is_live_def)
  obtain conn where conn: "(''2.2'', conn) \<in> set (connections (fst demo_state))" "Socket conn = 2"
  proof -
    have "(''2.2'', 2) \<in> (\<lambda>(k, conn). (k, Socket conn)) ` set (connections (fst demo_state))"
      using who by (simp add: hub_of_def)
    then show ?thesis using that by auto
  qed
  then have "map_of (connections (fst demo_state)) ''2.2'' = Some conn"
    using demo_state_wf by (auto simp: app_wf_defs keys_def intro: map_of_is_SomeI)
  moreover obtain c where "map_of (channels (fst demo_state)) ''a'' = Some c"
    using sub by (auto simp: hub_of_def subs_rel_def)
  ultimately show ?thesis
    using that sub conn by (simp add: FindChannelByChannelID_def FindConnection_def hub_of_def)
qed

theorem publish_reaches_subscribers_witness:
  "\<exists>c. FindChannelByChannelID (fst demo_state) ''a'' = Inr c
     \<and> written 2 (snd (snd (app_Publish demo_env c demo_event [] (fst demo_state) []))) = [NewResponse ''client-a'' ''presence-a'' GNil]"
proof (rule demo_state_facts)
  fix c conn
  assume f: "FindChannelByChannelID (fst demo_state) ''a'' = Inr c" "FindConnection (fst demo_state) ''2.2'' = Inr conn"
    "Socket conn = 2" "(''a'', ''2.2'') \<in> subs_rel (fst demo_state)"
  show ?thesis
    using publish_reaches_subscribers [OF demo_state_wf demo_wf(2) f(1) demo_event_value f(2), of "[]" "[]"] f
    by (auto simp: written_simps demo_event_def)
qed

end
