(* ===== verification/App_Hooks.thy ===== *)
theory App_Hooks
  imports App_Spec
begin

text \<open>
  The web hooks of \<open>src/app/webhooks.go\<close>: which requests joining and leaving a channel make. The
  channels of an application carry the listeners the application installed when it created them,
  which post to the application's own endpoint.
\<close>

definition config_of :: "application \<Rightarrow> bool \<times> string \<times> string \<times> string" where
  "config_of a = (WebHooks a, URLWebHook a, app_Key a, app_Secret a)"

definition hook_request :: "application \<Rightarrow> gotime \<Rightarrow> hookEvent \<Rightarrow> string \<times> (string \<times> string) list \<times> string" where
  "hook_request a t event =
     (let js = marshal_webhook \<lparr>TimeMs = unix_nano t div 1000000000, wh_Events = [event]\<rparr>
      in (URLWebHook a,
          [(''User-Agent'', ''Ipe UA; (+https://github.com/dimiro1/ipe)''), (''Content-Type'', ''application/json''),
           (''X-Pusher-Key'', app_Key a), (''X-Pusher-Signature'', HashMAC js (app_Secret a))], js))"

definition hooked :: "env \<Rightarrow> application \<Rightarrow> channel \<Rightarrow> bool" where
  "hooked E a c \<longleftrightarrow> memberAddedListeners c = [TriggerMemberAddedHook E a]
     \<and> memberRemovedListeners c = [TriggerMemberRemovedHook E a]
     \<and> channelOccupiedListeners c = [\<lambda>cid s. TriggerChannelOccupiedHook E a cid]
     \<and> channelVacatedListeners c = [\<lambda>cid s. TriggerChannelVacatedHook E a cid]
     \<and> clientEventListeners c = [TriggerClientEventHook E a]"

definition hooks_ok :: "env \<Rightarrow> application \<Rightarrow> bool" where
  "hooks_ok E a \<longleftrightarrow> (\<forall>cid c. map_of (channels a) cid = Some c \<longrightarrow> hooked E a c)"

lemma triggerHook_posts:
  "urls_ok E \<Longrightarrow> posts (snd (triggerHook E a event tr)) =
     posts tr @ (if WebHooks a then [hook_request a (fst (time_now E tr)) event] else [])"
  by (simp add: triggerHook_def hook_request_def invoke_def time_now_def Let_def posts_simps urls_ok_def)

lemmas trigger_defs = TriggerChannelOccupiedHook_def TriggerChannelVacatedHook_def TriggerMemberAddedHook_def
  TriggerMemberRemovedHook_def TriggerClientEventHook_def

lemma triggerHook_config:
  "config_of a = config_of b \<Longrightarrow> triggerHook E a event tr = triggerHook E b event tr"
proof -
  assume "config_of a = config_of b"
  then have "WebHooks a = WebHooks b" "URLWebHook a = URLWebHook b" "app_Key a = app_Key b" "app_Secret a = app_Secret b"
    by (simp_all add: config_of_def)
  then show ?thesis unfolding triggerHook_def by (simp only:)
qed

lemma hooked_config:
  assumes "config_of a = config_of b"
  shows "hooked E a c = hooked E b c"
proof -
  note t = triggerHook_config [OF assms]
  have "TriggerMemberAddedHook E a = TriggerMemberAddedHook E b"
    "TriggerMemberRemovedHook E a = TriggerMemberRemovedHook E b"
    "TriggerChannelOccupiedHook E a = TriggerChannelOccupiedHook E b"
    "TriggerChannelVacatedHook E a = TriggerChannelVacatedHook E b"
    "TriggerClientEventHook E a = TriggerClientEventHook E b"
    by (simp_all add: fun_eq_iff trigger_defs t Let_def)
  then show ?thesis by (simp add: hooked_def)
qed

section \<open>The configuration does not change\<close>

lemma config_frame [frame_simps]:
  "config_of (stats_Add n d a) = config_of a"
  "config_of (count_channel c d a) = config_of a"
  "config_of (store_channel c a) = config_of a"
  "config_of (RemoveChannel c a) = config_of a"
  "config_of (a\<lparr>connections := x\<rparr>) = config_of a"
  "config_of (a\<lparr>channels := y\<rparr>) = config_of a"
  by (simp_all add: config_of_def stats_Add_def count_channel_def store_channel_def RemoveChannel_def Let_def)

lemma config_setup: "config_of (fst (setupChannelPubSub E rc cid a tr)) = config_of a"
  by (simp add: setupChannelPubSub_def config_of_def split: prod.split option.split)

lemma config_AddChannel: "config_of (fst (AddChannel E c a tr)) = config_of a"
  by (simp add: AddChannel_def Let_def config_frame split: prod.split option.split)
     (metis config_setup config_frame(6) fst_conv)

lemma config_FindOrCreate: "config_of (fst (snd (FindOrCreateChannelByChannelID E n a tr))) = config_of a"
  using config_AddChannel [of E]
  by (simp add: FindOrCreateChannelByChannelID_def split: prod.split sum.split)

lemma config_Unsubscribe: "config_of (fst (snd (app_Unsubscribe E c conn a tr))) = config_of a"
  by (simp add: app_Unsubscribe_app [OF refl] config_frame)

lemma config_disconnect_step: "config_of (fst (disconnect_step E conn cid s)) = config_of (fst s)"
  by (simp add: disconnect_step_def config_Unsubscribe split: option.split)

lemma config_disconnect_fold: "config_of (fst (fold (disconnect_step E conn) ks s)) = config_of (fst s)"
  by (induction ks arbitrary: s) (simp_all add: config_disconnect_step)

lemma config_Disconnect: "config_of (fst (app_Disconnect E sid a tr)) = config_of a"
  using config_disconnect_fold [of E]
  by (simp add: app_Disconnect_def Let_def config_frame split: prod.split sum.split) (metis fst_conv)

lemma config_run: "config_of (fst (run_op E op (a, tr))) = config_of a"
proof -
  have "config_of (fst (snd (app_Subscribe E c conn data a' tr'))) = config_of a'" for c conn data a' tr'
    by (simp add: app_Subscribe_app config_frame)
  moreover have "config_of (fst (snd (app_Publish E c event sid a' tr'))) = config_of a'" for c event sid a' tr'
    by (simp add: app_Publish_app config_frame)
  moreover have "config_of a1 = config_of a" if "FindOrCreateChannelByChannelID E n a tr = (c, a1, tr1)" for n c a1 tr1
    using config_FindOrCreate [of E n a tr] that by simp
  ultimately show ?thesis
    by (cases op) (auto simp: config_Unsubscribe config_Disconnect app_Connect_def Let_def config_frame split: prod.split sum.split)
qed

section \<open>Every channel keeps its application's hooks\<close>

lemma hooked_subscribe: "hooked E a (fst (snd (channel_Subscribe F c conn data tr))) = hooked E a c"
  by (rule channel_Subscribe_put [of F c conn data tr]) (simp add: hooked_def)

lemma hooked_unsubscribe: "hooked E a (fst (snd (channel_Unsubscribe F c conn tr))) = hooked E a c"
  by (simp add: channel_Unsubscribe_def hooked_def Let_def split: option.split)

lemma hooks_store:
  assumes "hooks_ok E a" "hooked E a c"
  shows "hooks_ok E (store_channel c a)"
proof -
  have "hooked E (store_channel c a) c'" if "map_of (channels (store_channel c a)) cid = Some c'" for cid c'
  proof -
    have "c' = c \<or> map_of (channels a) cid = Some c'"
      using that by (auto simp: store_channel_def map_of_update split: if_splits)
    then show ?thesis
      using assms hooked_config [of "store_channel c a" a E c'] by (auto simp: hooks_ok_def config_frame)
  qed
  then show ?thesis by (simp add: hooks_ok_def)
qed

lemma hooks_sub:
  assumes "hooks_ok E a" "config_of a' = config_of a" "\<And>cid c. map_of (channels a') cid = Some c \<Longrightarrow> map_of (channels a) cid = Some c"
  shows "hooks_ok E a'"
  using assms hooked_config [OF assms(2), of E] by (auto simp: hooks_ok_def)

lemma hooks_FindOrCreate:
  assumes ok: "hooks_ok E a" and r: "FindOrCreateChannelByChannelID E n a tr = (c, a1, tr1)"
  shows "hooks_ok E a1"
proof (cases "map_of (channels a) n")
  case None
  then obtain tr2 where nw: "channel_New E n (app_options E a) tr = (c, tr2)" and add: "AddChannel E c a tr2 = (a1, tr1)"
    using r by (auto simp: FindOrCreateChannelByChannelID_def FindChannelByChannelID_def split: prod.splits)
  note new = new_app_channel [OF nw]
  have fresh: "map_of (channels a) (chan_ID c) = None" using None new(1) by simp
  have cfg: "config_of a1 = config_of a" using config_AddChannel [of E c a tr2] add by simp
  have "hooked E a c" using new by (simp add: hooked_def)
  moreover have "c' = c \<or> map_of (channels a) k = Some c'" if "map_of (channels a1) k = Some c'" for k c'
    using that by (auto simp: AddChannel_result(1) [OF add fresh] map_add_def split: option.splits if_splits)
  ultimately show ?thesis using ok hooked_config [OF cfg, of E] by (fastforce simp: hooks_ok_def)
next
  case (Some c0)
  then show ?thesis using ok r by (simp add: FindOrCreate_found)
qed

lemma hooks_Unsubscribe:
  assumes ok: "hooks_ok E a" and c: "hooked E a c"
  shows "hooks_ok E (fst (snd (app_Unsubscribe E c conn a tr)))"
proof -
  let ?c1 = "fst (snd (channel_Unsubscribe E c conn tr))"
  have st: "hooks_ok E (store_channel ?c1 a)" using ok c by (intro hooks_store) (simp_all add: hooked_unsubscribe)
  then have "hooks_ok E (RemoveChannel ?c1 (store_channel ?c1 a))"
    by (rule hooks_sub) (auto simp: config_frame map_of_delete split: if_splits)
  with st show ?thesis by (simp add: app_Unsubscribe_app [OF refl])
qed

lemma hooks_disconnect_fold:
  "hooks_ok E (fst s) \<Longrightarrow> hooks_ok E (fst (fold (disconnect_step E conn) ks s))"
proof (induction ks arbitrary: s)
  case (Cons k ks)
  then have "hooks_ok E (fst (disconnect_step E conn k s))"
    by (auto simp: disconnect_step_def hooks_ok_def [of E "fst s"] intro!: hooks_Unsubscribe split: option.split)
  from Cons.IH [OF this] show ?case by simp
qed simp

lemma hooks_Disconnect:
  assumes ok: "hooks_ok E a" and wf: "app_wf a"
  shows "hooks_ok E (fst (app_Disconnect E sid a tr))"
proof (cases "map_of (connections a) sid")
  case None
  with ok show ?thesis by (simp add: app_Disconnect_def FindConnection_def)
next
  case (Some conn)
  have "hooks_ok E (fst (fold (disconnect_step E conn) (keys (channels a)) (a, tr)))"
    using hooks_disconnect_fold [of E "(a, tr)" conn] ok by simp
  then show ?thesis
    unfolding app_Disconnect_app [OF Some wf refl] by (rule hooks_sub) (simp_all add: config_frame)
qed

lemma hooks_run:
  assumes ok: "hooks_ok E a" and wf: "app_wf a"
  shows "hooks_ok E (fst (run_op E op (a, tr)))"
proof -
  have sub: "hooks_ok E (fst (snd (app_Subscribe E c conn data a1 tr1)))"
    if "FindOrCreateChannelByChannelID E n a tr = (c, a1, tr1)" for n c conn data a1 tr1
  proof -
    have h: "hooks_ok E a1" by (rule hooks_FindOrCreate [OF ok that])
    moreover have "hooked E a1 c" using h FindOrCreate_result(2) [OF wf that] by (auto simp: hooks_ok_def)
    ultimately show ?thesis by (simp add: app_Subscribe_app hooks_store hooked_subscribe)
  qed
  have pub: "hooks_ok E (fst (snd (app_Publish E c event ig a1 tr1)))" if "hooks_ok E a1" for c event ig a1 tr1
    using that by (rule hooks_sub) (simp_all add: app_Publish_app config_frame)
  have "hooks_ok E (fst (app_Connect E conn a tr))" for conn
    using ok by (rule hooks_sub) (simp_all add: app_Connect_def Let_def config_frame)
  moreover have "hooked E a c" if "FindChannelByChannelID a cid = Inr c" for cid c
    using ok that by (auto simp: hooks_ok_def FindChannelByChannelID_def split: option.splits)
  ultimately show ?thesis
    using ok sub pub hooks_FindOrCreate [OF ok] hooks_Unsubscribe [OF ok] hooks_Disconnect [OF ok wf]
    by (cases op) (auto split: prod.split sum.split)
qed

lemma hooks_empty: "hooks_ok E (empty_application n i k s o1 en u w url rc)"
  by (simp add: hooks_ok_def empty_application_def)

section \<open>What reaches the endpoint\<close>

lemma invoke_posts:
  "posts (snd (invoke E c tr)) = posts tr @ post_of (c, E tr c)"
  by (simp add: invoke_def Let_def posts_simps)

lemma redis_posts:
  "posts (snd (SubscribeToChannel E rc x y z d tr)) = posts tr"
  "posts (snd (UnsubscribeFromChannel E rc x y z tr)) = posts tr"
  "posts (snd (StorePresenceData E rc x y z u i tr)) = posts tr"
  "posts (snd (RemovePresenceData E rc x y z tr)) = posts tr"
  by (simp_all add: invoke_def time_now_def Let_def posts_simps SubscribeToChannel_def UnsubscribeFromChannel_def
      StorePresenceData_def RemovePresenceData_def)

lemma member_events_posts [obs_simps]:
  "posts (PublishMemberAddedEvent E c data sid tr) = posts tr"
  "posts (PublishMemberRemovedEvent E c s tr) = posts tr"
proof -
  have "posts (fold (\<lambda>(k, subs) tr. if k \<noteq> sid
             then snd (connection_Publish E (sub_Connection subs) m tr) else tr) xs tr) = posts tr" for xs m
    by (induction xs arbitrary: tr) (auto simp: obs_simps)
  then show "posts (PublishMemberAddedEvent E c data sid tr) = posts tr" by (simp add: PublishMemberAddedEvent_def)
  have "posts (fold (\<lambda>(k, subs) tr. snd (connection_Publish E (sub_Connection subs) m tr)) xs tr) = posts tr" for xs m
    by (induction xs arbitrary: tr) (auto simp: obs_simps)
  then show "posts (PublishMemberRemovedEvent E c s tr) = posts tr" by (simp add: PublishMemberRemovedEvent_def)
qed

text \<open>What a list of events posts, each at the time it is made; nothing when web hooks are off.\<close>

definition posted :: "application \<Rightarrow> hookEvent list \<Rightarrow> (string \<times> (string \<times> string) list \<times> string) list \<Rightarrow> bool" where
  "posted a events ps \<longleftrightarrow> (if WebHooks a
     then list_all2 (\<lambda>event p. \<exists>t. p = hook_request a t event) events ps else ps = [])"

lemma posted_Nil [simp]: "posted a [] ps \<longleftrightarrow> ps = []"
  by (simp add: posted_def)

lemma posted_append:
  "posted a es ps \<Longrightarrow> posted a es' ps' \<Longrightarrow> posted a (es @ es') (ps @ ps')"
  by (auto simp: posted_def list_all2_appendI split: if_splits)

definition posts_more :: "application \<Rightarrow> hookEvent list \<Rightarrow> trace \<Rightarrow> trace \<Rightarrow> bool" where
  "posts_more a events tr tr' \<longleftrightarrow> (\<exists>ps. posts tr' = posts tr @ ps \<and> posted a events ps)"

lemma posts_more_refl: "posts tr' = posts tr \<Longrightarrow> posts_more a [] tr tr'"
  by (simp add: posts_more_def)

lemma posts_more_trans:
  "posts_more a es tr tr1 \<Longrightarrow> posts_more a es' tr1 tr2 \<Longrightarrow> posts_more a (es @ es') tr tr2"
  unfolding posts_more_def using posted_append by (metis append_assoc)

lemma trigger_posts:
  assumes "urls_ok E"
  shows "posts_more a [newChannelOcuppiedHook cid] tr (TriggerChannelOccupiedHook E a cid tr)"
    "posts_more a [newChannelVacatedHook cid] tr (TriggerChannelVacatedHook E a cid tr)"
    "posts_more a [newMemberAddedHook cid s] tr (TriggerMemberAddedHook E a cid s tr)"
    "posts_more a [newMemberRemovedHook cid s] tr (TriggerMemberRemovedHook E a cid s tr)"
  using assms
  by (auto simp: posts_more_def posted_def trigger_defs triggerHook_posts)

lemma occupied_by_one:
  assumes "distinct (keys (subscriptions c))" "sid \<in> set (keys (subscriptions c))"
  shows "TotalSubscriptions c = 1 \<longleftrightarrow> set (keys (subscriptions c)) = {sid}"
proof -
  have "length (subscriptions c) = card (set (keys (subscriptions c)))" using length_keys [OF assms(1)] by simp
  then have t: "TotalSubscriptions c = int (card (set (keys (subscriptions c))))" by (simp add: TotalSubscriptions_def)
  show ?thesis
  proof
    assume "TotalSubscriptions c = 1"
    then have "card (set (keys (subscriptions c))) = 1" by (simp add: t)
    then obtain x where "set (keys (subscriptions c)) = {x}" by (rule card_1_singletonE)
    with assms(2) show "set (keys (subscriptions c)) = {sid}" by simp
  next
    assume "set (keys (subscriptions c)) = {sid}"
    then show "TotalSubscriptions c = 1" by (simp add: t)
  qed
qed

lemma app_Subscribe_posts:
  "posts (snd (snd (app_Subscribe E c conn data a tr))) = posts (snd (snd (channel_Subscribe E c conn data tr)))"
  by (simp add: app_Subscribe_def Let_def redis_posts split: prod.split option.split)

lemma app_Unsubscribe_posts:
  "posts (snd (snd (app_Unsubscribe E c conn a tr))) = posts (snd (snd (channel_Unsubscribe E c conn tr)))"
  by (simp add: app_Unsubscribe_def Let_def redis_posts split: prod.split option.split)

lemma notify_posts:
  assumes u: "urls_ok E" and "hooked E a c"
  shows "posts_more a (if TotalSubscriptions c = 1 then [newChannelOcuppiedHook (chan_ID c)] else []) tr (notify_occupied c s tr)"
proof -
  have "channelOccupiedListeners c = [\<lambda>cid s. TriggerChannelOccupiedHook E a cid]" using assms by (simp add: hooked_def)
  then have "notify_occupied c s tr = (if TotalSubscriptions c = 1 then TriggerChannelOccupiedHook E a (chan_ID c) tr else tr)"
    by (simp add: notify_occupied_def run_listeners_def)
  then show ?thesis
    using trigger_posts(1) [OF u, of a "chan_ID c" tr] posts_more_refl [where a = a and tr = tr and tr' = tr, OF refl]
    by (cases "TotalSubscriptions c = 1") simp_all
qed

lemma hooked_put [simp]: "hooked E a (put_subscription sid s c) = hooked E a c"
  by (simp add: hooked_def)

lemma channel_Subscribe_hooks:
  assumes u: "urls_ok E" and h: "hooked E a c" and data: "IsPresence c \<Longrightarrow> unmarshal_member data = Some (uid, info)"
    and r: "channel_Subscribe E c conn data tr = (err, c', tr')"
  shows "posts_more a ((if IsPresence c
      then [newMemberAddedHook (chan_ID c) \<lparr>sub_Connection = conn, sub_ID = uid, sub_Data = raw_marshal info\<rparr>] else [])
      @ (if TotalSubscriptions c' = 1 then [newChannelOcuppiedHook (chan_ID c)] else [])) tr tr'"
proof (cases "IsPresence c")
  case True
  let ?s = "\<lparr>sub_Connection = conn, sub_ID = uid, sub_Data = raw_marshal info\<rparr>"
  have s: "subscription_New conn data\<lparr>sub_ID := uid, sub_Data := raw_marshal info\<rparr> = ?s"
    by (simp add: subscription_New_def)
  have c': "c' = put_subscription (SocketID conn) ?s c"
    using r True data by (simp add: channel_Subscribe_def Let_def s)
  define tr1 where "tr1 = PublishMemberAddedEvent E c' data (SocketID conn) tr"
  define tr2 where "tr2 = TriggerMemberAddedHook E a (chan_ID c) ?s tr1"
  obtain tr3 where tr3: "posts tr3 = posts tr2" "tr' = notify_occupied c' ?s tr3"
  proof -
    have "tr' = notify_occupied c' ?s (snd (connection_Publish E conn (NewSubscriptionSucceeded (chan_ID c)
        (marshal_presence (NewSubscriptionSucceedPresenceData (subscriptions c')))) tr2))"
      using r True data h c' by (simp add: channel_Subscribe_def Let_def s hooked_def run_listeners_def tr1_def tr2_def)
    then show ?thesis using that [of "snd (connection_Publish E conn _ tr2)"] by (simp add: obs_simps)
  qed
  have "posts_more a [] tr tr1" by (simp add: posts_more_refl tr1_def obs_simps)
  moreover have "posts_more a [newMemberAddedHook (chan_ID c) ?s] tr1 tr2"
    unfolding tr2_def by (rule trigger_posts [OF u])
  moreover have "posts_more a [] tr2 tr3" by (simp add: posts_more_refl tr3)
  moreover have "posts_more a (if TotalSubscriptions c' = 1 then [newChannelOcuppiedHook (chan_ID c)] else []) tr3 tr'"
  proof -
    have "hooked E a c'" "chan_ID c' = chan_ID c" using h by (simp_all add: c')
    then show ?thesis using notify_posts [OF u, of a c' tr3 ?s] tr3(2) by (cases "TotalSubscriptions c' = 1") simp_all
  qed
  ultimately have "posts_more a ([] @ [newMemberAddedHook (chan_ID c) ?s] @ [] @
      (if TotalSubscriptions c' = 1 then [newChannelOcuppiedHook (chan_ID c)] else [])) tr tr'"
    by (intro posts_more_trans)
  with True show ?thesis by simp
next
  case False
  let ?tr1 = "snd (connection_Publish E conn (NewSubscriptionSucceeded (chan_ID c) ''{}'') tr)"
  have c': "c' = put_subscription (SocketID conn) (subscription_New conn data) c"
    and tr': "tr' = notify_occupied c' (subscription_New conn data) ?tr1"
    using r False by (auto simp: channel_Subscribe_def Let_def)
  have "posts_more a [] tr ?tr1" by (simp add: posts_more_refl obs_simps)
  moreover have "posts_more a (if TotalSubscriptions c' = 1 then [newChannelOcuppiedHook (chan_ID c)] else []) ?tr1 tr'"
  proof -
    have "hooked E a c'" "chan_ID c' = chan_ID c" using h by (simp_all add: c')
    then show ?thesis using notify_posts [OF u, of a c' ?tr1 "subscription_New conn data"] tr'
      by (cases "TotalSubscriptions c' = 1") simp_all
  qed
  ultimately show ?thesis using False posts_more_trans [of a "[]" tr ?tr1] by simp
qed

text \<open>
  Claim C28: a successful subscription posts \<open>member_added\<close> with the user's id if the channel is a
  presence channel, then \<open>channel_occupied\<close> if the subscriber is now the only one, each signed with the
  application's secret; with web hooks disabled nothing is posted.
\<close>

theorem hooks_of_join:
  assumes wf: "app_wf a" and ok: "hooks_ok E a" and u: "urls_ok E"
    and c: "FindChannelByChannelID a cid = Inr c" and conn: "FindConnection a sid = Inr conn"
    and data: "IsPresenceChannel cid \<Longrightarrow> unmarshal_member data = Some (uid, info)"
  shows "posts_more a
    ((if IsPresenceChannel cid
      then [newMemberAddedHook cid \<lparr>sub_Connection = conn, sub_ID = uid, sub_Data = raw_marshal info\<rparr>] else [])
     @ (if roster (fst (snd (app_Subscribe E c conn data a tr))) cid = Some {sid} then [newChannelOcuppiedHook cid] else []))
    tr (snd (snd (app_Subscribe E c conn data a tr)))"
proof -
  have m: "map_of (channels a) cid = Some c" "map_of (connections a) sid = Some conn"
    using c conn by (auto simp: FindChannelByChannelID_def FindConnection_def split: option.splits)
  have c': "map_of (channels a) (chan_ID c) = Some c" "chan_ID c = cid" "SocketID conn = sid" "chan_wf c"
    using m app_wf_channel(1,2) [OF wf m(1)] app_wf_connection [OF wf m(2)] by simp_all
  obtain err c1 tr1 where r: "channel_Subscribe E c conn data tr = (err, c1, tr1)" by (rule prod_cases3)
  have k: "set (keys (subscriptions c1)) = insert sid (set (keys (subscriptions c)))" "chan_wf c1"
    using channel_Subscribe_keys [of E c conn data tr] channel_Subscribe_wf [OF c'(4), of E conn data tr] r c' by simp_all
  have "roster (fst (snd (app_Subscribe E c conn data a tr))) cid = Some (set (keys (subscriptions c1)))"
    using roster_Subscribe [OF c'(1), of E conn data tr] k c' by simp
  then have one: "TotalSubscriptions c1 = 1 \<longleftrightarrow> roster (fst (snd (app_Subscribe E c conn data a tr))) cid = Some {sid}"
    using occupied_by_one [of c1 sid] k by (simp add: chan_wf_def)
  have "hooked E a c" using ok m by (simp add: hooks_ok_def)
  moreover have "IsPresence c = IsPresenceChannel cid" by (simp add: IsPresence_def c')
  moreover have "posts (snd (snd (app_Subscribe E c conn data a tr))) = posts tr1" by (simp add: app_Subscribe_posts r)
  ultimately show ?thesis
    using channel_Subscribe_hooks [OF u, of a c data uid info conn tr err c1 tr1] data r
    unfolding one c'(2) posts_more_def by simp
qed

text \<open>An application with web hooks, one connection, and a channel it is (or is not) subscribed to.\<close>

lemma demo_urls: "urls_ok demo_env"
  by (simp add: urls_ok_def demo_env_def succeeded_def)

definition hook_app :: "app_op \<Rightarrow> application" where
  "hook_app op = fst (fold (run_op demo_env) [OpConnect (demo_conn ''1.1'' 1), op] (fresh_app True ''http://h'' None, []))"

lemma hook_app_ok:
  assumes "op = OpPost cid event ig \<or> op = OpSubscribe cid sid data"
  shows "app_wf (hook_app op)" "hooks_ok demo_env (hook_app op)"
    "hub_of (hook_app op) = hub_run (op_kind op) \<lparr>who = {(''1.1'', 1)}, subscribed = {}\<rparr>"
proof -
  let ?ops = "[OpConnect (demo_conn ''1.1'' 1), op]"
  have legal: "legal (List.map op_kind ?ops) empty_hub"
    using assms by (auto simp: empty_hub_def demo_defs is_live_def)
  show "app_wf (hook_app op)" unfolding hook_app_def by (rule run_from_empty(1) [OF legal])
  show "hub_of (hook_app op) = hub_run (op_kind op) \<lparr>who = {(''1.1'', 1)}, subscribed = {}\<rparr>"
    unfolding hook_app_def run_from_empty(2) [OF legal] by (simp add: empty_hub_def demo_defs)
  show "hooks_ok demo_env (hook_app op)"
    unfolding hook_app_def
    by (rule run_legal_invariant [where P = "hooks_ok demo_env"])
       (use legal in \<open>simp_all add: app_wf_empty hooks_empty hub_of_empty hooks_run\<close>)
qed

lemma hook_app_conn:
  assumes "op = OpPost cid event ig \<or> op = OpSubscribe cid sid data"
  obtains conn where "FindConnection (hook_app op) ''1.1'' = Inr conn"
proof -
  have "is_live ''1.1'' (hub_of (hook_app op))"
    using hook_app_ok(3) [OF assms] assms by (auto simp: is_live_def)
  then have "''1.1'' \<in> live (hook_app op)" by simp
  then show ?thesis using that by (auto simp: live_def FindConnection_def dest: in_keysD)
qed

lemma hook_app_channel:
  assumes "roster (hook_app op) cid = Some S"
  obtains c where "FindChannelByChannelID (hook_app op) cid = Inr c" "map_of (channels (hook_app op)) cid = Some c"
    "set (keys (subscriptions c)) = S"
  using assms that by (auto simp: roster_def FindChannelByChannelID_def)

lemma hook_app_post_roster: "roster (hook_app (OpPost ''a'' demo_event [])) ''a'' = Some {}"
proof -
  obtain a1 tr1 where r: "run_op demo_env (OpConnect (demo_conn ''1.1'' 1)) (fresh_app True ''http://h'' None, []) = (a1, tr1)"
    by fastforce
  have "roster a1 ''a'' = None"
    using roster_run_others(1) [of demo_env "demo_conn ''1.1'' 1" "fresh_app True ''http://h'' None" "[]"] r
    by (simp add: roster_def empty_application_def)
  then show ?thesis
    using roster_run_post [of demo_env "''a''" demo_event "[]" a1 tr1] r by (simp add: hook_app_def del: run_op.simps)
qed

theorem hooks_of_join_witness:
  "\<exists>c conn. posts_more (hook_app (OpPost ''a'' demo_event [])) [newChannelOcuppiedHook ''a''] []
     (snd (snd (app_Subscribe demo_env c conn [] (hook_app (OpPost ''a'' demo_event [])) [])))"
proof -
  let ?a = "hook_app (OpPost ''a'' demo_event [])"
  note ok = hook_app_ok [OF disjI1 [OF refl], of "''a''" demo_event "[]"]
  obtain conn where conn: "FindConnection ?a ''1.1'' = Inr conn" by (rule hook_app_conn) blast
  obtain c where c: "FindChannelByChannelID ?a ''a'' = Inr c" "map_of (channels ?a) ''a'' = Some c" "set (keys (subscriptions c)) = {}"
    by (rule hook_app_channel [OF hook_app_post_roster])
  have sid: "SocketID conn = ''1.1''"
    using app_wf_connection [OF ok(1)] conn by (auto simp: FindConnection_def split: option.splits)
  have "roster (fst (snd (app_Subscribe demo_env c conn [] ?a []))) ''a'' = Some {''1.1''}"
    using roster_Subscribe [of ?a c demo_env conn "[]" "[]"] c app_wf_channel(1) [OF ok(1) c(2)] sid by simp
  then have "posts_more ?a [newChannelOcuppiedHook ''a''] [] (snd (snd (app_Subscribe demo_env c conn [] ?a [])))"
    using hooks_of_join [OF ok(1,2) demo_urls c(1) conn, of "[]" "[]" None "[]"]
    by (simp add: IsPresenceChannel_def)
  then show ?thesis by blast
qed

text \<open>
  Claim C29: a successful leave posts \<open>member_removed\<close> with the leaver's user id if the channel is a
  presence channel, then \<open>channel_vacated\<close> exactly if the channel disappears with its last subscriber.
\<close>

theorem hooks_of_leave:
  assumes wf: "app_wf a" and ok: "hooks_ok E a" and u: "urls_ok E"
    and c: "FindChannelByChannelID a cid = Inr c" and conn: "FindConnection a sid = Inr conn"
    and s: "map_of (subscriptions c) sid = Some s"
  shows "posts_more a
    ((if IsPresenceChannel cid then [newMemberRemovedHook cid s] else [])
     @ (if roster (fst (snd (app_Unsubscribe E c conn a tr))) cid = None then [newChannelVacatedHook cid] else []))
    tr (snd (snd (app_Unsubscribe E c conn a tr)))"
proof -
  have m: "map_of (channels a) cid = Some c" "map_of (connections a) sid = Some conn"
    using c conn by (auto simp: FindChannelByChannelID_def FindConnection_def split: option.splits)
  have c': "map_of (channels a) (chan_ID c) = Some c" "chan_ID c = cid" "SocketID conn = sid"
    using m app_wf_channel(1) [OF wf m(1)] app_wf_connection [OF wf m(2)] by simp_all
  define c1 where "c1 = c\<lparr>subscriptions := AList.delete sid (subscriptions c)\<rparr>"
  define tr1 where "tr1 = (if IsPresence c then TriggerMemberRemovedHook E a cid s (PublishMemberRemovedEvent E c1 s tr) else tr)"
  define tr2 where "tr2 = (if \<not> IsOccupied c1 then TriggerChannelVacatedHook E a cid tr1 else tr1)"
  have h: "hooked E a c" using ok m by (simp add: hooks_ok_def)
  have r: "channel_Unsubscribe E c conn tr = (None, c1, tr2)"
    using s c' h by (simp add: channel_Unsubscribe_def Let_def c1_def tr1_def tr2_def hooked_def run_listeners_def IsPresence_def)
  have sid: "sid \<in> set (keys (subscriptions c))" using s by (rule map_of_some_keys)
  have "IsOccupied c1 \<longleftrightarrow> set (keys (subscriptions c1)) \<noteq> {}" by (simp add: IsOccupied_def TotalSubscriptions_def keys_def)
  also have "\<dots> \<longleftrightarrow> set (keys (subscriptions c)) \<noteq> {sid}" using sid by (auto simp: c1_def keys_delete)
  finally have o: "IsOccupied c1 \<longleftrightarrow> roster (fst (snd (app_Unsubscribe E c conn a tr))) cid \<noteq> None"
    using roster_Unsubscribe [OF c'(1), of E conn tr] c' m sid by (simp add: leave_def roster_def)
  have "posts_more a (if IsPresenceChannel cid then [newMemberRemovedHook cid s] else []) tr tr1"
  proof (cases "IsPresenceChannel cid")
    case True
    have "posts_more a ([] @ [newMemberRemovedHook cid s]) tr tr1"
      unfolding tr1_def using True c' trigger_posts(4) [OF u]
      by (intro posts_more_trans [of a "[]" tr "PublishMemberRemovedEvent E c1 s tr"])
         (auto simp: posts_more_refl obs_simps IsPresence_def)
    with True show ?thesis by simp
  qed (simp add: tr1_def IsPresence_def c' posts_more_refl)
  moreover have "posts_more a (if \<not> IsOccupied c1 then [newChannelVacatedHook cid] else []) tr1 tr2"
    by (simp add: tr2_def trigger_posts [OF u] posts_more_refl)
  ultimately have "posts_more a ((if IsPresenceChannel cid then [newMemberRemovedHook cid s] else [])
      @ (if \<not> IsOccupied c1 then [newChannelVacatedHook cid] else [])) tr tr2"
    by (rule posts_more_trans)
  moreover have "posts (snd (snd (app_Unsubscribe E c conn a tr))) = posts tr2" by (simp add: app_Unsubscribe_posts r)
  ultimately show ?thesis unfolding posts_more_def o by simp
qed

lemma hook_app_sub_roster: "roster (hook_app (OpSubscribe ''a'' ''1.1'' [])) ''a'' = Some {''1.1''}"
proof -
  have "subs_rel (hook_app (OpSubscribe ''a'' ''1.1'' [])) = {(''a'', ''1.1'')}"
    using hook_app_ok(3) [OF disjI2 [OF refl], of "''a''" "''1.1''" "[]"] by (simp add: hub_of_def is_live_def)
  then have r: "(\<exists>S. roster (hook_app (OpSubscribe ''a'' ''1.1'' [])) ''a'' = Some S \<and> k \<in> S) \<longleftrightarrow> k = ''1.1''" for k
    using roster_subs [of "''a''" k "hook_app (OpSubscribe ''a'' ''1.1'' [])"] by simp
  obtain S where S: "roster (hook_app (OpSubscribe ''a'' ''1.1'' [])) ''a'' = Some S" using r [of "''1.1''"] by blast
  then have "S = {''1.1''}" using r by auto
  with S show ?thesis by simp
qed

theorem hooks_of_leave_witness:
  "\<exists>c conn. posts_more (hook_app (OpSubscribe ''a'' ''1.1'' [])) [newChannelVacatedHook ''a''] []
     (snd (snd (app_Unsubscribe demo_env c conn (hook_app (OpSubscribe ''a'' ''1.1'' [])) [])))"
proof -
  let ?a = "hook_app (OpSubscribe ''a'' ''1.1'' [])"
  note ok = hook_app_ok [OF disjI2 [OF refl], of "''a''" "''1.1''" "[]"]
  obtain conn where conn: "FindConnection ?a ''1.1'' = Inr conn" by (rule hook_app_conn [OF disjI2 [OF refl], of "''a''" "''1.1''" "[]"])
  obtain c where c: "FindChannelByChannelID ?a ''a'' = Inr c" "map_of (channels ?a) ''a'' = Some c" "set (keys (subscriptions c)) = {''1.1''}"
    by (rule hook_app_channel [OF hook_app_sub_roster])
  have sid: "SocketID conn = ''1.1''"
    using app_wf_connection [OF ok(1)] conn by (auto simp: FindConnection_def split: option.splits)
  have "''1.1'' \<in> set (keys (subscriptions c))" using c(3) by simp
  then obtain s where s: "map_of (subscriptions c) ''1.1'' = Some s" using in_keysD by blast
  have "roster (fst (snd (app_Unsubscribe demo_env c conn ?a []))) ''a'' = None"
    using roster_Unsubscribe [of ?a c demo_env conn "[]"] c(2) app_wf_channel(1) [OF ok(1) c(2)] sid hook_app_sub_roster
    by (simp add: leave_def)
  then have "posts_more ?a [newChannelVacatedHook ''a''] [] (snd (snd (app_Unsubscribe demo_env c conn ?a [])))"
    using hooks_of_leave [OF ok(1,2) demo_urls c(1) conn s, of "[]"] by (simp add: IsPresenceChannel_def)
  then show ?thesis by blast
qed

end
