(* ===== verification/Websockets_Inv.thy ===== *)
theory Websockets_Inv
  imports Websockets App_Hooks
begin

text \<open>
  What the handlers of \<open>src/websockets/websocket.go\<close> do to an application: each either leaves it as
  it is or performs one operation of the hub, and which one is decided by the frame, the signature
  and the state.
\<close>

section \<open>Effects\<close>

definition effect :: "hub_op \<Rightarrow> application \<Rightarrow> application \<Rightarrow> bool" where
  "effect op a a' \<longleftrightarrow> app_wf a' \<and> hub_of a' = hub_run op (hub_of a) \<and> config_of a' = config_of a"

lemma effect_talk: "app_wf a \<Longrightarrow> effect HTalk a a"
  by (simp add: effect_def)

lemma effect_connect:
  assumes "app_wf a" "fresh_connection conn a"
  shows "effect (HConnect (SocketID conn) (Socket conn)) a (fst (app_Connect E conn a tr))"
  using connect_refines [OF assms, of E tr] app_Connect_wf [OF assms, of E tr]
  by (simp add: effect_def app_Connect_def Let_def config_frame)

lemma effect_subscribe:
  assumes "app_wf a" "FindConnection a sid = Inr conn" "FindOrCreateChannelByChannelID E cid a tr = (c, a1, tr1)"
  shows "effect (HJoin cid sid) a (fst (snd (app_Subscribe E c conn data a1 tr1)))"
  using subscribe_refines [OF assms, of data] config_FindOrCreate [of E cid a tr] assms(3)
  by (simp add: effect_def app_Subscribe_app config_frame)

lemma effect_unsubscribe:
  assumes "app_wf a" "FindConnection a sid = Inr conn" "FindChannelByChannelID a cid = Inr c"
  shows "effect (HLeave cid sid) a (fst (snd (app_Unsubscribe E c conn a tr)))"
  using unsubscribe_refines [OF assms] by (simp add: effect_def config_Unsubscribe)

lemma effect_disconnect:
  "app_wf a \<Longrightarrow> effect (HDrop sid) a (fst (app_Disconnect E sid a tr))"
  by (simp add: effect_def app_Disconnect_effect(1) disconnect_refines config_Disconnect)

lemma effect_publish:
  "app_wf a \<Longrightarrow> effect HTalk a (fst (snd (app_Publish E c event ignore a tr)))"
  by (simp add: effect_def publish_refines) (simp add: app_Publish_app config_frame)

section \<open>Handlers\<close>

text \<open>The channel that a frame of connection \<open>sid\<close> may join: the frame decodes, the name is valid, and it is signed if it must be.\<close>

definition admitted :: "application \<Rightarrow> string \<Rightarrow> string \<Rightarrow> string option" where
  "admitted a sid message =
     (case (unmarshal_subscribe message, FindConnection a sid) of
        (Some e, Inr conn) \<Rightarrow>
          let cid = strings_trim_space (sd_Channel (sub_EvData e))
          in if IsChannelNameValid cid
                \<and> (case strings_to_sign conn cid (sd_ChannelData (sub_EvData e)) of
                     None \<Rightarrow> True | Some toSign \<Rightarrow> validateAuthKey (sd_Auth (sub_EvData e)) toSign a)
             then Some cid else None
      | _ \<Rightarrow> None)"

lemma handleSubscribe_effect:
  assumes "app_wf a"
  shows "case admitted a sid message of
      None \<Rightarrow> fst (handleSubscribe E peer sid message a tr) = a
    | Some cid \<Rightarrow> effect (HJoin cid sid) a (fst (handleSubscribe E peer sid message a tr))"
proof (cases "\<exists>e conn. unmarshal_subscribe message = Some e \<and> FindConnection a sid = Inr conn")
  case False
  then show ?thesis by (auto simp: admitted_def handleSubscribe_def split: option.splits sum.splits)
next
  case True
  then obtain e conn where e: "unmarshal_subscribe message = Some e" and conn: "FindConnection a sid = Inr conn" by blast
  define cid where "cid = strings_trim_space (sd_Channel (sub_EvData e))"
  define data where "data = sd_ChannelData (sub_EvData e)"
  obtain c a1 tr1 where ch: "FindOrCreateChannelByChannelID E cid a tr = (c, a1, tr1)" by (rule prod_cases3)
  obtain err a2 tr2 where s: "app_Subscribe E c conn data a1 tr1 = (err, a2, tr2)" by (rule prod_cases3)
  have "effect (HJoin cid sid) a a2" using effect_subscribe [OF assms conn ch, of data] s by simp
  then show ?thesis
    using ch s unfolding admitted_def handleSubscribe_def e conn cid_def [symmetric] data_def [symmetric] Let_def
    by (auto simp: e conn Let_def cid_def [symmetric] data_def [symmetric] split: option.splits)
qed

text \<open>The channel that a frame leaves.\<close>

definition leaves :: "application \<Rightarrow> string \<Rightarrow> string \<Rightarrow> string option" where
  "leaves a sid message =
     (case (unmarshal_unsubscribe message, FindConnection a sid) of
        (Some e, Inr conn) \<Rightarrow>
          (case FindChannelByChannelID a (uns_Channel e) of Inl e \<Rightarrow> None | Inr c \<Rightarrow> Some (uns_Channel e))
      | _ \<Rightarrow> None)"

lemma handleUnsubscribe_effect:
  assumes "app_wf a"
  shows "case leaves a sid message of
      None \<Rightarrow> fst (handleUnsubscribe E peer sid message a tr) = a
    | Some cid \<Rightarrow> effect (HLeave cid sid) a (fst (handleUnsubscribe E peer sid message a tr))"
proof (cases "\<exists>e conn c. unmarshal_unsubscribe message = Some e \<and> FindConnection a sid = Inr conn
    \<and> FindChannelByChannelID a (uns_Channel e) = Inr c")
  case False
  then show ?thesis by (auto simp: leaves_def handleUnsubscribe_def split: option.splits sum.splits)
next
  case True
  then obtain e conn c where e: "unmarshal_unsubscribe message = Some e" "FindConnection a sid = Inr conn"
    "FindChannelByChannelID a (uns_Channel e) = Inr c" by blast
  obtain err a2 tr2 where s: "app_Unsubscribe E c conn a tr = (err, a2, tr2)" by (rule prod_cases3)
  have "effect (HLeave (uns_Channel e) sid) a a2" using effect_unsubscribe [OF assms e(2,3), of E tr] s by simp
  then show ?thesis using e s by (auto simp: leaves_def handleUnsubscribe_def split: option.splits)
qed

lemma handleClientEvent_effect:
  assumes "app_wf a"
  shows "effect HTalk a (fst (handleClientEvent E peer sid message a tr))"
  using effect_publish [OF assms, of E] effect_talk [OF assms]
  by (auto simp: handleClientEvent_def Let_def split: option.split sum.split prod.split) (metis fst_conv snd_conv)+

text \<open>The operation of the hub that a frame performs.\<close>

definition frame_op :: "application \<Rightarrow> string \<Rightarrow> string \<Rightarrow> string \<Rightarrow> hub_op" where
  "frame_op a sid event message =
     (if event = ''pusher:subscribe''
      then (case admitted a sid message of None \<Rightarrow> HTalk | Some cid \<Rightarrow> HJoin cid sid)
      else if event = ''pusher:unsubscribe''
      then (case leaves a sid message of None \<Rightarrow> HTalk | Some cid \<Rightarrow> HLeave cid sid)
      else HTalk)"

lemma dispatch_effect:
  assumes wf: "app_wf a"
  shows "effect (frame_op a sid event message) a (fst (dispatch E peer sid event message a tr))"
  using handleSubscribe_effect [OF wf, where sid = sid and message = message and E = E and peer = peer and tr = tr]
    handleUnsubscribe_effect [OF wf, where sid = sid and message = message and E = E and peer = peer and tr = tr]
    handleClientEvent_effect [OF wf, where sid = sid and message = message and E = E and peer = peer and tr = tr] effect_talk [OF wf]
  by (auto simp: dispatch_def frame_op_def split: option.splits)

lemma frame_op_live:
  assumes "effect (frame_op a sid event message) a a'" "sid \<in> live a"
  shows "sid \<in> live a'"
proof -
  have "is_live sid (hub_run (frame_op a sid event message) (hub_of a)) = is_live sid (hub_of a)"
    by (auto simp: frame_op_def is_live_def split: option.split)
  then show ?thesis using assms by (simp add: effect_def flip: hub_of_live)
qed

end
