(* ===== verification/Json_Roundtrip.thy ===== *)
theory Json_Roundtrip
  imports Json
begin

text \<open>
  What \<open>json.Marshal\<close> writes, \<open>json.Unmarshal\<close> reads back: string literals, arrays, objects and
  whole values, nested up to the decoder's limit of 10000. \<open>reads d t j\<close> says that the scanner reads
  the text \<open>t\<close> as \<open>j\<close> wherever a value may stand with room for \<open>d\<close> more levels.
\<close>

section \<open>String literals\<close>

lemma byte_in_ge: "byte_in c lo hi \<Longrightarrow> 0x80 \<le> lo \<Longrightarrow> \<not> is_ascii c"
  by (auto simp: byte_in_def is_ascii_def)

lemma utf8_width_cases:
  assumes "utf8_width s = w" "w \<noteq> 0"
  shows "w \<in> {2, 3, 4}" "w \<le> length s" "\<forall>c \<in> set (take w s). \<not> is_ascii c"
proof -
  have "w \<in> {2, 3, 4} \<and> w \<le> length s \<and> (\<forall>c \<in> set (take w s). \<not> is_ascii c)"
    using assms
    by (auto simp: utf8_width_def split: list.splits if_splits intro: byte_in_ge [of _ "0x80" "0xBF", rotated] byte_in_ge)
       (auto dest!: byte_in_ge)
  then show "w \<in> {2, 3, 4}" "w \<le> length s" "\<forall>c \<in> set (take w s). \<not> is_ascii c" by auto
qed

lemma utf8_width_append:
  assumes w: "utf8_width s = w" "w \<noteq> 0"
  shows "utf8_width (take w s @ r) = w"
proof -
  note c = utf8_width_cases [OF w]
  consider a b t where "s = a # b # t" "w = 2" | a b c t where "s = a # b # c # t" "w = 3"
    | a b c d t where "s = a # b # c # d # t" "w = 4"
    using c(1,2) by (auto simp: numeral_eq_Suc Suc_le_length_iff)
  then show ?thesis
  proof cases
    case 1
    with w(1) show ?thesis by (simp add: utf8_width_def split: if_splits list.splits)
  next
    case 2
    with w(1) show ?thesis by (simp add: utf8_width_def split: if_splits list.splits)
  next
    case 3
    with w(1) show ?thesis by (simp add: utf8_width_def split: if_splits list.splits)
  qed
qed

lemma upto16: "0 \<le> d \<Longrightarrow> d < 16 \<Longrightarrow> d \<in> set [0..(15::int)]"
  by simp

lemma hex_value_lower: "0 \<le> d \<Longrightarrow> d < 16 \<Longrightarrow> hex_value (hex_lower d) = Some d"
proof -
  have "list_all (\<lambda>d. hex_value (hex_lower d) = Some d) [0..15]"
    by (simp add: upto.simps hex_lower_def hex_value_def is_digit_def)
  then show "0 \<le> d \<Longrightarrow> d < 16 \<Longrightarrow> hex_value (hex_lower d) = Some d" by (simp add: list_all_iff)
qed

lemma of_char_range: "0 \<le> (of_char c :: int)" "(of_char c :: int) < 256"
proof -
  have m: "(of_char c :: int) = of_char c mod 256" by simp
  show "0 \<le> (of_char c :: int)" by (subst m) (rule pos_mod_sign, simp)
  show "(of_char c :: int) < 256" by (subst m) (rule pos_mod_bound, simp)
qed

lemma hex4_escape:
  "hex4 (CHR ''0'' # CHR ''0'' # hex_lower (of_char c div 16) # hex_lower (of_char c mod 16) # t) = Some (of_char c)"
proof -
  have "hex_value (hex_lower (of_char c div 16)) = Some (of_char c div 16)"
    "hex_value (hex_lower (of_char c mod 16)) = Some (of_char c mod 16)"
    using of_char_range [of c] by (auto intro!: hex_value_lower)
  then show ?thesis by (simp add: hex4_def hex_value_def is_digit_def)
qed

lemma unquote_escape:
  assumes "is_ascii c"
  shows "unquote (escape_ascii c @ t) = map_option ((#) c) (unquote t)"
proof (cases "byte_in c 0 0x1F \<or> c \<in> set ''<>&''")
  case True
  have e: "utf8_encode (of_char c) = [c]" using assms by (simp add: utf8_encode_def is_ascii_def)
  have ns: "\<not> is_surrogate (of_char c)" using assms by (simp add: is_surrogate_def is_ascii_def)
  have m: "map_option ((@) [c]) x = map_option ((#) c) x" for x by (cases x) simp_all
  show ?thesis
    using True e ns hex4_escape [of c t]
    by (simp add: escape_ascii_def simple_escape_def m)
next
  case False
  then show ?thesis using assms by (auto simp: escape_ascii_def simple_escape_def)
qed

lemma unquote_rune:
  assumes "\<not> is_ascii c" "utf8_width (c # s) = w" "w \<noteq> 0"
  shows "unquote ((if take w (c # s) = [CHR 0xE2, CHR 0x80, CHR 0xA8] then [CHR 0x5C] @ ''u2028''
            else if take w (c # s) = [CHR 0xE2, CHR 0x80, CHR 0xA9] then [CHR 0x5C] @ ''u2029''
            else take w (c # s)) @ t) = map_option ((@) (take w (c # s))) (unquote t)"
proof -
  have e: "utf8_encode 0x2028 = [CHR 0xE2, CHR 0x80, CHR 0xA8]" "utf8_encode 0x2029 = [CHR 0xE2, CHR 0x80, CHR 0xA9]"
    by code_simp+
  have h: "hex4 (''2028'' @ t) = Some 0x2028" "hex4 (''2029'' @ t) = Some 0x2029"
    by (simp_all add: hex4_def hex_value_def is_digit_def)
  have ns: "\<not> is_surrogate 0x2028" "\<not> is_surrogate 0x2029" by (simp_all add: is_surrogate_def)
  obtain r where r: "take w (c # s) = c # r" using assms(3) by (cases w) simp_all
  have len: "length (c # r) = w" using utf8_width_cases(2) [OF assms(2,3)] r by (metis length_take min.absorb2)
  have wr: "utf8_width (c # r @ t) = w" using utf8_width_append [OF assms(2,3), of t] r by simp
  have nc: "c \<noteq> CHR 0x5C" "c \<noteq> CHR 0x22" "\<not> byte_in c 0 0x1F"
    using assms(1) by (auto simp: is_ascii_def byte_in_def)
  have plain: "unquote ((c # r) @ t) = map_option ((@) (c # r)) (unquote t)"
    using nc assms(1,3) wr len by (cases w) (auto simp: Let_def)
  show ?thesis
    using plain e h ns unfolding r by auto
qed

lemma unquote_quote_body:
  "utf8_valid s \<Longrightarrow> unquote (quote_body s) = Some s"
proof (induction s rule: utf8_valid.induct)
  case (2 c s)
  show ?case
  proof (cases "is_ascii c")
    case True
    then show ?thesis using 2 by (simp add: unquote_escape)
  next
    case False
    then have w: "utf8_width (c # s) \<noteq> 0" "utf8_valid (drop (utf8_width (c # s) - 1) s)"
      using 2(3) by (auto split: if_splits)
    have "take (utf8_width (c # s)) (c # s) @ drop (utf8_width (c # s) - 1) s = c # s"
      using w(1) by (cases "utf8_width (c # s)") simp_all
    then show ?thesis
      using False w 2(2) [OF False w(1) w(2)] unquote_rune [OF False refl w(1)]
      by (simp add: Let_def del: take_Suc_Cons)
  qed
qed simp

text \<open>The scanner finds the closing quote of a written literal.\<close>

lemma str_scan_plain:
  "\<forall>c \<in> set p. c \<noteq> CHR 0x22 \<and> c \<noteq> CHR 0x5C \<Longrightarrow> str_scan (p @ s) = map_option (\<lambda>(b, r). (p @ b, r)) (str_scan s)"
proof (induction p)
  case (Cons c p)
  then show ?case by (cases "str_scan s") auto
qed (cases "str_scan s"; auto)

lemma str_scan_escape:
  "str_scan (escape_ascii c @ s) = map_option (\<lambda>(b, r). (escape_ascii c @ b, r)) (str_scan s)"
proof -
  have "hex_lower d \<noteq> CHR 0x22 \<and> hex_lower d \<noteq> CHR 0x5C" if "0 \<le> d" "d < 16" for d
    using hex_value_lower [OF that] by (auto simp: hex_value_def is_digit_def)
  then have "hex_lower (of_char c div 16) \<noteq> CHR 0x22 \<and> hex_lower (of_char c div 16) \<noteq> CHR 0x5C"
    "hex_lower (of_char c mod 16) \<noteq> CHR 0x22 \<and> hex_lower (of_char c mod 16) \<noteq> CHR 0x5C"
    using of_char_range [of c] by auto
  then show ?thesis
    by (cases "str_scan s") (auto simp: escape_ascii_def)
qed

lemma not_ascii_plain: "\<not> is_ascii c \<Longrightarrow> c \<noteq> CHR 0x22 \<and> c \<noteq> CHR 0x5C"
  by (auto simp: is_ascii_def)

lemma str_scan_quote_body:
  "utf8_valid s \<Longrightarrow> str_scan (quote_body s @ CHR 0x22 # r) = Some (quote_body s, r)"
proof (induction s rule: utf8_valid.induct)
  case (2 c s)
  show ?case
  proof (cases "is_ascii c")
    case True
    then show ?thesis using 2 by (simp add: str_scan_escape)
  next
    case False
    then have w: "utf8_width (c # s) \<noteq> 0" "utf8_valid (drop (utf8_width (c # s) - 1) s)"
      using 2(3) by (auto split: if_splits)
    let ?rest = "quote_body (drop (utf8_width (c # s) - 1) s)"
    let ?r = "take (utf8_width (c # s)) (c # s)"
    have p: "\<forall>c \<in> set ?r. c \<noteq> CHR 0x22 \<and> c \<noteq> CHR 0x5C"
      using utf8_width_cases(3) [OF refl w(1)] not_ascii_plain by blast
    have u: "str_scan (CHR 0x5C # CHR ''u'' # a # b # c # d # t) = map_option (\<lambda>(x, y). (CHR 0x5C # CHR ''u'' # a # b # c # d # x, y)) (str_scan t)"
      if "\<forall>x \<in> {a, b, c, d}. x \<noteq> CHR 0x22 \<and> x \<noteq> CHR 0x5C" for a b c d t
      using that by (cases "str_scan t") auto
    have "str_scan (?rest @ CHR 0x22 # r) = Some (?rest, r)" using 2(2) [OF False w(1) w(2)] .
    then show ?thesis
      using False w(1) str_scan_plain [OF p, of "?rest @ CHR 0x22 # r"] by (simp add: Let_def u del: str_scan.simps take_Suc_Cons)
  qed
qed simp

section \<open>Reading a value\<close>

definition sep_ok :: "string \<Rightarrow> bool" where
  "sep_ok r \<longleftrightarrow> (case r of [] \<Rightarrow> True | c # s \<Rightarrow> \<not> is_word c)"

definition continue :: "outcome \<Rightarrow> string \<Rightarrow> (json \<times> string \<times> string) option" where
  "continue out r = (case out of Fail \<Rightarrow> None | Done j raw \<Rightarrow> Some (j, raw, r) | More n st \<Rightarrow> json_run r n st)"

lemma json_run_tok:
  "next_tok s = Some (t, r) \<Longrightarrow> json_run s n st = continue (json_step t n st) r"
  by (simp add: json_run.simps [of s] continue_def)

lemma json_run_more [simp]: "continue (More n st) r = json_run r n st"
  by (simp add: continue_def)

definition reads :: "nat \<Rightarrow> string \<Rightarrow> json \<Rightarrow> bool" where
  "reads d t j \<longleftrightarrow> (\<forall>st r n. (n = NeedVal \<or> n = NeedValOrEnd) \<longrightarrow> int (length st + d) \<le> 10000 \<longrightarrow> sep_ok r
     \<longrightarrow> json_run (t @ r) n st = continue (put_value j [] t st) r)"

lemma readsD:
  "reads d t j \<Longrightarrow> n = NeedVal \<or> n = NeedValOrEnd \<Longrightarrow> int (length st + d) \<le> 10000 \<Longrightarrow> sep_ok r
   \<Longrightarrow> json_run (t @ r) n st = continue (put_value j [] t st) r"
  unfolding reads_def by blast

lemma reads_mono: "reads d t j \<Longrightarrow> d \<le> d' \<Longrightarrow> reads d' t j"
  by (auto simp: reads_def)

lemma quote_tok: "utf8_valid s \<Longrightarrow> next_tok (json_quote s @ r) = Some (Tok [] (json_quote s), r)"
  by (simp add: next_tok_def json_quote_def is_ws_def is_punct_def str_scan_quote_body)

lemma quote_scalar: "utf8_valid s \<Longrightarrow> scalar (json_quote s) = Some (JStr s)"
  by (simp add: scalar_def json_quote_def unquote_quote_body)

lemma quote_not_punct:
  "json_quote s \<noteq> '']''" "json_quote s \<noteq> ''}''" "json_quote s \<noteq> ''{''" "json_quote s \<noteq> ''[''"
  by (simp_all add: json_quote_def)

lemma punct_tok: "is_punct c \<Longrightarrow> next_tok (c # r) = Some (Tok [] [c], r)"
  by (auto simp: next_tok_def is_punct_def is_ws_def)

lemma word_tok:
  assumes "list_all is_word t" "t \<noteq> []" "sep_ok r"
  shows "next_tok (t @ r) = Some (Tok [] t, r)"
proof -
  obtain c cs where t: "t = c # cs" using assms(2) by (cases t) auto
  have "takeWhile is_word (t @ r) = t" "dropWhile is_word (t @ r) = r"
    using assms by (auto simp: list_all_iff sep_ok_def split: list.splits)
  then show ?thesis
    using assms(1) unfolding t by (auto simp: next_tok_def is_word_def)
qed

lemma reads_scalar:
  assumes "\<And>r. sep_ok r \<Longrightarrow> next_tok (t @ r) = Some (Tok [] t, r)" "scalar t = Some j"
    "t \<noteq> '']''" "t \<noteq> ''{''" "t \<noteq> ''[''"
  shows "reads 0 t j"
  using assms by (auto simp: reads_def json_run_tok open_value_def)

lemma reads_quote: "utf8_valid s \<Longrightarrow> reads 0 (json_quote s) (JStr s)"
  by (intro reads_scalar quote_tok quote_scalar quote_not_punct)

lemma reads_word:
  assumes "list_all is_word t" "scalar t = Some j" "t \<noteq> []"
  shows "reads 0 t j"
proof (rule reads_scalar [OF word_tok [OF assms(1,3)] assms(2)])
  have "\<not> is_word (CHR '']'')" "\<not> is_word (CHR ''{'')" "\<not> is_word (CHR ''['')"
    by (simp_all add: is_word_def is_punct_def)
  then show "t \<noteq> '']''" "t \<noteq> ''{''" "t \<noteq> ''[''" using assms(1) by auto
qed

lemma sep_ok_simps [simp]: "sep_ok []" "sep_ok (CHR '','' # r)" "sep_ok (CHR ''}'' # r)" "sep_ok (CHR '']'' # r)"
  by (simp_all add: sep_ok_def is_word_def is_punct_def)

text \<open>The rest of an array after its first element, and of an object after its first member.\<close>

definition array_tail :: "string list \<Rightarrow> string" where
  "array_tail ts = concat (List.map (\<lambda>t. CHR '','' # t) ts) @ '']''"

lemma join_tail: "strings_join (t # ts) '','' = t @ concat (List.map (\<lambda>t. CHR '','' # t) ts)"
  by (induction ts arbitrary: t) simp_all

lemma array_tail_sep: "sep_ok (array_tail ts @ r)"
  by (cases ts) (simp_all add: array_tail_def)

lemma array_tail_reads:
  assumes "list_all2 (reads d) ts js" "int (length st + Suc d) \<le> 10000" "sep_ok r"
  shows "json_run (array_tail ts @ r) NeedSep (ArrF w ps done # st) =
    continue (put_value (JArr (rev done @ js)) w (concat (rev ps) @ array_tail ts) st) r"
  using assms
proof (induction ts arbitrary: js ps "done")
  case Nil
  then show ?case by (simp add: array_tail_def json_run_tok [OF punct_tok] is_punct_def)
next
  case (Cons t ts)
  then obtain j js' where js: "js = j # js'" "reads d t j" "list_all2 (reads d) ts js'" by (auto simp: list_all2_Cons1)
  have "json_run (array_tail (t # ts) @ r) NeedSep (ArrF w ps done # st)
      = json_run (t @ array_tail ts @ r) NeedVal (ArrF w ('','' # [] # ps) done # st)"
    by (simp add: array_tail_def json_run_tok [OF punct_tok] is_punct_def)
  also have "\<dots> = json_run (array_tail ts @ r) NeedSep (ArrF w (t # [] # '','' # [] # ps) (j # done) # st)"
    using Cons.prems(2) by (subst readsD [OF js(2)]) (simp_all add: array_tail_sep)
  also have "\<dots> = continue (put_value (JArr (rev (j # done) @ js')) w (concat (rev (t # [] # '','' # [] # ps)) @ array_tail ts) st) r"
    using Cons.prems by (intro Cons.IH [OF js(3)])
  finally show ?case by (simp add: js(1) array_tail_def)
qed

lemma reads_array:
  assumes "list_all2 (reads d) ts js"
  shows "reads (Suc d) (json_array ts) (JArr js)"
proof (unfold reads_def, intro allI impI)
  fix st :: "frame list" and r n
  assume n: "n = NeedVal \<or> n = NeedValOrEnd" and len: "int (length st + Suc d) \<le> 10000" and r: "sep_ok r"
  have op: "json_run (CHR ''['' # x) n st = json_run x NeedValOrEnd (ArrF [] [''[''] [] # st)" for x
    using n len by (auto simp: json_run_tok [OF punct_tok] is_punct_def open_value_def)
  show "json_run (json_array ts @ r) n st = continue (put_value (JArr js) [] (json_array ts) st) r"
  proof (cases ts)
    case Nil
    then show ?thesis using assms
      by (simp add: json_array_def op json_run_tok [OF punct_tok] is_punct_def)
  next
    case (Cons t ts')
    then obtain j js' where js: "js = j # js'" "reads d t j" "list_all2 (reads d) ts' js'" using assms by (auto simp: list_all2_Cons1)
    have a: "json_array ts = CHR ''['' # t @ array_tail ts'"
      by (simp add: json_array_def Cons join_tail array_tail_def del: strings_join.simps)
    have "json_run (json_array ts @ r) n st = json_run (t @ array_tail ts' @ r) NeedValOrEnd (ArrF [] [''[''] [] # st)"
      by (simp add: a op)
    also have "\<dots> = json_run (array_tail ts' @ r) NeedSep (ArrF [] (t # [] # [''['']) [j] # st)"
      using len by (subst readsD [OF js(2)]) (simp_all add: array_tail_sep)
    also have "\<dots> = continue (put_value (JArr (rev [j] @ js')) [] (concat (rev (t # [] # [''[''])) @ array_tail ts') st) r"
      using len r by (intro array_tail_reads [OF js(3)])
    finally show ?thesis by (simp add: js(1) a)
  qed
qed

definition object_tail :: "(string \<times> string) list \<Rightarrow> string" where
  "object_tail fs = concat (List.map (\<lambda>(k, t). CHR '','' # json_quote k @ CHR '':'' # t) fs) @ ''}''"

abbreviation members :: "(string \<times> string) list \<Rightarrow> json list \<Rightarrow> (string \<times> string \<times> json) list" where
  "members fs js \<equiv> List.map (\<lambda>((k, t), j). (k, t, j)) (zip fs js)"

definition field_reads :: "nat \<Rightarrow> string \<times> string \<Rightarrow> json \<Rightarrow> bool" where
  "field_reads d f j \<longleftrightarrow> utf8_valid (fst f) \<and> reads d (snd f) j"

lemma object_tail_sep: "sep_ok (object_tail fs @ r)"
  by (cases fs) (auto simp: object_tail_def)

lemma member_reads:
  assumes "field_reads d (k, t) j" "n = NeedKey \<or> n = NeedKeyOrEnd" "int (length st + Suc d) \<le> 10000" "sep_ok r"
  shows "json_run (json_quote k @ CHR '':'' # t @ r) n (ObjF w ps ms None # st) =
    json_run r NeedSep (ObjF w (t # [] # '':'' # [] # json_quote k # [] # ps) ((k, t, j) # ms) None # st)"
proof -
  have v: "utf8_valid k" "reads d t j" using assms(1) by (simp_all add: field_reads_def)
  have "json_run (json_quote k @ CHR '':'' # t @ r) n (ObjF w ps ms None # st) =
      json_run (CHR '':'' # t @ r) NeedColon (ObjF w (json_quote k # [] # ps) ms (Some k) # st)"
    using assms(2) by (auto simp: json_run_tok [OF quote_tok [OF v(1)]] quote_scalar [OF v(1)] quote_not_punct)
  also have "\<dots> = json_run (t @ r) NeedVal (ObjF w ('':'' # [] # json_quote k # [] # ps) ms (Some k) # st)"
    by (simp add: json_run_tok [OF punct_tok] is_punct_def)
  also have "\<dots> = json_run r NeedSep (ObjF w (t # [] # '':'' # [] # json_quote k # [] # ps) ((k, t, j) # ms) None # st)"
    using assms(3,4) by (subst readsD [OF v(2)]) simp_all
  finally show ?thesis .
qed

lemma object_tail_reads:
  assumes "list_all2 (field_reads d) fs js" "int (length st + Suc d) \<le> 10000" "sep_ok r"
  shows "json_run (object_tail fs @ r) NeedSep (ObjF w ps ms None # st) =
    continue (put_value (JObj (rev ms @ members fs js)) w (concat (rev ps) @ object_tail fs) st) r"
  using assms
proof (induction fs arbitrary: js ps ms)
  case Nil
  then show ?case by (simp add: object_tail_def json_run_tok [OF punct_tok] is_punct_def)
next
  case (Cons f fs)
  obtain k t where f: "f = (k, t)" by fastforce
  from Cons.prems f obtain j js' where js: "js = j # js'" "field_reads d (k, t) j" "list_all2 (field_reads d) fs js'"
    by (auto simp: list_all2_Cons1)
  have "json_run (object_tail (f # fs) @ r) NeedSep (ObjF w ps ms None # st)
      = json_run (json_quote k @ CHR '':'' # t @ object_tail fs @ r) NeedKey (ObjF w ('','' # [] # ps) ms None # st)"
    by (simp add: f object_tail_def json_run_tok [OF punct_tok] is_punct_def)
  also have "\<dots> = json_run (object_tail fs @ r) NeedSep
      (ObjF w (t # [] # '':'' # [] # json_quote k # [] # '','' # [] # ps) ((k, t, j) # ms) None # st)"
    using Cons.prems by (intro member_reads [OF js(2)]) (simp_all add: object_tail_sep)
  also have "\<dots> = continue (put_value (JObj (rev ((k, t, j) # ms) @ members fs js')) w
      (concat (rev (t # [] # '':'' # [] # json_quote k # [] # '','' # [] # ps)) @ object_tail fs) st) r"
    using Cons.prems by (intro Cons.IH [OF js(3)])
  finally show ?case by (simp add: js(1) f object_tail_def)
qed

lemma object_join_tail:
  "strings_join (List.map (\<lambda>(k, t). json_quote k @ '':'' @ t) ((k, t) # fs)) '','' @ ''}'' = json_quote k @ CHR '':'' # t @ object_tail fs"
proof -
  have "List.map (\<lambda>t. CHR '','' # t) (List.map (\<lambda>(k, t). json_quote k @ '':'' @ t) fs)
      = List.map (\<lambda>(k, t). CHR '','' # json_quote k @ CHR '':'' # t) fs" by auto
  then show ?thesis by (simp add: join_tail object_tail_def del: strings_join.simps List.map.compositionality map_map)
qed

lemma reads_object:
  assumes "list_all2 (field_reads d) fs js"
  shows "reads (Suc d) (json_object fs) (JObj (members fs js))"
proof (unfold reads_def, intro allI impI)
  fix st :: "frame list" and r n
  assume n: "n = NeedVal \<or> n = NeedValOrEnd" and len: "int (length st + Suc d) \<le> 10000" and r: "sep_ok r"
  have op: "json_run (CHR ''{'' # x) n st = json_run x NeedKeyOrEnd (ObjF [] [''{''] [] None # st)" for x
    using n len by (auto simp: json_run_tok [OF punct_tok] is_punct_def open_value_def)
  show "json_run (json_object fs @ r) n st = continue (put_value (JObj (members fs js)) [] (json_object fs) st) r"
  proof (cases fs)
    case Nil
    then show ?thesis using assms
      by (simp add: json_object_def op json_run_tok [OF punct_tok] is_punct_def)
  next
    case (Cons f fs')
    obtain k t where f: "f = (k, t)" by fastforce
    from assms Cons f obtain j js' where js: "js = j # js'" "field_reads d (k, t) j" "list_all2 (field_reads d) fs' js'"
      by (auto simp: list_all2_Cons1)
    have a: "json_object fs = CHR ''{'' # json_quote k @ CHR '':'' # t @ object_tail fs'"
      using object_join_tail [of k t fs'] by (simp add: json_object_def Cons f)
    have "json_run (json_object fs @ r) n st
        = json_run (json_quote k @ CHR '':'' # t @ object_tail fs' @ r) NeedKeyOrEnd (ObjF [] [''{''] [] None # st)"
      by (simp add: a op)
    also have "\<dots> = json_run (object_tail fs' @ r) NeedSep
        (ObjF [] (t # [] # '':'' # [] # json_quote k # [] # [''{'']) [(k, t, j)] None # st)"
      using len by (intro member_reads [OF js(2)]) (simp_all add: object_tail_sep)
    also have "\<dots> = continue (put_value (JObj (rev [(k, t, j)] @ members fs' js')) []
        (concat (rev (t # [] # '':'' # [] # json_quote k # [] # [''{''])) @ object_tail fs') st) r"
      using len r by (intro object_tail_reads [OF js(3)])
    finally show ?thesis using a by (simp add: js(1) f Cons)
  qed
qed

lemma reads_parse: "reads d t j \<Longrightarrow> int d \<le> 10000 \<Longrightarrow> json_parse t = Some j"
  using readsD [of d t j NeedVal "[]" "[]"] by (simp add: json_parse_def continue_def)

lemma reads_null: "reads 0 ''null'' JNull"
proof (rule reads_word)
  show "list_all is_word ''null''" by (simp add: is_word_def is_ws_def is_punct_def)
qed (simp_all add: scalar_def)

lemma reads_bool: "reads 0 (if b then ''true'' else ''false'') (JBool b)"
proof (rule reads_word)
  show "list_all is_word (if b then ''true'' else ''false'')" by (simp add: is_word_def is_ws_def is_punct_def)
qed (simp_all add: scalar_def)

section \<open>Numbers are words\<close>

definition number_char :: "char \<Rightarrow> bool" where
  "number_char c \<longleftrightarrow> is_digit c \<or> c \<in> set ''-+.eE''"

lemma number_char_word: "number_char c \<Longrightarrow> is_word c"
  by (auto simp: number_char_def is_digit_def is_word_def is_ws_def is_punct_def)

lemma optional_head:
  assumes "(b, t) = (case s of c # u \<Rightarrow> if P c then (True, u) else (False, s) | [] \<Rightarrow> (False, []))"
    and "\<And>c. P c \<Longrightarrow> number_char c" "list_all number_char t"
  shows "list_all number_char s"
  using assms by (auto split: list.splits if_splits)

lemma digits_head:
  assumes "list_all number_char (dropWhile is_digit s)"
  shows "list_all number_char s"
proof -
  have "list_all number_char (takeWhile is_digit s)"
    by (auto simp: list_all_iff number_char_def dest: set_takeWhileD)
  then show ?thesis using assms by (metis list_all_append takeWhile_dropWhile_id)
qed

lemma pair_ex: "\<exists>a b. (a, b) = x"
  by (cases x) simp

lemma json_number_chars:
  assumes "json_number s \<noteq> None"
  shows "list_all number_char s \<and> s \<noteq> []"
proof -
  obtain neg s1 where s1: "(neg, s1) = (case s of c # t \<Rightarrow> if c = CHR ''-'' then (True, t) else (False, s) | [] \<Rightarrow> (False, []))"
    by (rule pair_ex [THEN exE], erule exE, rule that)
  define s2 where "s2 = dropWhile is_digit s1"
  obtain dot s3 where s3: "(dot, s3) = (case s2 of c # t \<Rightarrow> if c = CHR ''.'' then (True, t) else (False, s2) | [] \<Rightarrow> (False, []))"
    by (rule pair_ex [THEN exE], erule exE, rule that)
  define s4 where "s4 = (if dot then dropWhile is_digit s3 else s3)"
  obtain ex s5 where s5: "(ex, s5) = (case s4 of c # t \<Rightarrow> if c \<in> set ''eE'' then (True, t) else (False, s4) | [] \<Rightarrow> (False, []))"
    by (rule pair_ex [THEN exE], erule exE, rule that)
  obtain eneg s6 where s6: "(eneg, s6) = (case s5 of c # t \<Rightarrow> if ex \<and> c \<in> set ''+-'' then (c = CHR ''-'', t) else (False, s5) | [] \<Rightarrow> (False, []))"
    by (rule pair_ex [THEN exE], erule exE, rule that)
  define s7 where "s7 = (if ex then dropWhile is_digit s6 else s6)"
  have ne: "s7 = [] \<and> takeWhile is_digit s1 \<noteq> []"
    using assms unfolding json_number_def s1 [symmetric] Let_def prod.case s2_def [symmetric] s3 [symmetric] s4_def [symmetric]
      s5 [symmetric] s6 [symmetric] s7_def [symmetric] by (auto split: if_splits)
  have "list_all number_char s6" using ne digits_head [of s6] by (auto simp: s7_def split: if_splits)
  then have "list_all number_char s5"
    using s6 by (auto simp: number_char_def split: list.splits if_splits)
  then have "list_all number_char s4" by (rule optional_head [OF s5, rotated]) (auto simp: number_char_def)
  then have "list_all number_char s3" using digits_head [of s3] by (auto simp: s4_def split: if_splits)
  then have "list_all number_char s2" by (rule optional_head [OF s3, rotated]) (auto simp: number_char_def)
  then have "list_all number_char s1" unfolding s2_def by (rule digits_head)
  then have "list_all number_char s" by (rule optional_head [OF s1, rotated]) (auto simp: number_char_def)
  moreover have "s \<noteq> []" using ne s1 by auto
  ultimately show ?thesis by simp
qed

lemma reads_number:
  assumes "json_number t \<noteq> None"
  shows "reads 0 t (JNum t)"
proof (rule reads_word)
  note c = json_number_chars [OF assms]
  show "list_all is_word t" using c number_char_word by (auto simp: list_all_iff)
  show "t \<noteq> []" using c by simp
  have n: "json_number ''null'' = None" "json_number ''true'' = None" "json_number ''false'' = None"
    by (simp_all add: json_number_def is_digit_def)
  have w: "t \<noteq> ''null''" "t \<noteq> ''true''" "t \<noteq> ''false''" using assms n by metis+
  obtain x xs where t: "t = x # xs" using c by (cases t) simp_all
  have "x \<noteq> CHR 0x22" using c by (auto simp: t number_char_def is_digit_def)
  then show "scalar t = Some (JNum t)" using assms w by (simp add: scalar_def t)
qed

section \<open>Whole values\<close>

fun json_of :: "gval \<Rightarrow> json" where
  "json_of GNil = JNull"
| "json_of (GBool b) = JBool b"
| "json_of (GNum f) = JNum (format_float f)"
| "json_of (GStr s) = JStr s"
| "json_of (GArr gs) = JArr (List.map json_of gs)"
| "json_of (GMap ms) = JObj (List.map (\<lambda>(k, g). (k, marshal g, json_of g)) ms)"

fun gdepth :: "gval \<Rightarrow> nat" where
  "gdepth (GArr gs) = Suc (fold max (List.map gdepth gs) 0)"
| "gdepth (GMap ms) = Suc (fold max (List.map (\<lambda>(k, g). gdepth g) ms) 0)"
| "gdepth g = 0"

text \<open>
  Strings are UTF-8, the members of a map are sorted by key, and a number is one whose text reads
  back as it (the encoder searches for such a text among its candidates).
\<close>

fun gval_ok :: "gval \<Rightarrow> bool" where
  "gval_ok (GNum f) \<longleftrightarrow> parse_float (format_float f) = Some f"
| "gval_ok (GStr s) \<longleftrightarrow> utf8_valid s"
| "gval_ok (GArr gs) \<longleftrightarrow> list_all gval_ok gs"
| "gval_ok (GMap ms) \<longleftrightarrow> sorted_wrt (<) (List.map fst ms) \<and> list_all (\<lambda>(k, g). utf8_valid k \<and> gval_ok g) ms"
| "gval_ok g \<longleftrightarrow> True"

lemma fold_max_ge: "x \<in> set xs \<Longrightarrow> x \<le> fold max xs (m :: nat)" "m \<le> fold max xs m"
proof -
  have "m \<le> fold max xs m \<and> (\<forall>x \<in> set xs. x \<le> fold max xs m)"
    by (induction xs arbitrary: m) (auto, (metis max.bounded_iff max.cobounded1)+)
  then show "x \<in> set xs \<Longrightarrow> x \<le> fold max xs m" "m \<le> fold max xs m" by auto
qed

lemma members_map:
  "members (List.map (\<lambda>(k, g). (k, marshal g)) ms) (List.map (\<lambda>(k, g). json_of g) ms) = List.map (\<lambda>(k, g). (k, marshal g, json_of g)) ms"
  by (induction ms) auto

lemma marshal_reads: "gval_ok g \<Longrightarrow> reads (gdepth g) (marshal g) (json_of g)"
proof (induction g rule: marshal.induct)
  case 1
  show ?case by (simp add: reads_null)
next
  case (2 b)
  show ?case using reads_bool [of b] by simp
next
  case (3 f)
  then have "json_number (format_float f) \<noteq> None" by (auto simp: parse_float_def split: option.splits)
  then show ?case by (simp add: reads_number)
next
  case (4 s)
  then show ?case by (simp add: reads_quote)
next
  case (5 gs)
  let ?d = "fold max (List.map gdepth gs) 0"
  have "reads ?d (marshal g) (json_of g)" if "g \<in> set gs" for g
  proof -
    have "gdepth g \<in> set (List.map gdepth gs)" "gval_ok g" using that 5(2) by (auto simp: list_all_iff)
    then show ?thesis using reads_mono [OF 5(1) [OF that] fold_max_ge(1)] by blast
  qed
  then have "list_all2 (reads ?d) (List.map marshal gs) (List.map json_of gs)"
    by (simp add: list_all2_conv_all_nth)
  then show ?case by (simp add: reads_array)
next
  case (6 ms)
  let ?d = "fold max (List.map (\<lambda>(k, g). gdepth g) ms) 0"
  have "field_reads ?d (k, marshal g) (json_of g)" if m: "(k, g) \<in> set ms" for k g
  proof -
    have "gdepth g \<in> set (List.map (\<lambda>(k, g). gdepth g) ms)" using m by force
    note d = fold_max_ge(1) [OF this]
    have ok: "gval_ok g" "utf8_valid k" using 6(2) m by (auto simp: list_all_iff)
    have "reads ?d (marshal g) (json_of g)" by (rule reads_mono [OF 6(1) [OF m refl ok(1)] d])
    then show ?thesis using ok by (simp add: field_reads_def)
  qed
  then have "list_all2 (field_reads ?d) (List.map (\<lambda>(k, g). (k, marshal g)) ms) (List.map (\<lambda>(k, g). json_of g) ms)"
    by (auto simp: list_all2_conv_all_nth case_prod_beta)
  from reads_object [OF this] show ?case by (simp add: members_map)
qed

lemma kv_insert_last: "\<forall>k' \<in> set (List.map fst m). k' < k \<Longrightarrow> kv_insert k v m = m @ [(k, v)]"
  by (induction m rule: kv_insert.induct) auto

lemma gmembers_sorted:
  assumes "sorted_wrt (<) (List.map fst (m @ ms))" "\<And>k g. (k, g) \<in> set ms \<Longrightarrow> gval_of (json_of g) = Some g"
  shows "gmembers_of (List.map (\<lambda>(k, g). (k, marshal g, json_of g)) ms) m = Some (m @ ms)"
  using assms
proof (induction ms arbitrary: m)
  case (Cons x ms)
  obtain k g where x: "x = (k, g)" by fastforce
  have "kv_insert k g m = m @ [(k, g)]"
    using Cons.prems(1) by (intro kv_insert_last) (auto simp: sorted_wrt_append x)
  moreover have "gval_of (json_of g) = Some g" using Cons.prems(2) [of k g] by (simp add: x)
  moreover have "gmembers_of (List.map (\<lambda>(k, g). (k, marshal g, json_of g)) ms) (m @ [(k, g)]) = Some ((m @ [(k, g)]) @ ms)"
  proof (rule Cons.IH)
    show "sorted_wrt (<) (List.map fst ((m @ [(k, g)]) @ ms))" using Cons.prems(1) by (simp add: x)
    show "gval_of (json_of ga) = Some ga" if "(ka, ga) \<in> set ms" for ka ga
      using Cons.prems(2) [of ka ga] that by simp
  qed
  ultimately show ?case by (simp add: x)
qed simp

lemma gvals_all: "(\<And>g. g \<in> set gs \<Longrightarrow> gval_of (json_of g) = Some g) \<Longrightarrow> gvals_of (List.map json_of gs) = Some gs"
  by (induction gs) simp_all

lemma gval_of_json_of: "gval_ok g \<Longrightarrow> gval_of (json_of g) = Some g"
proof (induction g rule: marshal.induct)
  case (5 gs)
  then show ?case by (simp add: list_all_iff gvals_all)
next
  case (6 ms)
  then have "gmembers_of (List.map (\<lambda>(k, g). (k, marshal g, json_of g)) ms) [] = Some ([] @ ms)"
    by (intro gmembers_sorted) (auto simp: list_all_iff)
  then show ?case by simp
qed simp_all

text \<open>
  Decoding what \<open>json.Marshal\<close> wrote for an interface value gives the value back, for
  every value with UTF-8 strings that is not nested deeper than the decoder's limit.
\<close>

theorem marshal_roundtrip:
  assumes "gval_ok g" "int (gdepth g) \<le> 10000"
  shows "unmarshal_any (marshal g) = Some g"
  using reads_parse [OF marshal_reads [OF assms(1)] assms(2)] gval_of_json_of [OF assms(1)]
  by (simp add: unmarshal_any_def)

theorem marshal_roundtrip_witness:
  "unmarshal_any (marshal (GMap [(''a'', GArr [GBool True, GNil]), (''b'', GStr [CHR 0x22, CHR 0x0A])]))
     = Some (GMap [(''a'', GArr [GBool True, GNil]), (''b'', GStr [CHR 0x22, CHR 0x0A])])"
  by (rule marshal_roundtrip) (simp_all add: is_ascii_def less_list_code)

section \<open>Objects decoded into structs\<close>

lemma reads_members:
  assumes "list_all2 (field_reads d) fs js" "int d < 10000"
  shows "unmarshal_members (json_object fs) = Some (members fs js)"
  using reads_parse [OF reads_object [OF assms(1)]] assms(2) by (simp add: unmarshal_members_def)

lemma field_reads_simps [simp]:
  "field_reads d (k, t) j \<longleftrightarrow> utf8_valid k \<and> reads d t j"
  by (simp add: field_reads_def)

lemma field_reads_quote: "utf8_valid k \<Longrightarrow> utf8_valid s \<Longrightarrow> field_reads d (k, json_quote s) (JStr s)"
  using reads_mono [OF reads_quote, of s d] by simp

lemma is_ascii_literal: "utf8_valid ''event''" "utf8_valid ''data''" "utf8_valid ''channel''" "utf8_valid ''auth''"
  "utf8_valid ''channel_data''" "utf8_valid ''socket_id''" "utf8_valid ''ignore_id''" "utf8_valid ''instance_id''"
  "utf8_valid ''app_id''" "utf8_valid ''created_at''" "utf8_valid ''subscribed_at''" "utf8_valid ''channel_id''"
  "utf8_valid ''name''" "utf8_valid ''events''" "utf8_valid ''user_id''" "utf8_valid ''code''" "utf8_valid ''message''" "utf8_valid ''time_ms''"
  "utf8_valid ''activity_timeout''" "utf8_valid ''presence''" "utf8_valid ''ids''" "utf8_valid ''hash''" "utf8_valid ''count''"
  by (simp_all add: is_ascii_def)

text \<open>None of the names of the structs' fields is another up to case.\<close>

definition field_names :: "string list" where
  "field_names = [''event'', ''data'', ''channel'', ''auth'', ''channel_data'', ''socket_id'', ''ignore_id'',
     ''instance_id'', ''app_id'', ''created_at'', ''subscribed_at'', ''channel_id'', ''name'', ''events'', ''user_id'',
     ''code'', ''message'', ''time_ms'', ''activity_timeout'', ''presence'', ''ids'', ''hash'', ''count'']"

lemma field_names_distinct: "distinct (List.map fold_name field_names)"
  by code_simp

lemma field_matches_names:
  assumes "n \<in> set field_names" "k \<in> set field_names"
  shows "field_matches n k \<longleftrightarrow> k = n"
proof -
  have "inj_on fold_name (set field_names)" using field_names_distinct by (simp add: distinct_map)
  then show ?thesis using assms by (auto simp: field_matches_def inj_on_def)
qed

end
