(* ===== verification/Wire.thy ===== *)
theory Wire
  imports Json_Roundtrip Redis
begin

text \<open>
  Round trips of what crosses a wire: the frames of clients and the events between
  instances.
\<close>

named_theorems wire_simps \<open>reading the members of an encoded struct\<close>

lemma string_field_simps [wire_simps]:
  "string_field n [] old = Some old"
  "string_field n ((k, raw, j) # ms) old =
     (if field_matches n k then (case decode_string old j of None \<Rightarrow> None | Some v \<Rightarrow> string_field n ms v)
      else string_field n ms old)"
  by (cases "decode_string old j"; simp add: string_field_def)+

declare utf8_valid.simps [simp del] is_ascii_literal [simp]

lemma field_names_simps [wire_simps]:
  "n \<in> set field_names \<Longrightarrow> k \<in> set field_names \<Longrightarrow> field_matches n k = (k = n)"
  by (rule field_matches_names)

lemma in_field_names [wire_simps]:
  "''event'' \<in> set field_names" "''data'' \<in> set field_names" "''channel'' \<in> set field_names"
  "''auth'' \<in> set field_names" "''channel_data'' \<in> set field_names" "''socket_id'' \<in> set field_names"
  "''ignore_id'' \<in> set field_names" "''instance_id'' \<in> set field_names" "''app_id'' \<in> set field_names"
  "''created_at'' \<in> set field_names" "''subscribed_at'' \<in> set field_names" "''channel_id'' \<in> set field_names"
  "''name'' \<in> set field_names" "''events'' \<in> set field_names" "''user_id'' \<in> set field_names"
  "''code'' \<in> set field_names" "''message'' \<in> set field_names" "''time_ms'' \<in> set field_names"
  "''activity_timeout'' \<in> set field_names" "''presence'' \<in> set field_names" "''ids'' \<in> set field_names"
  "''hash'' \<in> set field_names" "''count'' \<in> set field_names"
  by (simp_all add: field_names_def)

lemma object_members:
  assumes "list_all2 (field_reads d) fs js" "int d < 10000"
  shows "unmarshal_members (json_object fs) = Some (members fs js)"
    "reads (Suc d) (json_object fs) (JObj (members fs js))"
  using reads_members [OF assms] reads_object [OF assms(1)] by simp_all

definition omitted :: "string \<Rightarrow> string \<Rightarrow> json list" where
  "omitted name s = (if s = [] then [] else [JStr s])"

lemma omit_reads [simp]:
  "utf8_valid name \<Longrightarrow> utf8_valid s \<Longrightarrow> list_all2 (field_reads d) (omitempty name s) (omitted name s)"
  by (simp add: omitempty_def omitted_def field_reads_quote del: field_reads_simps)

section \<open>Frames of clients\<close>

lemma subscribe_data_reads:
  assumes "utf8_valid c" "utf8_valid a" "utf8_valid d"
  shows "reads 1 (json_object ((''channel'', json_quote c) # omitempty ''auth'' a @ omitempty ''channel_data'' d))
    (JObj (members ((''channel'', json_quote c) # omitempty ''auth'' a @ omitempty ''channel_data'' d)
       (JStr c # omitted ''auth'' a @ omitted ''channel_data'' d)))"
proof -
  have "list_all2 (field_reads 0) ((''channel'', json_quote c) # omitempty ''auth'' a @ omitempty ''channel_data'' d)
      (JStr c # omitted ''auth'' a @ omitted ''channel_data'' d)"
    using assms by (simp add: reads_quote list_all2_appendI)
  from object_members(2) [OF this] show ?thesis by simp
qed

lemma subscribe_roundtrip:
  assumes "utf8_valid ev" "utf8_valid c" "utf8_valid a" "utf8_valid d"
  shows "unmarshal_subscribe (marshal_subscribe \<lparr>sub_Event = ev, sub_EvData = \<lparr>sd_Channel = c, sd_Auth = a, sd_ChannelData = d\<rparr>\<rparr>)
      = Some \<lparr>sub_Event = ev, sub_EvData = \<lparr>sd_Channel = c, sd_Auth = a, sd_ChannelData = d\<rparr>\<rparr>"
proof -
  let ?fs = "(''channel'', json_quote c) # omitempty ''auth'' a @ omitempty ''channel_data'' d"
  let ?js = "JStr c # omitted ''auth'' a @ omitted ''channel_data'' d"
  have "list_all2 (field_reads 1) [(''event'', json_quote ev), (''data'', json_object ?fs)] [JStr ev, JObj (members ?fs ?js)]"
    using assms subscribe_data_reads [OF assms(2,3,4)] reads_mono [OF reads_quote, of ev 1] by simp
  from object_members(1) [OF this] show ?thesis
    by (simp add: unmarshal_subscribe_def marshal_subscribe_def decode_subscribe_data_def omitempty_def omitted_def wire_simps)
qed

lemma unsubscribe_roundtrip:
  assumes "utf8_valid ev" "utf8_valid c"
  shows "unmarshal_unsubscribe (marshal_unsubscribe \<lparr>uns_Event = ev, uns_Channel = c\<rparr>) = Some \<lparr>uns_Event = ev, uns_Channel = c\<rparr>"
proof -
  have "list_all2 (field_reads 0) [(''channel'', json_quote c)] [JStr c]"
    using assms by (simp add: reads_quote)
  from object_members(2) [OF this]
  have "list_all2 (field_reads 1) [(''event'', json_quote ev), (''data'', json_object [(''channel'', json_quote c)])]
      [JStr ev, JObj [(''channel'', json_quote c, JStr c)]]"
    using assms reads_mono [OF reads_quote, of ev 1] by simp
  from object_members(1) [OF this] show ?thesis
    by (simp add: unmarshal_unsubscribe_def marshal_unsubscribe_def decode_unsubscribe_data_def wire_simps)
qed

text \<open>
  The server decodes the frames that the events package encodes: a \<open>Subscribe\<close> or an
  \<open>Unsubscribe\<close> with UTF-8 fields comes back as it was.
\<close>

theorem frames_roundtrip:
  assumes "utf8_valid (sub_Event e)" "utf8_valid (sd_Channel (sub_EvData e))"
    and "utf8_valid (sd_Auth (sub_EvData e))" "utf8_valid (sd_ChannelData (sub_EvData e))"
    and "utf8_valid (uns_Event u)" "utf8_valid (uns_Channel u)"
  shows "unmarshal_subscribe (marshal_subscribe e) = Some e \<and> unmarshal_unsubscribe (marshal_unsubscribe u) = Some u"
  using subscribe_roundtrip [OF assms(1-4)] unsubscribe_roundtrip [OF assms(5,6)]
  by (cases "sub_EvData e", cases e, cases u) simp

theorem frames_roundtrip_witness:
  "unmarshal_subscribe (marshal_subscribe (NewSubscribe ''a'' [] ''{}'')) = Some (NewSubscribe ''a'' [] ''{}'')
   \<and> unmarshal_unsubscribe (marshal_unsubscribe (NewUnsubscribe ''a'')) = Some (NewUnsubscribe ''a'')"
  by (rule frames_roundtrip) (simp_all add: NewSubscribe_def NewUnsubscribe_def is_ascii_def utf8_valid.simps)

section \<open>Events between instances\<close>

lemma event_message_back:
  assumes "utf8_valid (em_Event m)" "utf8_valid (em_Channel m)" "utf8_valid (em_SocketID m)" "utf8_valid (em_IgnoreID m)"
    and "gval_ok (em_Data m)" "int (gdepth (em_Data m)) < 10000"
  shows "unmarshal_event_message (marshal_event_message m) = Some m"
proof -
  have v: "reads (gdepth (em_Data m)) (marshal (em_Data m)) (json_of (em_Data m))" by (rule marshal_reads [OF assms(5)])
  have q: "utf8_valid s \<Longrightarrow> reads d (json_quote s) (JStr s)" for s d using reads_mono [OF reads_quote, of s d] by simp
  have "list_all2 (field_reads (gdepth (em_Data m)))
      ([(''event'', json_quote (em_Event m)), (''channel'', json_quote (em_Channel m)), (''data'', marshal (em_Data m))] @
        omitempty ''socket_id'' (em_SocketID m) @ omitempty ''ignore_id'' (em_IgnoreID m))
      ([JStr (em_Event m), JStr (em_Channel m), json_of (em_Data m)] @ omitted ''socket_id'' (em_SocketID m) @ omitted ''ignore_id'' (em_IgnoreID m))"
    using assms v q by (intro list_all2_appendI) simp_all
  from object_members(1) [OF this assms(6)] show ?thesis
    using gval_of_json_of [OF assms(5)]
    by (simp add: unmarshal_event_message_def marshal_event_message_def decode_any_def omitempty_def omitted_def wire_simps)
qed

definition demo_message :: EventMessage where
  "demo_message = \<lparr>em_Event = ''client-x'', em_Channel = ''private-a'', em_Data = GArr [GStr ''hi''], em_SocketID = [], em_IgnoreID = ''1.1''\<rparr>"

lemma demo_message_back:
  "unmarshal_event_message (marshal_event_message demo_message) = Some demo_message"
  by (rule event_message_back) (simp_all add: demo_message_def is_ascii_def utf8_valid.simps)

end

