(* ===== verification/Websockets_Spec.thy ===== *)
theory Websockets_Spec
  imports Websockets_Inv Wire
begin

text \<open>
  The properties of the websocket endpoint: the handshake, authorisation over whole histories, the
  life of a connection, and two behaviours of the read loop and of client events that the code's
  error messages deny.
\<close>

section \<open>One frame\<close>

text \<open>
  Claim C24: whatever the socket answers, sending a frame either arms the deadline, writes the frame
  once, disarms the deadline and reports no error, or it reports an error and the last thing done is
  to close the socket; the frame is handed to the socket only after the deadline was armed.
\<close>

theorem frame_protocol:
  "case connection_Publish E conn m tr of
     (None, tr') \<Rightarrow> \<exists>t r1 r2 r3. succeeded r1 \<and> succeeded r2 \<and> succeeded r3
       \<and> tr' = [(SetWriteDeadline (Socket conn) None, r3), (WriteJSON (Socket conn) m, r2),
                 (SetWriteDeadline (Socket conn) (Some (unix_nano (fst (time_now E tr)) + 10000000000)), r1), (TimeNow, t)] @ tr
   | (Some e, tr') \<Rightarrow> \<exists>r earlier. tr' = (CloseSocket (Socket conn), r) # earlier
       \<and> (written (Socket conn) earlier \<noteq> written (Socket conn) tr \<longrightarrow>
            e \<noteq> ErrSetDeadline \<and> written (Socket conn) earlier = written (Socket conn) tr @ [m])"
  by (auto simp: connection_Publish_def writeMessage_def invoke_def time_now_def Let_def WriteWait_def written_simps
      split: reply.split)

theorem frame_protocol_witness:
  "\<exists>e tr' r earlier. connection_Publish (\<lambda>tr c. if c = SetWriteDeadline 1 None then RErr else ROk) (demo_conn ''1.1'' 1) NewPong [] = (Some e, tr')
     \<and> tr' = (CloseSocket 1, r) # earlier \<and> written 1 earlier = [NewPong]"
proof -
  let ?E = "\<lambda>tr c. if c = SetWriteDeadline 1 None then RErr else ROk"
  obtain e tr' where p: "connection_Publish ?E (demo_conn ''1.1'' 1) NewPong [] = (Some e, tr')" "written 1 (tl tr') = [NewPong]"
    by (simp add: connection_Publish_def write_defs succeeded_def demo_conn_def written_simps)
  then show ?thesis
    using frame_protocol [where E = ?E and conn = "demo_conn ''1.1'' 1" and m = NewPong and tr = "[]"]
    by (auto simp: demo_conn_def)
qed

section \<open>The handshake\<close>

lemma connection_Publish_ok_written:
  "connection_Publish E conn m tr = (None, tr') \<Longrightarrow> written (Socket conn) tr' = written (Socket conn) tr @ [m]"
  by (auto simp: connection_Publish_def writeMessage_def invoke_def time_now_def Let_def written_simps split: reply.splits if_splits)

lemma connection_New_result:
  "connection_New E sid sock tr = (conn, tr1) \<Longrightarrow> SocketID conn = sid \<and> Socket conn = sock \<and> written h tr1 = written h tr"
  by (auto simp: connection_New_def Let_def time_now_def invoke_def written_simps)

lemma app_Connect_written: "written h (snd (app_Connect E conn a tr)) = written h tr"
  using redis_quiet_simps(19) by (simp add: app_Connect_def Let_def redis_quiet_simps split: option.split)

definition handshake_ok :: "ws_request \<Rightarrow> application \<Rightarrow> bool" where
  "handshake_ok r a \<longleftrightarrow> strings_trim_space (wr_Protocol r) \<noteq> [] \<and> strconv_atoi (wr_Protocol r) = Some 7
     \<and> app_Enabled a \<and> (OnlySSL a \<longrightarrow> wr_TLS r)"

lemma onOpen_accept:
  assumes "handshake_ok r a" "connection_New E sid sock tr = (conn, tr1)" "app_Connect E conn a tr1 = (a1, tr2)"
  shows "onOpen E sock r sid a tr = (case connection_Publish E conn (NewConnectionEstablished (SocketID conn)) tr2 of
      (None, tr3) \<Rightarrow> (None, a1, tr3)
    | (Some e, tr3) \<Rightarrow> (let (a2, tr4) = app_Disconnect E sid a1 tr3 in (Some reconnectImmediately, a2, tr4)))"
  using assms by (auto simp: onOpen_def handshake_ok_def supportedProtocolVersion_def)

lemma onOpen_refuse:
  assumes "\<not> handshake_ok r a"
  shows "\<exists>err. onOpen E sock r sid a tr = (Some err, a, tr) \<and> 4000 \<le> we_Code err \<and> we_Code err \<le> 4099"
  using assms
  by (auto simp: onOpen_def handshake_ok_def supportedProtocolVersion_def noProtocolVersionSupplied_def applicationDisabled_def
      invalidVersionStringFormat_def unsupportedProtocolVersion_def applicationOnlyAcceptsSSL_def split: option.split)

lemma onOpen_handshake:
  assumes wf: "app_wf a" and fresh: "sid \<notin> live a" "sock \<notin> (\<lambda>kc. Socket (snd kc)) ` set (connections a)"
    and run: "onOpen E sock r sid a tr = (err, a', tr')"
  shows "app_wf a' \<and>
    (if err = None
     then handshake_ok r a \<and> hub_of a' = hub_run (HConnect sid sock) (hub_of a)
       \<and> written sock tr' = written sock tr @ [NewConnectionEstablished sid]
     else hub_of a' = hub_of a \<and> Stats a' ''TotalConnections'' = Stats a ''TotalConnections'')"
proof (cases "handshake_ok r a")
  case False
  then show ?thesis using onOpen_refuse [OF False, of E sock sid tr] run wf by auto
next
  case True
  obtain conn tr1 where n: "connection_New E sid sock tr = (conn, tr1)" by fastforce
  obtain a1 tr2 where co: "app_Connect E conn a tr1 = (a1, tr2)" by fastforce
  have c: "SocketID conn = sid" "Socket conn = sock" "written sock tr1 = written sock tr"
    using connection_New_result [OF n] by simp_all
  have f: "fresh_connection conn a" using fresh c by (simp add: fresh_connection_def)
  have a1: "app_wf a1" "hub_of a1 = hub_run (HConnect sid sock) (hub_of a)" "written sock tr2 = written sock tr"
    using effect_connect [OF wf f, of E tr1] co c app_Connect_written [of sock E conn a tr1] by (simp_all add: effect_def)
  obtain e tr3 where p: "connection_Publish E conn (NewConnectionEstablished (SocketID conn)) tr2 = (e, tr3)" by fastforce
  show ?thesis
  proof (cases e)
    case None
    then have "written sock tr3 = written sock tr2 @ [NewConnectionEstablished sid]"
      using connection_Publish_ok_written [of E conn _ tr2 tr3] p c by simp
    then show ?thesis using onOpen_accept [OF True n co] p None run a1 True by auto
  next
    case (Some x)
    obtain a2 tr4 where d: "app_Disconnect E sid a1 tr3 = (a2, tr4)" by fastforce
    then have a': "err = Some reconnectImmediately" "a' = a2" using onOpen_accept [OF True n co] p Some run by auto
    have e2: "app_wf a2" "hub_of a2 = hub_run (HDrop sid) (hub_of a1)"
      using effect_disconnect [OF a1(1), of sid E tr3] d by (simp_all add: effect_def)
    have "(cid, sid) \<notin> subs_rel a" for cid using subs_live [OF wf] fresh(1) by blast
    moreover have "\<not> is_live sid (hub_of a)" using fresh(1) by simp
    ultimately have h: "hub_of a2 = hub_of a"
      unfolding e2(2) a1(2) by (auto simp: hub_of_def is_live_def image_iff)
    have "length (connections a2) = length (connections a)"
      using disconnect_connections [OF a1(1), of E sid tr3] d co c fresh(1) app_Connect_fields(1) [of E conn a tr1]
      by (simp add: live_def update_fresh AList.delete_eq filter_id_conv keys_def) (metis (mono_tags, lifting) case_prod_beta' filter_id_conv image_eqI)
    then show ?thesis using a' e2 h wf by (simp add: app_wf_def stats_ok_def)
  qed
qed

text \<open>
  A connection that is taken back before it subscribed to anything leaves the application as it was,
  its counter included, and the command that ends its registration is the last call made.
\<close>

lemma connect_undone:
  assumes wf: "app_wf a" and fresh: "SocketID conn \<notin> live a"
    and co: "app_Connect E conn a tr = (a1, tr1)" and d: "app_Disconnect E (SocketID conn) a1 tr2 = (a2, tr3)"
  shows "a2 = a" "redisClient a = Some rc \<Longrightarrow> \<exists>reply. tr3 = (RedisDel (connection_key (AppID a) (SocketID conn)), reply) # tr2"
proof -
  have none: "map_of (connections a) (SocketID conn) = None" using fresh by (simp add: live_def map_of_None_keys)
  have a1: "a1 = stats_Add ''TotalConnections'' 1 (a\<lparr>connections := connections a @ [(SocketID conn, conn)]\<rparr>)"
    using co fresh by (simp add: app_Connect_def live_def update_fresh map_of_None_keys)
  have found: "map_of (connections a1) (SocketID conn) = Some conn" using none by (simp add: a1 stats_Add_def map_add_def)
  have "SocketID conn \<notin> set (keys (subscriptions c))" if "map_of (channels a) cid = Some c" for cid c
    using subs_live [OF wf] fresh that by (auto simp: subs_rel_def)
  then have "map_of (channels a) cid = Some c \<Longrightarrow> \<not> IsSubscribed c conn" for cid c
    by (fastforce simp: IsSubscribed_def map_of_None_keys)
  then have step: "disconnect_step E conn cid (a1, t) = (a1, t)" for cid t
    by (simp add: disconnect_step_def a1 stats_Add_def split: option.split)
  have "fold (disconnect_step E conn) cs (a1, t) = (a1, t)" for cs t by (induction cs) (simp_all add: step)
  then have res: "a2 = stats_Add ''TotalConnections'' (-1) (a1\<lparr>connections := AList.delete (SocketID conn) (connections a1)\<rparr>)"
    "tr3 = (case redisClient a1 of Some rc \<Rightarrow> snd (UnregisterConnection E rc (AppID a1) (SocketID conn) tr2) | None \<Rightarrow> tr2)"
    using d found by (simp_all add: app_Disconnect_def FindConnection_def Let_def)
  have "AList.delete (SocketID conn) (connections a @ [(SocketID conn, conn)]) = connections a"
    using fresh by (force simp: AList.delete_eq live_def keys_def filter_id_conv)
  then show "a2 = a" unfolding res(1) by (simp add: a1 stats_Add_def)
  show "redisClient a = Some rc \<Longrightarrow> \<exists>reply. tr3 = (RedisDel (connection_key (AppID a) (SocketID conn)), reply) # tr2"
    using res(2) by (simp add: a1 stats_Add_def UnregisterConnection_def invoke_def Let_def)
qed

lemma onOpen_refused:
  assumes wf: "app_wf a" and fresh: "sid \<notin> live a" and run: "onOpen E sock r sid a tr = (Some err, a', tr')"
  shows "a' = a \<and>
    (if handshake_ok r a
     then err = reconnectImmediately
       \<and> (\<forall>rc. redisClient a = Some rc \<longrightarrow> (\<exists>reply earlier. tr' = (RedisDel (connection_key (AppID a) sid), reply) # earlier))
     else tr' = tr \<and> 4000 \<le> we_Code err \<and> we_Code err \<le> 4099)"
proof (cases "handshake_ok r a")
  case False
  then show ?thesis using onOpen_refuse [OF False, of E sock sid tr] run by auto
next
  case True
  obtain conn tr1 where n: "connection_New E sid sock tr = (conn, tr1)" by fastforce
  obtain a1 tr2 where co: "app_Connect E conn a tr1 = (a1, tr2)" by fastforce
  obtain e tr3 where p: "connection_Publish E conn (NewConnectionEstablished (SocketID conn)) tr2 = (e, tr3)" by fastforce
  obtain a2 tr4 where d: "app_Disconnect E sid a1 tr3 = (a2, tr4)" by fastforce
  have s: "SocketID conn = sid" using connection_New_result [OF n] by simp
  have "err = reconnectImmediately" "a' = a2" "tr' = tr4"
    using onOpen_accept [OF True n co] p d run by (auto split: option.splits)
  then show ?thesis using connect_undone [OF wf _ co, of tr3 a2 tr4] fresh d s True by auto
qed

text \<open>
  Claim C12: the handshake succeeds only for protocol 7 on an enabled application, over TLS when the
  application demands it; then exactly this connection is added and its client was sent
  \<open>connection_established\<close> with its socket id. A refused handshake leaves the application exactly as it
  was (connections, channels, counters) and asks nothing of the environment; so does one whose greeting
  cannot be written, where the last thing asked is that Redis forget the connection.
\<close>

theorem handshake:
  assumes wf: "app_wf a" and fresh: "sid \<notin> live a" "sock \<notin> (\<lambda>kc. Socket (snd kc)) ` set (connections a)"
    and run: "onOpen E sock r sid a tr = (err, a', tr')"
  shows "app_wf a' \<and>
    (case err of
       None \<Rightarrow> handshake_ok r a \<and> hub_of a' = hub_run (HConnect sid sock) (hub_of a)
         \<and> written sock tr' = written sock tr @ [NewConnectionEstablished sid]
     | Some e \<Rightarrow> a' = a \<and>
         (if handshake_ok r a
          then e = reconnectImmediately
            \<and> (\<forall>rc. redisClient a = Some rc \<longrightarrow> (\<exists>reply earlier. tr' = (RedisDel (connection_key (AppID a) sid), reply) # earlier))
          else tr' = tr \<and> 4000 \<le> we_Code e \<and> we_Code e \<le> 4099))"
proof (cases err)
  case None
  then show ?thesis using onOpen_handshake [OF assms] by simp
next
  case (Some e)
  then show ?thesis using onOpen_refused [OF wf fresh(1), of E sock r tr e a' tr'] run wf by auto
qed

definition demo_request :: ws_request where
  "demo_request = \<lparr>wr_Key = ''key'', wr_Protocol = ''7'', wr_TLS = False\<rparr>"

lemma demo_protocol: "strconv_atoi ''7'' = Some 7" "strings_trim_space ''7'' = ''7''"
proof -
  show "strconv_atoi ''7'' = Some 7" using strconv_atoi_udec [of 7] by (simp add: udec.simps digit_char_def)
  show "strings_trim_space ''7'' = ''7''" by code_simp
qed

lemma handshake_succeeds:
  assumes "handshake_ok r a" "sockets_ok E"
  shows "fst (onOpen E sock r sid a tr) = None"
proof -
  obtain conn tr1 where n: "connection_New E sid sock tr = (conn, tr1)" by fastforce
  obtain a1 tr2 where co: "app_Connect E conn a tr1 = (a1, tr2)" by fastforce
  have "fst (connection_Publish E conn (NewConnectionEstablished (SocketID conn)) tr2) = None"
    using assms(2) by (simp add: connection_Publish_def writeMessage_error_iff)
  then show ?thesis by (auto simp: onOpen_accept [OF assms(1) n co] split: prod.split option.split)
qed

text \<open>An application with a Redis client, and an environment in which no frame can be written.\<close>

definition redis_app :: application where
  "redis_app = demo_app\<lparr>redisClient := Some \<lparr>instanceID = ''i1'', isCluster = False\<rparr>\<rparr>"

definition deaf_env :: env where
  "deaf_env tr c = (case c of WriteJSON h m \<Rightarrow> RErr | _ \<Rightarrow> ROk)"

theorem handshake_witness:
  "written 1 (snd (snd (onOpen demo_env 1 demo_request ''1.1'' demo_app []))) = [NewConnectionEstablished ''1.1'']
   \<and> (\<exists>reply earlier. onOpen deaf_env 1 demo_request ''1.1'' redis_app []
        = (Some reconnectImmediately, redis_app, (RedisDel (connection_key ''1'' ''1.1''), reply) # earlier))"
proof
  obtain err a' tr' where r: "onOpen demo_env 1 demo_request ''1.1'' demo_app [] = (err, a', tr')" by (rule prod_cases3)
  have "handshake_ok demo_request demo_app"
    by (simp add: handshake_ok_def demo_request_def demo_protocol demo_app_def empty_application_def)
  then have "err = None" using handshake_succeeds [OF _ demo_wf(2), of demo_request demo_app 1 "''1.1''" "[]"] r by simp
  then show "written 1 (snd (snd (onOpen demo_env 1 demo_request ''1.1'' demo_app []))) = [NewConnectionEstablished ''1.1'']"
    using handshake [OF _ _ _ r] r
    by (simp add: demo_app_def app_wf_empty) (simp add: empty_application_def live_def keys_def written_simps)
next
  obtain err a' tr' where r: "onOpen deaf_env 1 demo_request ''1.1'' redis_app [] = (err, a', tr')" by (rule prod_cases3)
  have ok: "handshake_ok demo_request redis_app"
    by (simp add: handshake_ok_def demo_request_def demo_protocol redis_app_def demo_app_def empty_application_def)
  have deaf: "fst (connection_Publish deaf_env conn m tr) \<noteq> None" for conn m tr
    by (simp add: connection_Publish_def write_defs deaf_env_def succeeded_def)
  obtain conn tr1 where n: "connection_New deaf_env ''1.1'' 1 [] = (conn, tr1)" by fastforce
  obtain a1 tr2 where co: "app_Connect deaf_env conn redis_app tr1 = (a1, tr2)" by fastforce
  have "fst (onOpen deaf_env 1 demo_request ''1.1'' redis_app []) \<noteq> None"
    using deaf [of conn "NewConnectionEstablished (SocketID conn)" tr2]
    unfolding onOpen_accept [OF ok n co] by (auto split: prod.split option.split)
  then obtain e where e: "err = Some e" using r by auto
  have wf: "live redis_app = {}" "connections redis_app = []" "AppID redis_app = ''1''"
    by (simp_all add: redis_app_def demo_app_def empty_application_def live_def keys_def)
  have app: "app_wf redis_app"
    using app_wf_empty unfolding redis_app_def demo_app_def empty_application_def by simp
  show "\<exists>reply earlier. onOpen deaf_env 1 demo_request ''1.1'' redis_app []
      = (Some reconnectImmediately, redis_app, (RedisDel (connection_key ''1'' ''1.1''), reply) # earlier)"
    using handshake [OF app _ _ r] e r ok by (simp add: wf) (auto simp: redis_app_def)
qed

section \<open>Authorisation\<close>

text \<open>
  The frame \<open>message\<close> asks for channel \<open>cid\<close> on behalf of connection \<open>sid\<close>, with the
  signature the application's secret gives to the socket id, the channel and the channel data.
\<close>

definition signed_request :: "application \<Rightarrow> string \<Rightarrow> string \<Rightarrow> string \<Rightarrow> bool" where
  "signed_request a sid cid message \<longleftrightarrow> (\<exists>e. unmarshal_subscribe message = Some e
     \<and> strings_trim_space (sd_Channel (sub_EvData e)) = cid
     \<and> (let data = sd_ChannelData (sub_EvData e)
        in sd_Auth (sub_EvData e) = app_Key a @ '':'' @ HashMAC
             (strings_join ([sid, cid] @ (if IsPresenceChannel cid \<or> data \<noteq> [] then [data] else [])) '':'') (app_Secret a)))"

text \<open>
  The histories of one application: connections open, send frames, are closed by their loops; the
  HTTP API and Redis deliver events; and other parts of the program use the environment. The log
  holds the frames received, with the connection they came from. A new connection has a socket and
  a socket id that are not in use.
\<close>

inductive served :: "env \<Rightarrow> application \<Rightarrow> (string \<times> string) list \<Rightarrow> application \<Rightarrow> trace \<Rightarrow> bool"
  for E :: env and a0 :: application where
  start: "served E a0 [] a0 tr"
| opened: "served E a0 log a tr \<Longrightarrow> sid \<notin> live a \<Longrightarrow> sock \<notin> (\<lambda>kc. Socket (snd kc)) ` set (connections a)
     \<Longrightarrow> onOpen E sock r sid a tr = (err, a', tr') \<Longrightarrow> served E a0 log a' tr'"
| framed: "served E a0 log a tr \<Longrightarrow> FindConnection a sid = Inr peer
     \<Longrightarrow> dispatch E peer sid event message a tr = (a', tr') \<Longrightarrow> served E a0 ((sid, message) # log) a' tr'"
| closed: "served E a0 log a tr \<Longrightarrow> onClose E sid a tr = (a', tr') \<Longrightarrow> served E a0 log a' tr'"
| posted: "served E a0 log a tr \<Longrightarrow> FindOrCreateChannelByChannelID E cid a tr = (c, a1, tr1)
     \<Longrightarrow> app_Publish E c event ignore a1 tr1 = (err, a', tr') \<Longrightarrow> served E a0 log a' tr'"
| pubsub: "served E a0 log a tr \<Longrightarrow> handle_pubsub E rc cid payload a tr = tr' \<Longrightarrow> served E a0 log a tr'"
| other: "served E a0 log a tr \<Longrightarrow> served E a0 log a (call # tr)"

inductive_cases served_framedE: "served E a0 (f # log) a tr"

lemma admitted_signed:
  assumes wf: "app_wf a" and adm: "admitted a sid message = Some cid" and cfg: "config_of a = config_of a0"
  shows "IsChannelNameValid cid"
    and "IsPresenceChannel cid \<or> IsPrivateChannel cid \<Longrightarrow> signed_request a0 sid cid message"
proof -
  obtain e conn where e: "unmarshal_subscribe message = Some e" "FindConnection a sid = Inr conn"
    "strings_trim_space (sd_Channel (sub_EvData e)) = cid" "IsChannelNameValid cid"
    and auth: "case strings_to_sign conn cid (sd_ChannelData (sub_EvData e)) of
                     None \<Rightarrow> True | Some toSign \<Rightarrow> validateAuthKey (sd_Auth (sub_EvData e)) toSign a"
    using adm by (auto simp: admitted_def Let_def split: option.splits sum.splits if_splits)
  show "IsChannelNameValid cid" by (rule e(4))
  have "SocketID conn = sid"
    using app_wf_connection [OF wf] e(2) by (auto simp: FindConnection_def split: option.splits)
  then show "signed_request a0 sid cid message" if "IsPresenceChannel cid \<or> IsPrivateChannel cid"
    using that auth e(1,3) cfg
    by (auto simp: config_of_def signed_request_def strings_to_sign_def validateAuthKey_def Let_def)
qed

definition licensed :: "application \<Rightarrow> (string \<times> string) list \<Rightarrow> string \<Rightarrow> string \<Rightarrow> bool" where
  "licensed a0 log cid sid \<longleftrightarrow> IsChannelNameValid cid
     \<and> (IsPresenceChannel cid \<or> IsPrivateChannel cid \<longrightarrow>
          (\<exists>message. (sid, message) \<in> set log \<and> signed_request a0 sid cid message))"

definition session_ok :: "application \<Rightarrow> (string \<times> string) list \<Rightarrow> application \<Rightarrow> bool" where
  "session_ok a0 log a \<longleftrightarrow> app_wf a \<and> config_of a = config_of a0
     \<and> (\<forall>cid sid. (cid, sid) \<in> subscribed (hub_of a) \<longrightarrow> licensed a0 log cid sid)"

lemma licensed_mono: "licensed a0 log cid sid \<Longrightarrow> set log \<subseteq> set log' \<Longrightarrow> licensed a0 log' cid sid"
  by (auto simp: licensed_def)

lemma session_mono:
  assumes "session_ok a0 log a" "app_wf a'" "config_of a' = config_of a" "subscribed (hub_of a') \<subseteq> subscribed (hub_of a)"
    and "set log \<subseteq> set log'"
  shows "session_ok a0 log' a'"
  using assms licensed_mono [OF _ assms(5)] by (auto simp: session_ok_def)

lemma onOpen_effect:
  assumes wf: "app_wf a" and fresh: "sid \<notin> live a" "sock \<notin> (\<lambda>kc. Socket (snd kc)) ` set (connections a)"
  shows "app_wf (fst (snd (onOpen E sock r sid a tr))) \<and> config_of (fst (snd (onOpen E sock r sid a tr))) = config_of a
    \<and> subs_rel (fst (snd (onOpen E sock r sid a tr))) \<subseteq> subs_rel a"
proof (cases "handshake_ok r a")
  case False
  then show ?thesis using onOpen_refuse [OF False, of E sock sid tr] wf by auto
next
  case True
  obtain conn tr1 where n: "connection_New E sid sock tr = (conn, tr1)" by fastforce
  obtain a1 tr2 where co: "app_Connect E conn a tr1 = (a1, tr2)" by fastforce
  have f: "fresh_connection conn a" using fresh connection_New_result [OF n] by (simp add: fresh_connection_def)
  have a1: "app_wf a1" "config_of a1 = config_of a" "subs_rel a1 = subs_rel a"
    using effect_connect [OF wf f, of E tr1] co app_Connect_rel(2) [of E conn a tr1] by (simp_all add: effect_def)
  show ?thesis
    using a1 app_Disconnect_effect(1,3) [OF a1(1), of E sid] config_Disconnect [of E sid a1]
    by (auto simp: onOpen_accept [OF True n co] split: prod.split option.split)
qed

lemma served_ok:
  assumes "served E a0 log a tr" "app_wf a0" "subs_rel a0 = {}"
  shows "session_ok a0 log a"
  using assms
proof (induction rule: served.induct)
  case (start tr)
  then show ?case by (simp add: session_ok_def hub_of_def)
next
  case (opened log a tr sid sock r err a' tr')
  then have ok: "session_ok a0 log a" by simp
  have "app_wf a' \<and> config_of a' = config_of a \<and> subs_rel a' \<subseteq> subs_rel a"
    using onOpen_effect [OF _ opened.hyps(2,3), of E r tr] ok opened.hyps(4) by (simp add: session_ok_def)
  then show ?case by (intro session_mono [OF ok]) (simp_all add: hub_of_def)
next
  case (framed log a tr sid peer event message a' tr')
  then have ok: "session_ok a0 log a" by simp
  have wf: "app_wf a" and cfg: "config_of a = config_of a0" using ok by (simp_all add: session_ok_def)
  have e: "effect (frame_op a sid event message) a a'"
    using dispatch_effect [OF wf, of sid event message E peer tr] framed.hyps(3) by simp
  show ?case
  proof (cases "\<exists>cid. frame_op a sid event message = HJoin cid sid")
    case True
    then obtain cid where j: "frame_op a sid event message = HJoin cid sid" by blast
    then have adm: "admitted a sid message = Some cid"
      by (auto simp: frame_op_def split: if_splits option.splits)
    note s = admitted_signed [OF wf adm cfg]
    have "subscribed (hub_of a') \<subseteq> insert (cid, sid) (subscribed (hub_of a))"
      using e j by (auto simp: effect_def)
    moreover have "licensed a0 ((sid, message) # log) cid sid" using s by (auto simp: licensed_def)
    moreover have "licensed a0 ((sid, message) # log) k t" if "(k, t) \<in> subscribed (hub_of a)" for k t
    proof -
      have "licensed a0 log k t" using that ok unfolding session_ok_def by blast
      then show ?thesis by (rule licensed_mono) auto
    qed
    moreover have "app_wf a'" "config_of a' = config_of a0" using e cfg by (simp_all add: effect_def)
    ultimately show ?thesis unfolding session_ok_def by blast
  next
    case False
    then have "subscribed (hub_of a') \<subseteq> subscribed (hub_of a)"
      using e by (auto simp: effect_def frame_op_def split: if_splits option.splits)
    then show ?thesis using e by (intro session_mono [OF ok]) (auto simp: effect_def)
  qed
next
  case (closed log a tr sid a' tr')
  then have ok: "session_ok a0 log a" by simp
  then have "effect (HDrop sid) a a'"
    using effect_disconnect [of a sid E tr] closed.hyps(2) by (simp add: session_ok_def onClose_def)
  then show ?case by (intro session_mono [OF ok]) (auto simp: effect_def)
next
  case (posted log a tr cid c a1 tr1 event ignore err a' tr')
  then have ok: "session_ok a0 log a" by simp
  then have wf: "app_wf a" by (simp add: session_ok_def)
  have "app_wf a'" "hub_of a' = hub_of a"
    using post_refines [OF wf posted.hyps(2), of event ignore] posted.hyps(3) by simp_all
  moreover have "config_of a' = config_of a"
    using config_FindOrCreate [of E cid a tr] app_Publish_app [of E c event ignore a1 tr1] posted.hyps(2,3)
    by (simp add: config_frame)
  ultimately show ?case by (intro session_mono [OF ok]) simp_all
qed simp_all

text \<open>
  Claim C3: in every history of an application, whoever is subscribed to a private or presence channel
  is a live connection that presented, itself, a subscription frame for exactly this channel signed with the application's
  secret for its own socket id; and every channel with subscribers has a valid name.
\<close>

theorem subscriptions_authorised:
  assumes "served E a0 log a tr" "app_wf a0" "subs_rel a0 = {}" "(cid, sid) \<in> subs_rel a"
  shows "sid \<in> live a \<and> IsChannelNameValid cid
    \<and> (IsPresenceChannel cid \<or> IsPrivateChannel cid \<longrightarrow>
         (\<exists>message. (sid, message) \<in> set log \<and> signed_request a0 sid cid message))"
  using served_ok [OF assms(1-3)] assms(4) subs_live [of a cid sid] by (simp add: session_ok_def licensed_def hub_of_def)

text \<open>A client of the demo application that joins a private channel with a valid signature.\<close>

lemma HashMAC_utf8: "utf8_valid (x @ HashMAC m k)" if "list_all is_ascii x"
proof (rule ascii_valid)
  have "is_ascii c" if "c \<in> set ''0123456789abcdef''" for c
    using that by (auto simp: is_ascii_def)
  then have "list_all is_ascii (HashMAC m k)"
    unfolding list_all_iff HashMAC_def using hex_encode_digits by blast
  then show "list_all is_ascii (x @ HashMAC m k)" using that by simp
qed

definition demo_frame :: string where
  "demo_frame = marshal_subscribe (NewSubscribe ''private-a'' (''key:'' @ HashMAC ''1.1:private-a'' ''secret'') [])"

lemma demo_frame_decodes:
  "unmarshal_subscribe demo_frame = Some (NewSubscribe ''private-a'' (''key:'' @ HashMAC ''1.1:private-a'' ''secret'') [])"
  using HashMAC_utf8 [of "''key:''" "''1.1:private-a''" "''secret''"] unfolding demo_frame_def NewSubscribe_def
  by (intro subscribe_roundtrip) (simp_all add: is_ascii_def utf8_valid.simps)

lemma demo_private_name:
  "strings_trim_space ''private-a'' = ''private-a''" "IsChannelNameValid ''private-a''" "IsPrivateChannel ''private-a''"
  "\<not> IsPresenceChannel ''private-a''"
proof -
  show "strings_trim_space ''private-a'' = ''private-a''" by code_simp
qed (simp_all add: IsChannelNameValid_def channel_name_char_def is_lower_def is_upper_def is_digit_def IsPrivateChannel_def
      IsPresenceChannel_def)

lemma demo_session:
  obtains a tr where "served demo_env demo_app [] a tr" "app_wf a" "config_of a = config_of demo_app"
    "hub_of a = \<lparr>who = {(''1.1'', 1)}, subscribed = {}\<rparr>"
proof -
  obtain err a tr where o: "onOpen demo_env 1 demo_request ''1.1'' demo_app [] = (err, a, tr)" by (rule prod_cases3)
  have hs: "handshake_ok demo_request demo_app"
    by (simp add: handshake_ok_def demo_request_def demo_protocol demo_app_def empty_application_def)
  have wf: "app_wf demo_app" by (simp add: demo_app_def app_wf_empty)
  have fresh: "''1.1'' \<notin> live demo_app" "1 \<notin> (\<lambda>kc. Socket (snd kc)) ` set (connections demo_app)"
    by (simp_all add: demo_app_def empty_application_def live_def)
  obtain conn tr1 where n: "connection_New demo_env ''1.1'' 1 [] = (conn, tr1)" by fastforce
  obtain a1 tr2 where co: "app_Connect demo_env conn demo_app tr1 = (a1, tr2)" by fastforce
  have "fst (connection_Publish demo_env conn (NewConnectionEstablished (SocketID conn)) tr2) = None"
    by (simp add: connection_Publish_def writeMessage_error_iff demo_wf(2))
  then have a: "a = a1" using onOpen_accept [OF hs n co] o by (auto split: prod.splits option.splits)
  have c: "SocketID conn = ''1.1''" "Socket conn = 1" using connection_New_result [OF n] by simp_all
  have "fresh_connection conn demo_app" using fresh c by (simp add: fresh_connection_def)
  from effect_connect [OF wf this, of demo_env tr1] co c a
  have e: "app_wf a" "hub_of a = hub_run (HConnect ''1.1'' 1) (hub_of demo_app)" "config_of a = config_of demo_app"
    by (simp_all add: effect_def)
  moreover have "hub_of demo_app = empty_hub" by (simp add: demo_app_def hub_of_empty)
  moreover have "served demo_env demo_app [] a tr" by (rule served.opened [OF served.start fresh o])
  ultimately show ?thesis using that by (simp add: empty_hub_def)
qed

theorem subscriptions_authorised_witness:
  "\<exists>a tr. served demo_env demo_app [(''1.1'', demo_frame)] a tr \<and> (''private-a'', ''1.1'') \<in> subs_rel a
     \<and> signed_request demo_app ''1.1'' ''private-a'' demo_frame"
proof -
  obtain a tr where s: "served demo_env demo_app [] a tr" and a: "app_wf a" "config_of a = config_of demo_app"
    "hub_of a = \<lparr>who = {(''1.1'', 1)}, subscribed = {}\<rparr>" by (rule demo_session)
  have "''1.1'' \<in> live a" unfolding hub_of_live [symmetric] a(3) by (simp add: is_live_def)
  then obtain conn where conn: "FindConnection a ''1.1'' = Inr conn"
    by (auto simp: live_def FindConnection_def dest: in_keysD)
  then have sid: "SocketID conn = ''1.1''"
    using app_wf_connection [OF a(1)] by (auto simp: FindConnection_def split: option.splits)
  have key: "app_Key a = ''key''" "app_Secret a = ''secret''"
    using a(2) by (simp_all add: config_of_def demo_app_def empty_application_def)
  have adm: "admitted a ''1.1'' demo_frame = Some ''private-a''"
    by (simp add: admitted_def demo_frame_decodes conn NewSubscribe_def demo_private_name strings_to_sign_def
        validateAuthKey_def key sid Let_def)
  obtain a' tr' where d: "dispatch demo_env conn ''1.1'' ''pusher:subscribe'' demo_frame a tr = (a', tr')" by fastforce
  have "effect (HJoin ''private-a'' ''1.1'') a a'"
    using dispatch_effect [OF a(1), of "''1.1''" "''pusher:subscribe''" demo_frame demo_env conn tr] d adm
    by (simp add: frame_op_def del: hub_run.simps)
  then have sub: "(''private-a'', ''1.1'') \<in> subs_rel a'"
    by (simp add: effect_def hub_of_def [of a'] a(3) is_live_def)
  have s': "served demo_env demo_app [(''1.1'', demo_frame)] a' tr'" by (rule served.framed [OF s conn d])
  show ?thesis
    using subscriptions_authorised [OF s' _ _ sub] s' sub demo_private_name
    by (auto simp: demo_app_def app_wf_empty) (auto simp: subs_rel_def empty_application_def)
qed

end
