(* ===== verification/Websockets_Loop.thy ===== *)
theory Websockets_Loop
  imports Websockets_Spec
begin

text \<open>
  The read loop of a connection, the signature it demands, and the client events it relays.
\<close>

section \<open>What is signed\<close>

lemma join_no_sep_inj:
  assumes "strings_join (x # xs) '':'' = strings_join (y # ys) '':''" "CHR '':'' \<notin> set x" "CHR '':'' \<notin> set y"
  shows "x = y \<and> (xs = [] \<longleftrightarrow> ys = []) \<and> (xs \<noteq> [] \<longrightarrow> strings_join xs '':'' = strings_join ys '':'')"
proof -
  have j: "strings_join (z # zs) '':'' = z @ (if zs = [] then [] else CHR '':'' # strings_join zs '':'')" for z zs
    by (cases zs) simp_all
  have tw: "takeWhile (\<lambda>c. c \<noteq> CHR '':'') (z @ (if zs = [] then [] else CHR '':'' # r)) = z"
    "dropWhile (\<lambda>c. c \<noteq> CHR '':'') (z @ (if zs = [] then [] else CHR '':'' # r)) = (if zs = [] then [] else CHR '':'' # r)"
    if "CHR '':'' \<notin> set z" for z r and zs :: "string list"
    using that by (auto simp: takeWhile_append dropWhile_append)
  have "x = y" using tw(1) [OF assms(2), of xs] tw(1) [OF assms(3), of ys] assms(1) unfolding j by metis
  moreover have "(if xs = [] then [] else CHR '':'' # strings_join xs '':'') = (if ys = [] then [] else CHR '':'' # strings_join ys '':'')"
    using assms(1) \<open>x = y\<close> unfolding j by simp
  ultimately show ?thesis by (auto split: if_splits)
qed

text \<open>
  Claim C31: the text that is signed determines what it authorises: two requests with colon-free
  socket ids and valid channel names have the same text only if socket id, channel and channel data
  agree, so a signature for one connection, channel or user is none for another.
\<close>

theorem signed_text_injective:
  assumes "CHR '':'' \<notin> set (SocketID conn)" "CHR '':'' \<notin> set (SocketID conn')"
    and "IsChannelNameValid cid" "IsChannelNameValid cid'"
    and "strings_to_sign conn cid data = Some ss" "strings_to_sign conn' cid' data' = Some ss'"
    and "strings_join ss '':'' = strings_join ss' '':''"
  shows "SocketID conn = SocketID conn' \<and> cid = cid' \<and> data = data'"
proof -
  let ?tl = "\<lambda>cid data. if IsPresenceChannel cid \<or> data \<noteq> [] then [data] else []"
  have ss: "ss = SocketID conn # cid # ?tl cid data" "ss' = SocketID conn' # cid' # ?tl cid' data'"
    using assms(5,6) by (auto simp: strings_to_sign_def Let_def split: if_splits)
  note c = valid_name_no_colon [OF assms(3)] valid_name_no_colon [OF assms(4)]
  have 1: "SocketID conn = SocketID conn'" "strings_join (cid # ?tl cid data) '':'' = strings_join (cid' # ?tl cid' data') '':''"
    using join_no_sep_inj [OF assms(7) [unfolded ss] assms(1,2)] by simp_all
  note 2 = join_no_sep_inj [OF 1(2) c]
  then have cid: "cid = cid'" by blast
  have "data = data'"
    using 2 unfolding cid by (cases "IsPresenceChannel cid'"; cases "data = []"; cases "data' = []") simp_all
  then show ?thesis using 1(1) cid by simp
qed

lemma demo_conn_no_colon: "CHR '':'' \<notin> set (SocketID (demo_conn ''1.1'' 1))"
  by (simp add: demo_conn_def)

theorem signed_text_injective_witness:
  "strings_to_sign (demo_conn ''1.1'' 1) ''private-a'' ''x:y'' = Some [''1.1'', ''private-a'', ''x:y'']
   \<and> (SocketID (demo_conn ''1.1'' 1) = ''1.1'' \<and> ''private-a'' = ''private-a'' \<and> ''x:y'' = ''x:y'')"
proof -
  have s: "strings_to_sign (demo_conn ''1.1'' 1) ''private-a'' ''x:y'' = Some [''1.1'', ''private-a'', ''x:y'']"
    using demo_private_name by (simp add: strings_to_sign_def demo_conn_def)
  show ?thesis
    using signed_text_injective [OF demo_conn_no_colon demo_conn_no_colon demo_private_name(2) demo_private_name(2) s s refl] s
    by (simp add: demo_conn_def)
qed

section \<open>A refused subscription\<close>

text \<open>
  A subscription frame that is not admitted (it does not decode, names an invalid channel,
  or lacks the right signature) changes nothing in the application: no channel is created, nobody
  else is told, and the sender gets one error.
\<close>

theorem refused_subscription:
  assumes "admitted a sid message = None"
  shows "\<exists>err. handleSubscribe E peer sid message a tr = (a, emitPeerError E err peer tr)
    \<and> attempts (snd (handleSubscribe E peer sid message a tr)) = attempts tr @ [Socket peer]
    \<and> posts (snd (handleSubscribe E peer sid message a tr)) = posts tr"
proof -
  have "\<exists>err. handleSubscribe E peer sid message a tr = (a, emitPeerError E err peer tr)"
    using assms by (auto simp: admitted_def handleSubscribe_def Let_def split: option.splits sum.splits if_splits)
  moreover have "attempts (emitPeerError E err peer tr) = attempts tr @ [Socket peer]"
    "posts (emitPeerError E err peer tr) = posts tr" for err
    by (simp_all add: emitPeerError_def obs_simps)
  ultimately show ?thesis by auto
qed

theorem refused_subscription_witness:
  "attempts (snd (handleSubscribe demo_env (demo_conn ''1.1'' 1) ''1.1'' demo_frame demo_app [])) = [1]"
proof -
  have "admitted demo_app ''1.1'' demo_frame = None"
    by (simp add: admitted_def demo_frame_decodes FindConnection_def demo_app_def empty_application_def)
  then show ?thesis
    using refused_subscription [of demo_app "''1.1''" demo_frame demo_env "demo_conn ''1.1'' 1" "[]"]
    by (auto simp: attempts_simps demo_conn_def)
qed

section \<open>The loop\<close>

lemma message_loop_keeps:
  assumes "app_wf a" "sid \<in> live a"
  shows "app_wf (fst (snd (message_loop E peer sock sid event rs a tr)))
    \<and> sid \<in> live (fst (snd (message_loop E peer sock sid event rs a tr)))
    \<and> config_of (fst (snd (message_loop E peer sock sid event rs a tr))) = config_of a"
  using assms
proof (induction rs arbitrary: event a tr)
  case (Cons r rs)
  obtain ok tr1 where d: "renew_deadline E sock tr = (ok, tr1)" by fastforce
  show ?case
  proof (cases "\<exists>message event'. ok \<and> r = Frame message \<and> unmarshal_event event message = Some event'")
    case True
    then obtain message event' where f: "ok" "r = Frame message" "unmarshal_event event message = Some event'" by blast
    obtain a2 tr2 where disp: "dispatch E peer sid event' message a tr1 = (a2, tr2)" by fastforce
    have e: "effect (frame_op a sid event' message) a a2"
      using dispatch_effect [OF Cons.prems(1), of sid event' message E peer tr1] disp by simp
    have w: "app_wf a2" "config_of a2 = config_of a" using e by (simp_all add: effect_def)
    show ?thesis
      using Cons.IH [OF w(1) frame_op_live [OF e Cons.prems(2)], of event' tr2] d f disp w(2) by simp
  next
    case False
    then show ?thesis using d Cons.prems by (auto split: read_result.splits option.splits bool.splits)
  qed
qed simp

lemma renew_deadline_frame: "renew_deadline E sock tr = (ok, tr1) \<Longrightarrow> written h tr1 = written h tr"
  by (auto simp: renew_deadline_def Let_def time_now_def invoke_def written_simps)

text \<open>
  The loop of a connection keeps the invariant whatever arrives; while it runs the
  connection stays registered, and however it ends (the peer closes, an error, a frame that does not
  decode, a deadline that cannot be set), the connection and all its subscriptions are gone.
\<close>

theorem loop_cleans_up:
  assumes wf: "app_wf a" and conn: "FindConnection a sid = Inr peer"
    and run: "handleMessages E sock sid rs a tr = (ended, a', tr')"
  shows "app_wf a' \<and> (if ended then sid \<notin> live a' \<and> (\<forall>cid. (cid, sid) \<notin> subs_rel a') else sid \<in> live a')"
proof -
  have live: "sid \<in> live a" using conn by (auto simp: FindConnection_def live_def dest: map_of_some_keys split: option.splits)
  have closed: "app_wf b' \<and> sid \<notin> live b' \<and> (\<forall>cid. (cid, sid) \<notin> subs_rel b')"
    if "app_wf b" "onClose E sid b t = (b', t')" for b b' t t'
    using app_Disconnect_effect [OF that(1), of E sid t] that(2) by (auto simp: onClose_def)
  obtain ok tr1 where d: "renew_deadline E sock tr = (ok, tr1)" by fastforce
  obtain fin a1 tr2 where l: "message_loop E peer sock sid [] rs a tr1 = (fin, a1, tr2)" by (rule prod_cases3)
  have a1: "app_wf a1" "sid \<in> live a1"
    using message_loop_keeps [OF wf live, of E peer sock "[]" rs tr1] l by simp_all
  show ?thesis
    using run conn d l a1 closed [OF wf, of tr1] closed [OF a1(1), of tr2]
    by (cases ok; cases fin) (auto simp: handleMessages_def Let_def split: prod.splits)
qed

theorem loop_cleans_up_witness:
  "\<exists>a. ''1.1'' \<in> live a \<and> ''1.1'' \<notin> live (fst (snd (handleMessages demo_env 1 ''1.1'' [ReadEOF] a [])))"
proof -
  obtain a tr where a: "app_wf a" "hub_of a = \<lparr>who = {(''1.1'', 1)}, subscribed = {}\<rparr>" by (rule demo_session)
  have live: "''1.1'' \<in> live a" unfolding hub_of_live [symmetric] a(2) by (simp add: is_live_def)
  then obtain conn where conn: "FindConnection a ''1.1'' = Inr conn"
    by (auto simp: live_def FindConnection_def dest: in_keysD)
  obtain ended a' tr' where r: "handleMessages demo_env 1 ''1.1'' [ReadEOF] a [] = (ended, a', tr')"
    by (rule prod_cases3)
  have ok: "fst (renew_deadline demo_env 1 t)" for t
    by (simp add: renew_deadline_def Let_def invoke_def time_now_def demo_env_def succeeded_def)
  have "fst (message_loop demo_env conn 1 ''1.1'' ev [ReadEOF] b t)" for ev b t
    using ok [of t] by (auto split: prod.splits bool.splits)
  then have "ended"
    using r ok conn by (auto simp: handleMessages_def Let_def split: prod.splits bool.splits)
  then show ?thesis using loop_cleans_up [OF a(1) conn r] live r by auto
qed

section \<open>A frame without an event\<close>

lemma renew_armed: "reads_armed E \<Longrightarrow> \<exists>tr1. renew_deadline E sock tr = (True, tr1) \<and> (\<forall>h. written h tr1 = written h tr)"
  by (simp add: renew_deadline_def reads_armed_def time_now_def invoke_def written_simps Let_def)

text \<open>An object none of whose members decodes into the member \<open>event\<close>.\<close>

definition eventless :: "string \<Rightarrow> bool" where
  "eventless message \<longleftrightarrow> (case unmarshal_members message of
     None \<Rightarrow> False | Some ms \<Rightarrow> (\<forall>(k, raw, j) \<in> set ms. \<not> field_matches ''event'' k))"

lemma eventless_keeps: "eventless message \<Longrightarrow> unmarshal_event event message = Some event"
proof -
  have "string_field ''event'' ms event = Some event" if "\<forall>(k, raw, j) \<in> set ms. \<not> field_matches ''event'' k" for ms
    using that by (induction ms) (auto simp: string_field_def)
  then show "eventless message \<Longrightarrow> unmarshal_event event message = Some event"
    by (auto simp: eventless_def unmarshal_event_def split: option.splits)
qed

text \<open>The frames handled one after the other, all as the same event, each after the deadline was renewed.\<close>

definition handled_as ::
  "env \<Rightarrow> connection \<Rightarrow> nat \<Rightarrow> string \<Rightarrow> string \<Rightarrow> string list \<Rightarrow> application \<times> trace \<Rightarrow> application \<times> trace" where
  "handled_as E peer sock sid event messages s =
     fold (\<lambda>message (a, tr). dispatch E peer sid event message a (snd (renew_deadline E sock tr))) messages s"

lemma eventless_loop:
  assumes armed: "reads_armed E"
  shows "list_all eventless messages \<Longrightarrow>
    message_loop E peer sock sid event (List.map Frame messages) a tr = (False, handled_as E peer sock sid event messages (a, tr))"
proof (induction messages arbitrary: a tr)
  case (Cons m ms)
  obtain tr1 where d: "renew_deadline E sock tr = (True, tr1)" using renew_armed [OF armed] by blast
  obtain a2 tr2 where disp: "dispatch E peer sid event m a tr1 = (a2, tr2)" by fastforce
  have "unmarshal_event event m = Some event" using eventless_keeps Cons.prems by simp
  then show ?case using Cons.IH [of a2 tr2] Cons.prems d disp by (simp add: handled_as_def)
qed (simp add: handled_as_def)

text \<open>
  Claim C27: a frame that is an object without an \<open>event\<close> member is not rejected or ignored: it is
  handled as the event of the last frame that had one, because the loop decodes into a variable it never
  resets. After a frame whose event is \<open>ev\<close>, any number of such frames are all handled as \<open>ev\<close>.
\<close>

theorem missing_event_repeats_last:
  assumes "reads_armed E" "unmarshal_event event first = Some ev" "list_all eventless messages"
  shows "message_loop E peer sock sid event (List.map Frame (first # messages)) a tr =
    (False, handled_as E peer sock sid ev (first # messages) (a, tr))"
proof -
  obtain tr1 where d: "renew_deadline E sock tr = (True, tr1)" using renew_armed [OF assms(1)] by blast
  obtain a2 tr2 where disp: "dispatch E peer sid ev first a tr1 = (a2, tr2)" by fastforce
  show ?thesis
    using eventless_loop [OF assms(1,3), of peer sock sid ev a2 tr2] assms(2) d disp by (simp add: handled_as_def)
qed

definition ping_frame :: string where
  "ping_frame = json_object [(''event'', json_quote ''pusher:ping'')]"

lemma ping_frame_decodes: "unmarshal_event [] ping_frame = Some ''pusher:ping''"
proof -
  have "list_all2 (field_reads 0) [(''event'', json_quote ''pusher:ping'')] [JStr ''pusher:ping'']"
    by (simp add: reads_quote is_ascii_def utf8_valid.simps)
  from object_members(1) [OF this] show ?thesis by (simp add: unmarshal_event_def ping_frame_def wire_simps)
qed

lemma empty_object_eventless: "eventless ''{}''"
proof -
  have "unmarshal_members ''{}'' = Some []" by code_simp
  then show ?thesis by (simp add: eventless_def)
qed

theorem missing_event_repeats_last_witness:
  "written 1 (snd (snd (message_loop demo_env (demo_conn ''1.1'' 1) 1 ''1.1'' [] (List.map Frame [ping_frame, ''{}'', ''{}'']) demo_app [])))
     = [NewPong, NewPong, NewPong]"
proof -
  have armed: "reads_armed demo_env" by (simp add: reads_armed_def demo_env_def succeeded_def)
  have pong: "written 1 (snd (dispatch demo_env (demo_conn ''1.1'' 1) ''1.1'' ''pusher:ping'' m a (snd (renew_deadline demo_env 1 tr))))
      = written 1 tr @ [NewPong]" for m a tr
    using connection_Publish_obs(5) [OF demo_wf(2), of "demo_conn ''1.1'' 1" NewPong "snd (renew_deadline demo_env 1 tr)"]
      renew_armed [OF armed, of 1 tr] by (auto simp: dispatch_def handlePing_def demo_conn_def)
  have "written 1 (snd (handled_as demo_env (demo_conn ''1.1'' 1) 1 ''1.1'' ''pusher:ping'' ms s))
      = written 1 (snd s) @ replicate (length ms) NewPong" for ms s
  proof (induction ms arbitrary: s)
    case (Cons m ms)
    then show ?case using pong [of m "fst s" "snd s"] by (simp add: handled_as_def split_beta)
  qed (simp add: handled_as_def)
  then show ?thesis
    using missing_event_repeats_last [OF armed ping_frame_decodes, of "[''{}'', ''{}'']" "demo_conn ''1.1'' 1" 1 "''1.1''" demo_app "[]"]
      empty_object_eventless by (simp add: written_simps numeral_eq_Suc del: message_loop_Cons)
qed

section \<open>Client events\<close>

text \<open>
  Claim C25: a client event on a private or presence channel reaches every subscriber but the
  sender, and does so even if the application has user events disabled: the sender is told they are
  disabled, and the event is relayed all the same. Nothing asks that the sender be subscribed.
\<close>

theorem client_event_relayed:
  assumes wf: "app_wf a" and ok: "sockets_ok E"
    and ev: "unmarshal_raw message = Some ev" and ch: "FindChannelByChannelID a (raw_Channel ev) = Inr c"
    and kind: "IsPresenceOrPrivate c" and v: "unmarshal_any (raw_marshal (raw_Data ev)) = Some v"
    and peer: "FindConnection a sid = Inr peer" and conn: "FindConnection a k = Inr conn"
  shows "written (Socket conn) (snd (handleClientEvent E peer sid message a tr)) = written (Socket conn) tr
    @ (if k = sid \<and> \<not> UserEvents a
       then [NewError 0 ''To send client events, you must enable this feature in the Settings.''] else [])
    @ (if (raw_Channel ev, k) \<in> subs_rel a \<and> k \<noteq> sid then [NewResponse (raw_Event ev) (raw_Channel ev) v] else [])"
proof -
  define tr0 where "tr0 = (if \<not> UserEvents a
     then emitPeerError E (peer_message ''To send client events, you must enable this feature in the Settings.'') peer tr else tr)"
  have m: "map_of (connections a) sid = Some peer" "map_of (connections a) k = Some conn"
    using peer conn by (auto simp: FindConnection_def split: option.splits)
  have i: "inj_on (\<lambda>kc. Socket (snd kc)) (set (connections a))" using wf by (simp add: app_wf_defs distinct_map)
  have same: "Socket conn = Socket peer \<longleftrightarrow> k = sid"
    using inj_onD [OF i _ map_of_SomeD [OF m(1)] map_of_SomeD [OF m(2)]] m by auto
  have w0: "written (Socket conn) tr0 = written (Socket conn) tr @ (if k = sid \<and> \<not> UserEvents a
       then [NewError 0 ''To send client events, you must enable this feature in the Settings.''] else [])"
  proof (cases "k = sid")
    case True
    then have "peer = conn" using m by simp
    with True show ?thesis using ok by (simp add: tr0_def emitPeerError_def peer_message_def obs_simps)
  next
    case False
    with same show ?thesis by (simp add: tr0_def emitPeerError_def obs_simps)
  qed
  note d = app_publish_delivers [OF wf ok ch v conn, of sid tr0]
  obtain a1 tr1 where p: "app_Publish E c ev sid a tr0 = (None, a1, tr1)"
    using d by (cases "app_Publish E c ev sid a tr0") auto
  have "handleClientEvent E peer sid message a tr = (a1, tr1)"
    using p ev ch kind by (simp add: handleClientEvent_def Let_def tr0_def [symmetric])
  then show ?thesis using d w0 p by simp
qed

text \<open>Two connections, one of them on a private channel, and an application without user events.\<close>

definition quiet_app :: application where
  "quiet_app = fst (fold (run_op demo_env)
     [OpConnect (demo_conn ''1.1'' 1), OpConnect (demo_conn ''2.2'' 2), OpSubscribe ''private-a'' ''2.2'' []]
     (empty_application ''app'' ''1'' ''key'' ''secret'' False True False False [] None, []))"

lemma quiet_app_ok:
  "app_wf quiet_app" "hub_of quiet_app = \<lparr>who = {(''1.1'', 1), (''2.2'', 2)}, subscribed = {(''private-a'', ''2.2'')}\<rparr>"
proof -
  let ?ops = "[OpConnect (demo_conn ''1.1'' 1), OpConnect (demo_conn ''2.2'' 2), OpSubscribe ''private-a'' ''2.2'' []]"
  have l: "legal (List.map op_kind ?ops) empty_hub" by (simp add: empty_hub_def demo_defs is_live_def)
  show "app_wf quiet_app" unfolding quiet_app_def by (rule run_from_empty(1) [OF l])
  show "hub_of quiet_app = \<lparr>who = {(''1.1'', 1), (''2.2'', 2)}, subscribed = {(''private-a'', ''2.2'')}\<rparr>"
    unfolding quiet_app_def run_from_empty(2) [OF l] by (auto simp: empty_hub_def demo_defs is_live_def)
qed

lemma quiet_app_conn:
  assumes "(k, h) \<in> who (hub_of quiet_app)"
  obtains conn where "FindConnection quiet_app k = Inr conn" "Socket conn = h"
proof -
  obtain conn where c: "(k, conn) \<in> set (connections quiet_app)" "Socket conn = h" using assms by (auto simp: hub_of_def)
  have "map_of (connections quiet_app) k = Some conn"
    using c(1) quiet_app_ok(1) by (auto simp: app_wf_defs keys_def intro: map_of_is_SomeI)
  then show ?thesis using that c(2) by (simp add: FindConnection_def)
qed

definition client_frame :: string where
  "client_frame = json_object [(''event'', json_quote ''client-a''), (''channel'', json_quote ''private-a'')]"

lemma client_frame_decodes:
  "unmarshal_raw client_frame = Some \<lparr>raw_Event = ''client-a'', raw_Channel = ''private-a'', raw_Data = None\<rparr>"
proof -
  have "list_all2 (field_reads 0) [(''event'', json_quote ''client-a''), (''channel'', json_quote ''private-a'')]
      [JStr ''client-a'', JStr ''private-a'']"
    by (simp add: reads_quote is_ascii_def utf8_valid.simps)
  from object_members(1) [OF this] show ?thesis
    by (simp add: unmarshal_raw_def client_frame_def raw_field_def wire_simps)
qed

theorem client_event_relayed_witness:
  "\<exists>peer. FindConnection quiet_app ''1.1'' = Inr peer
     \<and> written 2 (snd (handleClientEvent demo_env peer ''1.1'' client_frame quiet_app [])) = [NewResponse ''client-a'' ''private-a'' GNil]"
proof -
  note h = quiet_app_ok(2)
  obtain peer where peer: "FindConnection quiet_app ''1.1'' = Inr peer" by (rule quiet_app_conn [of "''1.1''" 1]) (simp_all add: h)
  obtain conn where conn: "FindConnection quiet_app ''2.2'' = Inr conn" "Socket conn = 2"
    by (rule quiet_app_conn [of "''2.2''" 2]) (simp_all add: h)
  have sub: "(''private-a'', ''2.2'') \<in> subs_rel quiet_app" using h by (simp add: hub_of_def)
  then obtain c where m: "map_of (channels quiet_app) ''private-a'' = Some c" by (auto simp: subs_rel_def)
  have ch: "FindChannelByChannelID quiet_app ''private-a'' = Inr c" using m by (simp add: FindChannelByChannelID_def)
  have kind: "IsPresenceOrPrivate c"
    using app_wf_channel(1) [OF quiet_app_ok(1) m] demo_private_name by (simp add: IsPresenceOrPrivate_def IsPrivate_def)
  have v: "unmarshal_any (raw_marshal None) = Some GNil" by (simp add: raw_marshal_def unmarshal_null)
  show ?thesis
    using client_event_relayed [OF quiet_app_ok(1) demo_wf(2) client_frame_decodes _ kind _ peer conn(1), of GNil "[]"] ch v peer conn(2) sub
    by (simp add: written_simps)
qed

end
