(* ===== verification/Api_Spec.thy ===== *)
theory Api_Spec
  imports Server Websockets_Loop "HOL-Library.Multiset"
begin

text \<open>
  The properties of the HTTP API: what its signature check lets through and what it does not cover,
  what posting events delivers, and what the queries list.
\<close>

section \<open>The gate\<close>

definition signed_by :: "application \<Rightarrow> http_request \<Rightarrow> bool" where
  "signed_by a r \<longleftrightarrow> HashMAC (request_to_sign r) (app_Secret a) = values_get (rq_Query r) ''auth_signature''"

lemma error_status [simp]: "rs_Status (http_Error msg code new_response) = Some code"
  by (simp add: http_Error_def write_body_def write_header_def set_content_type_def new_response_def)

lemma queries_read_only:
  "snd (GetChannels r db tr) = (db, tr)" "snd (GetChannel r db tr) = (db, tr)" "snd (GetChannelUsers r db tr) = (db, tr)"
  by (simp_all add: GetChannels_def GetChannel_def GetChannelUsers_def Let_def split: sum.split)

text \<open>
  Claim C15: whatever route is asked for, a request has an effect (a state change, any call to the
  outside, or a successful answer) only if its application exists, is enabled, and the request
  carries the signature that the application's secret gives to it; and only the events route changes
  anything.
\<close>

theorem api_gate:
  assumes "serve_api E rt r db tr = (w, db', tr')"
    and "db' \<noteq> db \<or> tr' \<noteq> tr \<or> rs_Status w = Some 200"
  shows "\<exists>a. GetAppByAppID db (rq_AppID r) = Inr a \<and> app_Enabled a \<and> signed_by a r
    \<and> (w, db', tr') = route_handler E rt r db tr
    \<and> ((db' \<noteq> db \<or> tr' \<noteq> tr) \<longrightarrow> rt = RouteEvents)"
proof (cases "\<exists>a. GetAppByAppID db (rq_AppID r) = Inr a \<and> app_Enabled a \<and> signed_by a r")
  case True
  then obtain a where a: "GetAppByAppID db (rq_AppID r) = Inr a" "app_Enabled a" "signed_by a r" by blast
  then have "route_handler E rt r db tr = (w, db', tr')"
    using assms(1) by (simp add: serve_api_def CheckAppDisabled_def Authentication_def signed_by_def)
  moreover from this have "rt = RouteEvents" if "db' \<noteq> db \<or> tr' \<noteq> tr"
    using that queries_read_only [of r db tr] by (cases rt) auto
  ultimately show ?thesis using a by auto
next
  case False
  then show ?thesis
    using assms by (auto simp: serve_api_def CheckAppDisabled_def Authentication_def signed_by_def split: sum.splits if_splits)
qed

text \<open>A small storage and a signed request.\<close>

definition demo_request_to :: "string \<Rightarrow> string \<Rightarrow> http_request" where
  "demo_request_to channel body = (let r = \<lparr>rq_Method = ''get'', rq_Path = ''/apps/1/channels'', rq_AppID = ''1'',
       rq_ChannelName = channel, rq_Query = [], rq_Body = body\<rparr>
     in r\<lparr>rq_Query := [(''auth_signature'', [HashMAC (request_to_sign r) ''secret''])]\<rparr>)"

definition demo_db :: storage where
  "demo_db = \<lparr>Apps = [demo_app]\<rparr>"

lemma demo_db_app: "GetAppByAppID demo_db ''1'' = Inr demo_app"
  by (simp add: demo_db_def GetAppByAppID_def find_app_def demo_app_def empty_application_def)

lemma demo_signed: "signed_by demo_app (demo_request_to ch body)"
  by (simp add: signed_by_def demo_request_to_def Let_def request_to_sign_def values_get_def prepareQueryString_def
      demo_app_def empty_application_def)

lemma demo_AppID: "rq_AppID (demo_request_to ch body) = ''1''" "rq_Body (demo_request_to ch body) = body"
  by (simp_all add: demo_request_to_def Let_def)

theorem api_gate_witness:
  "\<exists>w db' tr'. serve_api demo_env RouteChannels (demo_request_to [] []) demo_db [] = (w, db', tr') \<and> rs_Status w = Some 200
     \<and> signed_by demo_app (demo_request_to [] [])"
proof -
  obtain w db' tr' where s: "serve_api demo_env RouteChannels (demo_request_to [] []) demo_db [] = (w, db', tr')"
    by (rule prod_cases3)
  have v: "values_get (rq_Query (demo_request_to [] [])) ''filter_by_prefix'' = []"
    "values_get (rq_Query (demo_request_to [] [])) ''info'' = []"
    by (simp_all add: demo_request_to_def Let_def values_get_def)
  have "rs_Status (fst (GetChannels (demo_request_to [] []) demo_db [])) = Some 200"
    by (simp add: GetChannels_def v userCountAttr_def demo_AppID demo_db_app encode_response_def write_body_def
        write_header_def set_content_type_def new_response_def Let_def)
  moreover have "serve_api demo_env RouteChannels (demo_request_to [] []) demo_db [] = GetChannels (demo_request_to [] []) demo_db []"
    using demo_signed [of "[]" "[]"]
    by (simp add: serve_api_def CheckAppDisabled_def Authentication_def demo_AppID demo_db_app signed_by_def)
       (simp add: demo_app_def empty_application_def)
  ultimately have "rs_Status w = Some 200" using s by (metis fst_conv)
  then show ?thesis using api_gate [OF s] s demo_db_app by (auto simp: demo_AppID)
qed

section \<open>What is signed\<close>

text \<open>
  The text a request is signed by does not depend on the order in which the query
  parameters are kept: two queries with the same parameters give the same text.
\<close>

theorem query_order_irrelevant:
  assumes "distinct (keys q)" "distinct (keys q')" "map_of q = map_of q'"
  shows "prepareQueryString q = prepareQueryString q'"
proof -
  have "set (keys q) = set (keys q')"
    using assms(3) by (metis dom_map_of_conv_image_fst keys_def set_map)
  then have "mset (keys q) = mset (keys q')" using assms(1,2) by (simp add: set_eq_iff_mset_eq_distinct)
  then have "mset (List.map strings_to_lower (keys q)) = mset (List.map strings_to_lower (keys q'))" by simp
  then have "sort (List.map strings_to_lower (keys q)) = sort (List.map strings_to_lower (keys q'))"
    using properties_for_sort [OF _ sorted_sort, of "sort (List.map strings_to_lower (keys q))"] by (metis mset_sort properties_for_sort sorted_sort)
  moreover have "values_get q k = values_get q' k" for k by (simp add: values_get_def assms(3))
  ultimately show ?thesis by (simp add: prepareQueryString_def Let_def)
qed

theorem query_order_irrelevant_witness:
  "prepareQueryString [(''b'', [''1'']), (''a'', [''2''])] = prepareQueryString [(''a'', [''2'']), (''b'', [''1''])]"
  by (rule query_order_irrelevant) (auto simp: fun_eq_iff)

text \<open>
  Claim C32: the signature covers neither the body of a request, nor the value of a parameter whose
  name has an upper-case letter, nor the second value of a repeated parameter: whoever holds one
  signed request can change these, and the changed request passes.
\<close>

theorem signature_blind_spots:
  assumes "rq_Method r' = rq_Method r" "rq_Path r' = rq_Path r" "rq_AppID r' = rq_AppID r"
    and "keys (rq_Query r') = keys (rq_Query r)"
    and "\<forall>k \<in> set (''auth_signature'' # List.map strings_to_lower (keys (rq_Query r))).
      values_get (rq_Query r') k = values_get (rq_Query r) k"
    and "GetAppByAppID db (rq_AppID r) = Inr a" "signed_by a r"
  shows "signed_by a r' \<and> Authentication next r' db tr = next r' db tr"
proof -
  let ?q = "AList.delete ''auth_signature'' (rq_Query r)" and ?q' = "AList.delete ''auth_signature'' (rq_Query r')"
  have k: "keys ?q' = keys ?q" by (simp add: keys_delete assms(4))
  have v: "values_get ?q' j = values_get ?q j" if "j \<in> set (List.map strings_to_lower (keys ?q))" for j
  proof -
    have "j \<in> set (List.map strings_to_lower (keys (rq_Query r)))" using that by (auto simp: keys_delete)
    then show ?thesis using assms(5) by (auto simp: values_get_def map_of_delete)
  qed
  have "prepareQueryString ?q' = prepareQueryString ?q"
    unfolding prepareQueryString_def Let_def k by (rule arg_cong [where f = "\<lambda>xs. strings_join xs ''&''"]) (simp add: v)
  then have "request_to_sign r' = request_to_sign r" using assms(1,2) by (simp add: request_to_sign_def)
  then show ?thesis using assms(3,5,6,7) by (simp add: Authentication_def signed_by_def)
qed

definition forged_request :: http_request where
  "forged_request = (demo_request_to [] ''{}'')\<lparr>rq_Body := ''forged''\<rparr>"

theorem signature_blind_spots_witness:
  "Authentication (PostEvents demo_env) forged_request demo_db [] = PostEvents demo_env forged_request demo_db []"
  using signature_blind_spots [of forged_request "demo_request_to [] ''{}''" demo_db demo_app "PostEvents demo_env" "[]"]
    demo_signed [of "[]" "''{}''"] demo_db_app
  by (simp add: forged_request_def demo_AppID)

section \<open>Posting events\<close>

lemma decoded_or_not:
  "PostEvents E r db tr = (case GetAppByAppID db (rq_AppID r) of
     Inl e \<Rightarrow> (http_Error (app_not_found (rq_AppID r)) 400 new_response, db, tr)
   | Inr a \<Rightarrow> (case decode_input (rq_Body r) of
        None \<Rightarrow> (http_Error ''Bad request'' 400 new_response, db, tr)
      | Some i \<Rightarrow>
          if int (length (case in_Data i of None \<Rightarrow> [] | Some d \<Rightarrow> d)) > 10000
          then (http_Error ''Request too large.'' 413 new_response, db, tr)
          else (case fold (post_step E i) (input_channels i) (new_response, a, tr) of
                  (w, a1, tr1) \<Rightarrow> (write_body ''{}'' (write_header 200 (set_content_type ''application/json'' w)),
                     store_by_app_id (rq_AppID r) a1 db, tr1))))"
  by (simp add: PostEvents_def maxDataEventSize_def split: sum.split option.split)

lemma FindOrCreate_written:
  assumes f: "FindOrCreateChannelByChannelID E cid a tr = (c, a1, tr1)"
  shows "written h tr1 = written h tr"
proof (cases "map_of (channels a) cid")
  case None
  then obtain tr0 where nw: "channel_New E cid (app_options E a) tr = (c, tr0)" and add: "AddChannel E c a tr0 = (a1, tr1)"
    using f by (auto simp: FindOrCreateChannelByChannelID_def FindChannelByChannelID_def split: prod.splits)
  have "written h tr0 = written h tr"
    using nw by (auto simp: channel_New_def Let_def time_now_def invoke_def written_simps)
  moreover have "written h tr1 = written h tr0"
    using add redis_quiet_simps
    by (auto simp: AddChannel_def Let_def setupChannelPubSub_def SubscribeToChannelEvents_def invoke_def written_simps
        split: option.splits if_splits prod.splits)
  ultimately show ?thesis by simp
next
  case (Some c0)
  then show ?thesis using f by (simp add: FindOrCreate_found)
qed

lemma post_step_result:
  assumes wf: "app_wf a" and ok: "sockets_ok E" and v: "unmarshal_any (raw_marshal (in_Data i)) = Some v"
    and conn: "FindConnection a k = Inr conn" and s: "post_step E i cid (w, a, tr) = (w', a', tr')"
  shows "w' = w" "app_wf a'" "hub_of a' = hub_of a" "FindConnection a' k = Inr conn"
    "written (Socket conn) tr' = written (Socket conn) tr
       @ (if (cid, k) \<in> subs_rel a \<and> k \<noteq> in_SocketID i then [NewResponse (in_Name i) cid v] else [])"
    "config_of a' = config_of a" "AppID a' = AppID a"
proof -
  obtain c a1 tr1 where f: "FindOrCreateChannelByChannelID E cid a tr = (c, a1, tr1)" by (rule prod_cases3)
  note fr = FindOrCreate_result [OF wf f]
  have ch: "FindChannelByChannelID a1 cid = Inr c" using fr(2) by (simp add: FindChannelByChannelID_def)
  have conn1: "FindConnection a1 k = Inr conn" using conn fr(4) by (simp add: FindConnection_def)
  have wr: "written h tr1 = written h tr" for h by (rule FindOrCreate_written [OF f])
  define ev where "ev = \<lparr>raw_Event = in_Name i, raw_Channel = cid, raw_Data = in_Data i\<rparr>"
  obtain err a2 tr2 where p: "app_Publish E c ev (in_SocketID i) a1 tr1 = (err, a2, tr2)" by (rule prod_cases3)
  have "unmarshal_any (raw_marshal (raw_Data ev)) = Some v" using v by (simp add: ev_def)
  note d = app_publish_delivers [OF fr(1) ok ch this conn1, of "in_SocketID i" tr1]
  have r: "w' = w" "a' = a2" "tr' = tr2" using s f p d by (simp_all add: post_step_def Let_def ev_def)
  show "w' = w" by (rule r)
  have e: "effect HTalk a1 a2" using effect_publish [OF fr(1), of E c ev "in_SocketID i" tr1] p by simp
  then show "app_wf a'" "config_of a' = config_of a"
    using config_FindOrCreate [of E cid a tr] f r by (simp_all add: effect_def)
  show "hub_of a' = hub_of a" using e fr(4,5) r by (simp add: effect_def hub_of_def [of a1] hub_of_def [of a])
  show "AppID a' = AppID a" using app_Publish_app [of E c ev "in_SocketID i" a1 tr1] p fr(7) r by simp
  have "connections a2 = connections a1" using app_Publish_app [of E c ev "in_SocketID i" a1 tr1] p by simp
  then show "FindConnection a' k = Inr conn" using conn1 r by (simp add: FindConnection_def)
  show "written (Socket conn) tr' = written (Socket conn) tr
       @ (if (cid, k) \<in> subs_rel a \<and> k \<noteq> in_SocketID i then [NewResponse (in_Name i) cid v] else [])"
    using d p r fr(5) wr by (simp add: ev_def)
qed

lemma post_fold:
  assumes "app_wf a" "sockets_ok E" "unmarshal_any (raw_marshal (in_Data i)) = Some v" "FindConnection a k = Inr conn"
    and "fold (post_step E i) cids (w, a, tr) = (w', a', tr')"
  shows "w' = w \<and> app_wf a' \<and> hub_of a' = hub_of a \<and> AppID a' = AppID a
    \<and> written (Socket conn) tr' = written (Socket conn) tr
       @ List.map (\<lambda>cid. NewResponse (in_Name i) cid v) (List.filter (\<lambda>cid. (cid, k) \<in> subs_rel a \<and> k \<noteq> in_SocketID i) cids)"
  using assms
proof (induction cids arbitrary: w a tr)
  case (Cons cid cids)
  obtain w1 a1 tr1 where s: "post_step E i cid (w, a, tr) = (w1, a1, tr1)" by (rule prod_cases3)
  note r = post_step_result [OF Cons.prems(1-4) s]
  have "subs_rel a1 = subs_rel a" using r(3) by (simp add: hub_of_def)
  then show ?case
    using Cons.IH [OF r(2) Cons.prems(2,3) r(4), of w1 tr1] Cons.prems(5) s r by simp
qed simp

lemma post_result:
  assumes db: "GetAppByAppID db (rq_AppID r) = Inr a" and wf: "app_wf a" and ok: "sockets_ok E"
    and i: "decode_input (rq_Body r) = Some i" and v: "unmarshal_any (raw_marshal (in_Data i)) = Some v"
    and size: "length (case in_Data i of None \<Rightarrow> [] | Some d \<Rightarrow> d) \<le> 10000"
    and conn: "FindConnection a k = Inr conn"
    and run: "PostEvents E r db tr = (w, db', tr')"
  shows "rs_Status w = Some 200 \<and> rs_Body w = ''{}''
    \<and> written (Socket conn) tr' = written (Socket conn) tr
       @ List.map (\<lambda>cid. NewResponse (in_Name i) cid v)
           (List.filter (\<lambda>cid. (cid, k) \<in> subs_rel a \<and> k \<noteq> in_SocketID i) (input_channels i))
    \<and> (\<exists>a'. GetAppByAppID db' (rq_AppID r) = Inr a' \<and> app_wf a' \<and> hub_of a' = hub_of a)"
proof -
  obtain w1 a1 tr1 where f: "fold (post_step E i) (input_channels i) (new_response, a, tr) = (w1, a1, tr1)"
    by (rule prod_cases3)
  note r = post_fold [OF wf ok v conn f]
  have res: "w = write_body ''{}'' (write_header 200 (set_content_type ''application/json'' new_response))"
    "db' = store_by_app_id (rq_AppID r) a1 db" "tr' = tr1"
    using run db i size f r by (simp_all add: decoded_or_not)
  have "rs_Status w = Some 200" "rs_Body w = ''{}''"
    by (simp_all add: res write_body_def write_header_def set_content_type_def new_response_def)
  then show ?thesis using r by_id.put_found [OF db, of a1] res by auto
qed

text \<open>
  Claim C16: posting an event answers 200 with an empty object and sends every connection the event
  once for each channel of the request that it is subscribed to, in the request's order, and never to
  the connection the request excludes; connections and subscriptions stay as they were.
\<close>

theorem post_events_delivers:
  assumes db: "GetAppByAppID db (rq_AppID r) = Inr a" and wf: "app_wf a" and ok: "sockets_ok E"
    and i: "decode_input (rq_Body r) = Some i" and v: "unmarshal_any (raw_marshal (in_Data i)) = Some v"
    and size: "length (case in_Data i of None \<Rightarrow> [] | Some d \<Rightarrow> d) \<le> 10000"
    and conn: "FindConnection a k = Inr conn"
    and run: "PostEvents E r db tr = (w, db', tr')"
  shows "rs_Status w = Some 200 \<and> rs_Body w = ''{}''
    \<and> written (Socket conn) tr' = written (Socket conn) tr
       @ List.map (\<lambda>cid. NewResponse (in_Name i) cid v)
           (List.filter (\<lambda>cid. (cid, k) \<in> subs_rel a \<and> k \<noteq> in_SocketID i) (input_channels i))
    \<and> (\<exists>a'. GetAppByAppID db' (rq_AppID r) = Inr a' \<and> app_wf a' \<and> hub_of a' = hub_of a)"
  by (rule post_result [OF assms])

definition demo_input :: string where
  "demo_input = json_object [(''name'', json_quote ''e''), (''channel'', json_quote ''private-a'')]"

lemma demo_input_decodes:
  "decode_input demo_input = Some \<lparr>in_Name = ''e'', in_Data = None, in_Channels = [], in_Channel = ''private-a'', in_SocketID = []\<rparr>"
  unfolding demo_input_def by code_simp

definition quiet_db :: storage where
  "quiet_db = \<lparr>Apps = [quiet_app]\<rparr>"

definition quiet_post :: http_request where
  "quiet_post = (demo_request_to [] demo_input)\<lparr>rq_AppID := AppID quiet_app\<rparr>"

lemma quiet_db_app: "GetAppByAppID quiet_db (rq_AppID quiet_post) = Inr quiet_app"
  by (simp add: quiet_db_def quiet_post_def GetAppByAppID_def find_app_def)

theorem post_events_delivers_witness:
  "written 2 (snd (snd (PostEvents demo_env quiet_post quiet_db []))) = [NewResponse ''e'' ''private-a'' GNil]"
proof -
  obtain w db' tr' where run: "PostEvents demo_env quiet_post quiet_db [] = (w, db', tr')" by (rule prod_cases3)
  obtain conn where conn: "FindConnection quiet_app ''2.2'' = Inr conn" "Socket conn = 2"
    by (rule quiet_app_conn [of "''2.2''" 2]) (simp_all add: quiet_app_ok(2))
  have sub: "(''private-a'', ''2.2'') \<in> subs_rel quiet_app" using quiet_app_ok(2) by (simp add: hub_of_def)
  have i: "decode_input (rq_Body quiet_post) =
      Some \<lparr>in_Name = ''e'', in_Data = None, in_Channels = [], in_Channel = ''private-a'', in_SocketID = []\<rparr>"
    using demo_input_decodes by (simp add: quiet_post_def demo_AppID)
  show ?thesis
    using post_events_delivers [OF quiet_db_app quiet_app_ok(1) demo_wf(2) i _ _ conn(1) run, of GNil] run conn(2) sub
    by (simp add: raw_marshal_def unmarshal_null input_channels_def written_simps)
qed

section \<open>Listing\<close>

lemma kv_insert_keys: "set (List.map fst (kv_insert k v m)) = insert k (set (List.map fst m))"
  by (induction k v m rule: kv_insert.induct) auto

lemma kv_insert_sorted: "sorted_wrt (<) (List.map fst m) \<Longrightarrow> sorted_wrt (<) (List.map fst (kv_insert k v m))"
proof (induction k v m rule: kv_insert.induct)
  case (2 k v k' v' m)
  consider "k < k'" | "k = k'" | "k' < k" by fastforce
  then show ?case
  proof cases
    case 3
    have "k' < fst x" if "x \<in> set (kv_insert k v m)" for x
    proof -
      have "fst x \<in> insert k (set (List.map fst m))" using that kv_insert_keys [of k v m] by auto
      then show ?thesis using 3 2(2) by auto
    qed
    with 3 2 show ?thesis by auto
  qed (use 2 in auto)
qed simp

lemma channel_map_fold:
  "sorted_wrt (<) (List.map fst m) \<Longrightarrow>
   sorted_wrt (<) (List.map fst (fold (\<lambda>c m. kv_insert (chan_ID c) (attrs c) m) cs m))
   \<and> set (List.map fst (fold (\<lambda>c m. kv_insert (chan_ID c) (attrs c) m) cs m)) = set (List.map fst m) \<union> chan_ID ` set cs"
  by (induction cs arbitrary: m) (auto simp: kv_insert_sorted kv_insert_keys simp del: set_map)

text \<open>The channels a filter selects: those of one kind, or all of them when the filter is no kind's prefix.\<close>

definition filter_selects :: "string \<Rightarrow> string \<Rightarrow> bool" where
  "filter_selects flt cid \<longleftrightarrow>
     (if flt = ''presence-'' then IsPresenceChannel cid
      else if flt = ''private-'' then IsPrivateChannel cid
      else if flt = ''public-'' then \<not> IsPresenceChannel cid \<and> \<not> IsPrivateChannel cid
      else True)"

lemma selected_filter: "selected_channels flt a = List.filter (\<lambda>c. filter_selects flt (chan_ID c)) (Channels a)"
proof -
  have "IsPublic c \<longleftrightarrow> \<not> IsPresenceChannel (chan_ID c) \<and> \<not> IsPrivateChannel (chan_ID c)" for c
    by (simp add: IsPublic_def IsPresenceOrPrivate_def IsPresence_def IsPrivate_def)
  then have p: "IsPublic = (\<lambda>c. \<not> IsPresenceChannel (chan_ID c) \<and> \<not> IsPrivateChannel (chan_ID c))"
    by (simp add: fun_eq_iff)
  show ?thesis
    by (simp add: selected_channels_def filter_selects_def PresenceChannels_def PrivateChannels_def PublicChannels_def
        IsPresence_def [abs_def] IsPrivate_def [abs_def] p)
qed

lemma selected_ids:
  assumes "app_wf a"
  shows "chan_ID ` set (selected_channels flt a) = {cid \<in> dom (roster a). filter_selects flt cid}"
proof -
  have "chan_ID (snd x) = fst x" if "x \<in> set (channels a)" for x using assms that by (auto simp: app_wf_defs)
  then have "fst ` set (channels a) = chan_ID ` snd ` set (channels a)" by (simp add: image_image)
  moreover have "dom (roster a) = set (keys (channels a))"
    by (auto simp: roster_def dest: map_of_some_keys in_keysD)
  ultimately have dom: "dom (roster a) = chan_ID ` snd ` set (channels a)" by (simp add: keys_def)
  show ?thesis unfolding dom selected_filter Channels_def by auto
qed

text \<open>
  Claim C38: listing channels answers with an object whose members are exactly the channels of the
  requested kind that the application keeps, in order, occupied or not, with an empty object for each
  (or the number of distinct users, for presence channels, when asked for); \<open>user_count\<close> on any other
  listing is an error.
\<close>

theorem channels_listed:
  assumes db: "GetAppByAppID db (rq_AppID r) = Inr a" and wf: "app_wf a"
    and flt: "flt = values_get (rq_Query r) ''filter_by_prefix''"
    and cnt: "users = (''user_count'' \<in> set (strings_split (values_get (rq_Query r) ''info'') (CHR '','')))"
  shows "if users \<and> flt \<noteq> ''presence-'' then rs_Status (fst (GetChannels r db tr)) = Some 400
    else \<exists>m. rs_Status (fst (GetChannels r db tr)) = Some 200
      \<and> rs_Body (fst (GetChannels r db tr)) = json_object [(''channels'', json_object m)] @ [CHR 0x0A]
      \<and> sorted_wrt (<) (List.map fst m) \<and> set (List.map fst m) = {cid \<in> dom (roster a). filter_selects flt cid}"
proof (cases "users \<and> flt \<noteq> ''presence-''")
  case True
  then show ?thesis using flt cnt by (simp add: GetChannels_def userCountAttr_def presencePrefix_def)
next
  case False
  let ?attrs = "\<lambda>c. if flt = ''presence-'' \<and> users then json_object [(''user_count'', int_dec (TotalUsers c))] else ''{}''"
  let ?m = "channel_map ?attrs (selected_channels flt a)"
  have "GetChannels r db tr = (encode_response (json_object [(''channels'', json_object ?m)]), db, tr)"
    unfolding GetChannels_def Let_def userCountAttr_def presencePrefix_def flt [symmetric] cnt [symmetric]
    using False db by (auto simp: cong: if_cong)
  moreover have "sorted_wrt (<) (List.map fst ?m) \<and> set (List.map fst ?m) = {cid \<in> dom (roster a). filter_selects flt cid}"
    using channel_map_fold [of "[]" ?attrs "selected_channels flt a"] selected_ids [OF wf] by (simp add: channel_map_def)
  ultimately show ?thesis
    using False by (auto simp: encode_response_def write_body_def write_header_def set_content_type_def new_response_def)
qed

theorem channels_listed_witness:
  "rs_Status (fst (GetChannels (demo_request_to [] []) demo_db [])) = Some 200"
proof -
  have q: "values_get (rq_Query (demo_request_to [] [])) ''filter_by_prefix'' = []"
    "values_get (rq_Query (demo_request_to [] [])) ''info'' = []"
    by (simp_all add: demo_request_to_def Let_def values_get_def)
  have db: "GetAppByAppID demo_db (rq_AppID (demo_request_to [] [])) = Inr demo_app" by (simp add: demo_AppID demo_db_app)
  have wf: "app_wf demo_app" by (simp add: demo_app_def app_wf_empty)
  show ?thesis using channels_listed [OF db wf refl refl, of "[]"] by (auto simp: q)
qed

end
