(* ===== verification/Api_Answers.thy ===== *)
theory Api_Answers
  imports Api_Spec
begin

text \<open>
  What the handlers of \<open>src/api/handlers.go\<close> answer: the posts that are refused, and the description
  and the users of one channel, told from the state of the application.
\<close>

section \<open>Posts that are refused\<close>

text \<open>Data that \<open>encoding/json\<close> accepts as a raw message but not as a value: a number beyond float64.\<close>

lemma undecodable_step:
  assumes "unmarshal_any (raw_marshal (in_Data i)) = None" "post_step E i cid (w, a, tr) = (w', a', tr')"
  shows "w' = http_Error ''Internal Server Error'' 500 w" "written h tr' = written h tr"
proof -
  obtain c a1 tr1 where f: "FindOrCreateChannelByChannelID E cid a tr = (c, a1, tr1)" by (rule prod_cases3)
  show "w' = http_Error ''Internal Server Error'' 500 w" "written h tr' = written h tr"
    using assms f FindOrCreate_written [OF f, of h]
    by (auto simp: post_step_def app_Publish_def channel_Publish_def publish_remote_obs Let_def split: option.splits)
qed

lemma error_again:
  assumes "rs_Status w = None \<or> rs_Status w = Some 500"
  shows "rs_Status (http_Error msg 500 w) = Some 500" "rs_Body (http_Error msg 500 w) = rs_Body w @ msg @ [CHR 0x0A]"
  using assms by (auto simp: http_Error_def write_body_def write_header_def set_content_type_def)

lemma undecodable_fold:
  assumes "unmarshal_any (raw_marshal (in_Data i)) = None" "fold (post_step E i) cids (w, a, tr) = (w', a', tr')"
    and "rs_Status w = None \<or> rs_Status w = Some 500"
  shows "rs_Status w' = (if cids = [] then rs_Status w else Some 500)
    \<and> rs_Body w' = rs_Body w @ concat (replicate (length cids) (''Internal Server Error'' @ [CHR 0x0A]))
    \<and> written h tr' = written h tr"
  using assms
proof (induction cids arbitrary: w a tr)
  case (Cons cid cids)
  obtain w1 a1 tr1 where s: "post_step E i cid (w, a, tr) = (w1, a1, tr1)" by (rule prod_cases3)
  note r = undecodable_step [OF Cons.prems(1) s]
  show ?case
    using Cons.IH [of w1 a1 tr1] Cons.prems error_again [OF Cons.prems(3), of "''Internal Server Error''"] s r by auto
qed simp

text \<open>
  Claim C33: a body that cannot be decoded is answered 400 and one whose data is longer than 10000
  bytes 413, and nothing happens; data that is no value for the server is answered 500, once for
  every channel of the request, and nobody is sent anything.
\<close>

theorem refused_posts:
  assumes db: "GetAppByAppID db (rq_AppID r) = Inr a" and run: "PostEvents E r db tr = (w, db', tr')"
  shows "case decode_input (rq_Body r) of
      None \<Rightarrow> rs_Status w = Some 400 \<and> db' = db \<and> tr' = tr
    | Some i \<Rightarrow>
        if 10000 < length (case in_Data i of None \<Rightarrow> [] | Some d \<Rightarrow> d) then rs_Status w = Some 413 \<and> db' = db \<and> tr' = tr
        else unmarshal_any (raw_marshal (in_Data i)) = None \<longrightarrow>
          rs_Status w = Some (if input_channels i = [] then 200 else 500)
          \<and> rs_Body w = concat (replicate (length (input_channels i)) (''Internal Server Error'' @ [CHR 0x0A])) @ ''{}''
          \<and> (\<forall>h. written h tr' = written h tr)"
proof (cases "decode_input (rq_Body r)")
  case None
  then show ?thesis using run db by (auto simp: decoded_or_not)
next
  case (Some i)
  obtain w1 a1 tr1 where f: "fold (post_step E i) (input_channels i) (new_response, a, tr) = (w1, a1, tr1)"
    by (rule prod_cases3)
  have n: "rs_Status new_response = None" "rs_Body new_response = []" by (simp_all add: new_response_def)
  have u: "rs_Status w1 = (if input_channels i = [] then None else Some 500)
      \<and> rs_Body w1 = concat (replicate (length (input_channels i)) (''Internal Server Error'' @ [CHR 0x0A]))
      \<and> written h tr1 = written h tr" if "unmarshal_any (raw_marshal (in_Data i)) = None" for h
    using undecodable_fold [OF that f, of h] n by simp
  show ?thesis
  proof (cases "10000 < length (case in_Data i of None \<Rightarrow> [] | Some d \<Rightarrow> d)")
    case True
    then show ?thesis using run db Some by (auto simp: decoded_or_not)
  next
    case False
    then have "w = write_body ''{}'' (write_header 200 (set_content_type ''application/json'' w1))" "tr' = tr1"
      using run db Some f by (auto simp: decoded_or_not)
    then show ?thesis
      using False Some u by (cases "unmarshal_any (raw_marshal (in_Data i))") (auto simp: write_body_def write_header_def set_content_type_def)
  qed
qed

definition huge_input :: string where
  "huge_input = ''{\"name\":\"e\",\"channel\":\"a\",\"data\":1e309}''"

lemma huge_input_decodes:
  "decode_input huge_input = Some \<lparr>in_Name = ''e'', in_Data = Some ''1e309'', in_Channels = [], in_Channel = ''a'', in_SocketID = []\<rparr>"
  unfolding huge_input_def by code_simp

lemma bit_len_bounds: "2 ^ k \<le> n \<Longrightarrow> n < 2 ^ Suc k \<Longrightarrow> bit_len n = int k + 1"
proof (induction k arbitrary: n)
  case (Suc k)
  then have "2 ^ k \<le> n div 2" "n div 2 < 2 ^ Suc k" by simp_all
  then show ?case using Suc by (simp add: bit_len.simps [of n])
next
  case 0
  then have "n = 1" by simp
  then show ?case by (simp add: bit_len.simps [of 1] bit_len.simps [of 0])
qed

lemma huge_number: "unmarshal_any ''1e309'' = None"
proof -
  define N :: int where "N = 10 ^ 309"
  have N: "2 ^ 1026 \<le> N" "N < 2 ^ Suc 1026" by (simp_all add: N_def)
  have b: "bit_len N = 1027" "bit_len 1 = 1" using bit_len_bounds [OF N] bit_len_bounds [of 0 1] by simp_all
  have l: "N * pow_int 2 (- 1026) \<ge> 1 * pow_int 2 1026" using N(1) by (simp add: pow_int_def)
  have "round_ratio False N 1 = None"
    unfolding round_ratio_def b using l by (simp add: Let_def split: prod.split)
  then have "decimal_float False 1 309 = None" by (simp add: decimal_float_def pow_int_def N_def)
  moreover have "json_parse ''1e309'' = Some (JNum ''1e309'')" by code_simp
  moreover have "json_number ''1e309'' = Some (False, ''1'', 0, 309)" "dec_val ''1'' = 1" by code_simp+
  ultimately show ?thesis by (simp add: unmarshal_any_def parse_float_def)
qed

theorem refused_posts_witness:
  "rs_Status (fst (PostEvents demo_env (demo_request_to [] huge_input) demo_db [])) = Some 500"
proof -
  obtain w db' tr' where run: "PostEvents demo_env (demo_request_to [] huge_input) demo_db [] = (w, db', tr')" by (rule prod_cases3)
  have "GetAppByAppID demo_db (rq_AppID (demo_request_to [] huge_input)) = Inr demo_app" by (simp add: demo_AppID demo_db_app)
  from refused_posts [OF this run] show ?thesis
    by (simp add: run demo_AppID huge_input_decodes huge_number raw_marshal_def input_channels_def)
qed

section \<open>One channel\<close>

lemma answer_fields [simp]:
  "rs_Status (http_Error msg code new_response) = Some code"
  "rs_Status (write_body s (set_content_type t new_response)) = Some 200"
  "rs_Body (write_body s (set_content_type t new_response)) = s"
  by (simp_all add: http_Error_def write_body_def write_header_def set_content_type_def new_response_def)

text \<open>The subscribers of a channel, and the user id of each.\<close>

definition subscribers :: "application \<Rightarrow> string \<Rightarrow> string set" where
  "subscribers a cid = {sid. (cid, sid) \<in> subs_rel a}"

definition user_of :: "application \<Rightarrow> string \<Rightarrow> string \<Rightarrow> string" where
  "user_of a cid sid = (case map_of (channels a) cid of None \<Rightarrow> []
     | Some c \<Rightarrow> (case map_of (subscriptions c) sid of None \<Rightarrow> [] | Some s \<Rightarrow> sub_ID s))"

lemma channel_counts:
  assumes "app_wf a" "FindChannelByChannelID a cid = Inr c"
  shows "chan_ID c = cid" "TotalSubscriptions c = int (card (subscribers a cid))"
    "IsOccupied c \<longleftrightarrow> subscribers a cid \<noteq> {}"
    "TotalUsers c = int (card (user_of a cid ` subscribers a cid))"
    "List.map sub_ID (Subscriptions c) = List.map (user_of a cid) (keys (subscriptions c))"
    "set (keys (subscriptions c)) = subscribers a cid"
proof -
  have m: "map_of (channels a) cid = Some c" using assms(2) by (auto simp: FindChannelByChannelID_def split: option.splits)
  have d: "distinct (keys (subscriptions c))" using app_wf_channel(2) [OF assms(1) m] by (simp add: chan_wf_def)
  show "chan_ID c = cid" by (rule app_wf_channel(1) [OF assms(1) m])
  show s: "set (keys (subscriptions c)) = subscribers a cid" using m by (auto simp: subscribers_def subs_rel_def)
  then show n: "TotalSubscriptions c = int (card (subscribers a cid))"
    using distinct_card [OF d] by (simp add: TotalSubscriptions_def keys_def)
  show "IsOccupied c \<longleftrightarrow> subscribers a cid \<noteq> {}" using s by (auto simp: IsOccupied_def TotalSubscriptions_def keys_def)
  show u: "List.map sub_ID (Subscriptions c) = List.map (user_of a cid) (keys (subscriptions c))"
    using d m by (auto simp: Subscriptions_def user_of_def keys_def)
  have "sub_ID ` set (Subscriptions c) = user_of a cid ` subscribers a cid"
    using arg_cong [OF u, of set] by (simp add: s)
  then show "TotalUsers c = int (card (user_of a cid ` subscribers a cid))" by (simp add: users_counted)
qed

text \<open>
  The description of a channel says whether anybody is subscribed and, as asked for, how
  many connections are and how many different users; a count of zero is left out, the number of
  users of a channel that is no presence channel is refused, and so is a channel that does not exist.
\<close>

theorem channel_described:
  assumes db: "GetAppByAppID db (rq_AppID r) = Inr a" and wf: "app_wf a" and name: "strings_trim_space (rq_ChannelName r) \<noteq> []"
    and info: "info = set (strings_split (values_get (rq_Query r) ''info'') (CHR '',''))"
  shows "case map_of (channels a) (rq_ChannelName r) of
      None \<Rightarrow> rs_Status (fst (GetChannel r db tr)) = Some 400
    | Some c \<Rightarrow>
        if ''user_count'' \<in> info \<and> \<not> IsPresenceChannel (rq_ChannelName r) then rs_Status (fst (GetChannel r db tr)) = Some 400
        else let sids = subscribers a (rq_ChannelName r); uids = user_of a (rq_ChannelName r) ` sids
          in rs_Status (fst (GetChannel r db tr)) = Some 200
           \<and> rs_Body (fst (GetChannel r db tr)) = json_object
               ((''occupied'', if sids \<noteq> {} then ''true'' else ''false'')
                # (if ''user_count'' \<in> info \<and> sids \<noteq> {} then [(''user_count'', int_dec (int (card uids)))] else [])
                @ (if ''subscription_count'' \<in> info \<and> sids \<noteq> {} then [(''subscription_count'', int_dec (int (card sids)))] else []))
               @ [CHR 0x0A]"
proof (cases "map_of (channels a) (rq_ChannelName r)")
  case None
  then show ?thesis using db name by (simp add: GetChannel_def FindChannelByChannelID_def)
next
  case (Some c)
  let ?cid = "rq_ChannelName r"
  have f: "FindChannelByChannelID a ?cid = Inr c" using Some by (simp add: FindChannelByChannelID_def)
  note c = channel_counts [OF wf f]
  have fin: "finite (subscribers a ?cid)" by (simp flip: c(6))
  have z: "card (subscribers a ?cid) = 0 \<longleftrightarrow> subscribers a ?cid = {}"
    "card (user_of a ?cid ` subscribers a ?cid) = 0 \<longleftrightarrow> subscribers a ?cid = {}" using fin by simp_all
  have p: "IsPresence c = IsPresenceChannel ?cid" by (simp add: IsPresence_def c(1))
  show ?thesis
    using Some db name z
    by (simp add: GetChannel_def f info [symmetric] p c(2,3,4) omit_zero_def encode_response_def answer_fields Let_def)
qed

text \<open>
  Claim C39: the users of a presence channel are listed with one entry for each connection, so a user
  who is connected twice is listed twice, where \<open>user_count\<close> counts him once.
\<close>

theorem users_listed:
  assumes db: "GetAppByAppID db (rq_AppID r) = Inr a" and wf: "app_wf a"
    and pres: "IsPresenceChannel (rq_ChannelName r)" and c: "map_of (channels a) (rq_ChannelName r) = Some c"
  shows "\<exists>uids. mset uids = image_mset (user_of a (rq_ChannelName r)) (mset_set (subscribers a (rq_ChannelName r)))
    \<and> rs_Status (fst (GetChannelUsers r db tr)) = Some 200
    \<and> rs_Body (fst (GetChannelUsers r db tr)) = json_object [(''users'',
         if uids = [] then ''null'' else json_array (List.map (\<lambda>u. json_object [(''id'', json_quote u)]) uids))] @ [CHR 0x0A]
    \<and> int (length uids) = TotalSubscriptions c \<and> int (card (set uids)) = TotalUsers c"
proof -
  let ?cid = "rq_ChannelName r"
  have f: "FindChannelByChannelID a ?cid = Inr c" using c by (simp add: FindChannelByChannelID_def)
  note n = channel_counts [OF wf f]
  have d: "distinct (keys (subscriptions c))" using app_wf_channel(2) [OF wf c] by (simp add: chan_wf_def)
  let ?uids = "List.map (user_of a ?cid) (keys (subscriptions c))"
  have "mset ?uids = image_mset (user_of a ?cid) (mset_set (subscribers a ?cid))"
    using mset_set_set [OF d] by (simp add: n(6))
  moreover have "int (length ?uids) = TotalSubscriptions c" by (simp add: TotalSubscriptions_def keys_def)
  moreover have "int (card (set ?uids)) = TotalUsers c" by (simp add: n(4,6))
  moreover have "List.map (\<lambda>s. json_object [(''id'', json_quote (sub_ID s))]) (Subscriptions c)
      = List.map (\<lambda>u. json_object [(''id'', json_quote u)]) ?uids"
    unfolding n(5) [symmetric] by simp
  ultimately show ?thesis
    using db pres
    by (intro exI [of _ ?uids])
       (simp add: GetChannelUsers_def f Let_def encode_response_def)
qed

text \<open>A presence channel with two connections of one user.\<close>

definition twice_channel :: channel where
  "twice_channel = demo_channel\<lparr>subscriptions := [(''1.1'', demo_sub ''1.1'' 1 ''u1''), (''2.2'', demo_sub ''2.2'' 2 ''u1'')]\<rparr>"

definition twice_app :: application where
  "twice_app = demo_app\<lparr>channels := [(''presence-a'', twice_channel)],
     connections := [(''1.1'', demo_conn ''1.1'' 1), (''2.2'', demo_conn ''2.2'' 2)],
     Stats := (\<lambda>n. if n = ''TotalConnections'' then 2 else if n \<in> {''TotalChannels'', ''TotalPresenceChannels''} then 1 else 0)\<rparr>"

definition twice_db :: storage where
  "twice_db = \<lparr>Apps = [twice_app]\<rparr>"

lemma twice_app_ok:
  "app_wf twice_app" "GetAppByAppID twice_db (rq_AppID (demo_request_to ch body)) = Inr twice_app"
  "map_of (channels twice_app) ''presence-a'' = Some twice_channel" "IsPresenceChannel ''presence-a''"
  "rq_ChannelName (demo_request_to ch body) = ch" "rq_AppID (demo_request_to ch body) = ''1''"
proof -
  have "chan_wf twice_channel" using demo_wf(1) by (simp add: chan_wf_def listeners_quiet_def twice_channel_def demo_defs)
  then show "app_wf twice_app"
    by (simp add: app_wf_defs twice_app_def twice_channel_def demo_app_def empty_application_def demo_defs count_keys_def
        public_name_def IsPresenceChannel_def IsPrivateChannel_def)
  show "GetAppByAppID twice_db (rq_AppID (demo_request_to ch body)) = Inr twice_app"
    by (simp add: twice_db_def GetAppByAppID_def find_app_def demo_AppID twice_app_def demo_app_def empty_application_def)
  show "map_of (channels twice_app) ''presence-a'' = Some twice_channel" by (simp add: twice_app_def)
  show "IsPresenceChannel ''presence-a''" by (simp add: IsPresenceChannel_def)
  show "rq_ChannelName (demo_request_to ch body) = ch" "rq_AppID (demo_request_to ch body) = ''1''"
    by (simp_all add: demo_request_to_def Let_def)
qed

theorem users_listed_witness:
  "\<exists>uids. rs_Body (fst (GetChannelUsers (demo_request_to ''presence-a'' []) twice_db [])) = json_object [(''users'',
       if uids = [] then ''null'' else json_array (List.map (\<lambda>u. json_object [(''id'', json_quote u)]) uids))] @ [CHR 0x0A]
     \<and> length uids = 2 \<and> card (set uids) = 1"
proof -
  let ?r = "demo_request_to ''presence-a'' []"
  have p: "IsPresenceChannel (rq_ChannelName ?r)" "map_of (channels twice_app) (rq_ChannelName ?r) = Some twice_channel"
    by (simp_all add: twice_app_ok)
  have n: "TotalSubscriptions twice_channel = 2" "TotalUsers twice_channel = 1"
    by (simp_all add: TotalSubscriptions_def users_counted Subscriptions_def twice_channel_def demo_sub_def)
  obtain uids where "rs_Body (fst (GetChannelUsers ?r twice_db [])) = json_object [(''users'',
       if uids = [] then ''null'' else json_array (List.map (\<lambda>u. json_object [(''id'', json_quote u)]) uids))] @ [CHR 0x0A]"
    "int (length uids) = 2" "int (card (set uids)) = 1"
    using users_listed [OF twice_app_ok(2,1) p, of "[]"] unfolding n by blast
  then show ?thesis by (intro exI [of _ uids]) simp
qed

theorem channel_described_witness:
  "rs_Status (fst (GetChannel (demo_request_to ''presence-a'' []) twice_db [])) = Some 200
   \<and> rs_Status (fst (GetChannel (demo_request_to ''presence-b'' []) twice_db [])) = Some 400"
proof -
  have t: "strings_trim_space ''presence-a'' \<noteq> []" "strings_trim_space ''presence-b'' \<noteq> []" by code_simp+
  have n: "strings_trim_space (rq_ChannelName (demo_request_to ''presence-a'' [])) \<noteq> []"
    "strings_trim_space (rq_ChannelName (demo_request_to ''presence-b'' [])) \<noteq> []" using t by (simp_all add: twice_app_ok(5))
  have i: "''user_count'' \<notin> set (strings_split (values_get (rq_Query (demo_request_to ch body)) ''info'') (CHR '',''))" for ch body
    by (simp add: demo_request_to_def Let_def values_get_def)
  have b: "map_of (channels twice_app) ''presence-b'' = None" by (simp add: twice_app_def)
  show ?thesis
    using channel_described [OF twice_app_ok(2,1) n(1) refl, of "[]"] channel_described [OF twice_app_ok(2,1) n(2) refl, of "[]"]
    by (simp add: twice_app_ok(3,5) b i Let_def)
qed

section \<open>Every answer\<close>

definition proper :: "http_response \<Rightarrow> bool" where
  "proper w \<longleftrightarrow> rs_Status w \<in> Some ` {200, 400, 401, 403, 413, 500}
     \<and> rs_ContentType w = (if rs_Status w = Some 200 then ''application/json'' else ''text/plain; charset=utf-8'')"

lemmas answer_defs = http_Error_def encode_response_def write_body_def write_header_def set_content_type_def new_response_def

lemma proper_error: "code \<in> {400, 401, 403, 413} \<Longrightarrow> proper (http_Error msg code new_response)"
  by (auto simp: proper_def answer_defs)

lemma proper_encode: "proper (encode_response js)"
  by (simp add: proper_def answer_defs)

lemma post_fold_answer:
  "w = new_response \<or> rs_Status w = Some 500 \<and> rs_ContentType w = ''text/plain; charset=utf-8'' \<Longrightarrow>
   fold (post_step E i) cids (w, a, tr) = (w', a', tr') \<Longrightarrow>
   w' = new_response \<or> rs_Status w' = Some 500 \<and> rs_ContentType w' = ''text/plain; charset=utf-8''"
proof (induction cids arbitrary: w a tr)
  case (Cons cid cids)
  obtain w1 a1 tr1 where s: "post_step E i cid (w, a, tr) = (w1, a1, tr1)" by (rule prod_cases3)
  have "w1 = w \<or> w1 = http_Error ''Internal Server Error'' 500 w"
    using s by (auto simp: post_step_def Let_def split: prod.splits option.splits)
  then have "w1 = new_response \<or> rs_Status w1 = Some 500 \<and> rs_ContentType w1 = ''text/plain; charset=utf-8''"
    using Cons.prems(1) by (auto simp: answer_defs)
  then show ?case using Cons.IH [of w1 a1 tr1] Cons.prems(2) s by simp
qed simp

lemma proper_post: "proper (fst (PostEvents E r db tr))"
proof -
  have "proper (write_body ''{}'' (write_header 200 (set_content_type ''application/json'' w1)))"
    if "fold (post_step E i) (input_channels i) (new_response, a, tr) = (w1, a1, tr1)" for i a w1 a1 tr1
    using post_fold_answer [OF disjI1 [OF refl] that]
    by (auto simp: proper_def write_body_def write_header_def set_content_type_def new_response_def)
  then show ?thesis
    by (auto simp: decoded_or_not proper_error split: sum.split option.split prod.split)
qed

lemma proper_route: "proper (fst (route_handler E rt r db tr))"
  using proper_post [of E r db tr]
  by (cases rt)
     (simp_all add: GetChannels_def GetChannel_def GetChannelUsers_def Let_def proper_error proper_encode split: sum.split)

text \<open>
  Claim C40: whatever is asked, the API answers with one of six status codes, with JSON if and only
  if the status is 200 and with a line of plain text otherwise.
\<close>

theorem api_answers:
  "\<exists>code \<in> {200, 400, 401, 403, 413, 500}. rs_Status (fst (serve_api E rt r db tr)) = Some code
    \<and> rs_ContentType (fst (serve_api E rt r db tr)) = (if code = 200 then ''application/json'' else ''text/plain; charset=utf-8'')"
proof -
  have "proper (fst (serve_api E rt r db tr))"
    using proper_route [of E rt r db tr]
    by (simp add: serve_api_def CheckAppDisabled_def Authentication_def proper_error split: sum.split)
  then show ?thesis by (auto simp: proper_def split: if_splits)
qed

end
