(* ===== verification/Registry_Spec.thy ===== *)
theory Registry_Spec
  imports Prelude
begin

text \<open>
  What the server relies on when it asks which instance holds a connection: the contract of a registry
  of connections, whatever keeps it, and what follows from the contract for any sequence of
  registrations and removals. \<open>src/redis/redis.go\<close> and \<open>src/testutils/mock_redis.go\<close> both implement it.
\<close>

datatype reg_op = Reg string string | Unreg string string

fun reg_key :: "reg_op \<Rightarrow> string \<times> string" where
  "reg_key (Reg a k) = (a, k)"
| "reg_key (Unreg a k) = (a, k)"

fun is_reg :: "reg_op \<Rightarrow> bool" where
  "is_reg (Reg a k) = True"
| "is_reg (Unreg a k) = False"

text \<open>Who is registered after a sequence: the last operation on the key decides.\<close>

definition last_op :: "reg_op list \<Rightarrow> string \<Rightarrow> string \<Rightarrow> reg_op option" where
  "last_op ops a k = List.find (\<lambda>op. reg_key op = (a, k)) (rev ops)"

locale registry =
  fixes good :: "'s \<Rightarrow> bool" and id_ok :: "string \<Rightarrow> bool"
    and register :: "string \<Rightarrow> string \<Rightarrow> 's \<Rightarrow> 's" and unregister :: "string \<Rightarrow> string \<Rightarrow> 's \<Rightarrow> 's"
    and instance_of :: "string \<Rightarrow> string \<Rightarrow> 's \<Rightarrow> string option" and self :: string
  assumes register_good: "good s \<Longrightarrow> id_ok a \<Longrightarrow> id_ok k \<Longrightarrow> good (register a k s)"
    and unregister_good: "good s \<Longrightarrow> id_ok a \<Longrightarrow> id_ok k \<Longrightarrow> good (unregister a k s)"
    and instance_register: "good s \<Longrightarrow> id_ok a \<Longrightarrow> id_ok k \<Longrightarrow> id_ok a' \<Longrightarrow> id_ok k' \<Longrightarrow>
      instance_of a' k' (register a k s) = (if (a', k') = (a, k) then Some self else instance_of a' k' s)"
    and instance_unregister: "good s \<Longrightarrow> id_ok a \<Longrightarrow> id_ok k \<Longrightarrow> id_ok a' \<Longrightarrow> id_ok k' \<Longrightarrow>
      instance_of a' k' (unregister a k s) = (if (a', k') = (a, k) then None else instance_of a' k' s)"
begin

definition step :: "reg_op \<Rightarrow> 's \<Rightarrow> 's" where
  "step op s = (case op of Reg a k \<Rightarrow> register a k s | Unreg a k \<Rightarrow> unregister a k s)"

definition op_ok :: "reg_op \<Rightarrow> bool" where
  "op_ok op \<longleftrightarrow> id_ok (fst (reg_key op)) \<and> id_ok (snd (reg_key op))"

lemma step_good: "good s \<Longrightarrow> op_ok op \<Longrightarrow> good (step op s)"
  by (cases op) (simp_all add: step_def op_ok_def register_good unregister_good)

lemma instance_step:
  "good s \<Longrightarrow> op_ok op \<Longrightarrow> id_ok a \<Longrightarrow> id_ok k \<Longrightarrow>
   instance_of a k (step op s) = (if reg_key op = (a, k) then (if is_reg op then Some self else None) else instance_of a k s)"
  by (cases op) (auto simp: step_def op_ok_def instance_register instance_unregister)

lemma steps_good: "good s \<Longrightarrow> list_all op_ok ops \<Longrightarrow> good (fold step ops s)"
  by (induction ops arbitrary: s) (simp_all add: step_good)

lemma history:
  assumes "good s" "list_all op_ok ops" "id_ok a" "id_ok k"
  shows "instance_of a k (fold step ops s) =
    (case last_op ops a k of None \<Rightarrow> instance_of a k s | Some op \<Rightarrow> if is_reg op then Some self else None)"
  using assms
proof (induction ops rule: rev_induct)
  case (snoc op ops)
  then have g: "good (fold step ops s)" "op_ok op" by (simp_all add: steps_good)
  show ?case using snoc instance_step [OF g assms(3,4)] by (simp add: last_op_def)
qed (simp add: last_op_def)

end

end
