(* ===== verification/Registry.thy ===== *)
theory Registry
  imports Wire Registry_Spec
begin

text \<open>
  The registry that the instances of the server share: what \<open>src/redis/redis.go\<close> stores in Redis is
  found again, by every instance, until it is removed or its time to live ends. Redis is the
  environment; \<open>redis_law\<close> states the documented behaviour of the commands \<open>SET\<close> with \<open>EX\<close>, \<open>DEL\<close>,
  \<open>EXPIRE\<close> and \<open>GET\<close> on the history of calls, with the server's clock as a parameter.
\<close>

section \<open>The commands of Redis on string keys\<close>

text \<open>The value of a key and the second its time to live ends, read off the calls, newest first.\<close>

primrec kv_entry :: "(trace \<Rightarrow> int) \<Rightarrow> trace \<Rightarrow> string \<Rightarrow> (string \<times> int) option" where
  "kv_entry clk [] k = None"
| "kv_entry clk (x # tr) k =
     (case fst x of
        RedisSet k' v ttl \<Rightarrow> if k' = k \<and> succeeded (snd x) then Some (v, clk tr + ttl) else kv_entry clk tr k
      | RedisDel k' \<Rightarrow> if k' = k \<and> succeeded (snd x) then None else kv_entry clk tr k
      | RedisExpire k' ttl \<Rightarrow>
          if k' = k \<and> succeeded (snd x)
          then (case kv_entry clk tr k of None \<Rightarrow> None
                | Some (v, t) \<Rightarrow> if clk tr < t then Some (v, clk tr + ttl) else None)
          else kv_entry clk tr k
      | _ \<Rightarrow> kv_entry clk tr k)"

definition kv_value :: "(trace \<Rightarrow> int) \<Rightarrow> trace \<Rightarrow> string \<Rightarrow> string option" where
  "kv_value clk tr k = (case kv_entry clk tr k of None \<Rightarrow> None | Some (v, t) \<Rightarrow> if clk tr < t then Some v else None)"

text \<open>The environment answers \<open>GET\<close> as Redis does, and the instance's clock gives readable times.\<close>

definition redis_law :: "(trace \<Rightarrow> int) \<Rightarrow> env \<Rightarrow> bool" where
  "redis_law clk E \<longleftrightarrow> (\<forall>tr k. E tr (RedisGet k) = (case kv_value clk tr k of None \<Rightarrow> RNil | Some v \<Rightarrow> RText v))"

definition plain_time :: "string \<Rightarrow> bool" where
  "plain_time t \<longleftrightarrow> utf8_valid t \<and> json_quote t = CHR 0x22 # t @ [CHR 0x22] \<and> rfc3339_ok t"

definition clock_ok :: "env \<Rightarrow> bool" where
  "clock_ok E \<longleftrightarrow> (\<forall>tr. \<exists>t. E tr TimeNow = RTime t \<and> plain_time (rfc3339 t))"

text \<open>A call that can change the entry of a key.\<close>

fun touches :: "string \<Rightarrow> call \<Rightarrow> bool" where
  "touches k (RedisSet k' v ttl) \<longleftrightarrow> k' = k"
| "touches k (RedisDel k') \<longleftrightarrow> k' = k"
| "touches k (RedisExpire k' ttl) \<longleftrightarrow> k' = k"
| "touches k c \<longleftrightarrow> False"

lemma kv_entry_untouched:
  "\<forall>(c, r) \<in> set later. \<not> touches k c \<Longrightarrow> kv_entry clk (later @ tr) k = kv_entry clk tr k"
  by (induction later) (auto split: call.split)

lemma kv_entry_simps [simp]:
  "kv_entry clk ((RedisGet k', r) # tr) k = kv_entry clk tr k"
  "kv_entry clk ((TimeNow, r) # tr) k = kv_entry clk tr k"
  by simp_all

section \<open>Metadata comes back as it was stored\<close>

lemma quote_reads: "utf8_valid s \<Longrightarrow> reads d (json_quote s) (JStr s)"
  using reads_mono [OF reads_quote, of s d] by simp

lemma connection_metadata_roundtrip:
  assumes "utf8_valid (cm_InstanceID m)" "utf8_valid (cm_SocketID m)" "utf8_valid (cm_AppID m)" "plain_time (cm_CreatedAt m)"
  shows "unmarshal_connection_metadata (marshal_connection_metadata m) = Some m"
proof -
  have t: "utf8_valid (cm_CreatedAt m)" "json_quote (cm_CreatedAt m) = CHR 0x22 # cm_CreatedAt m @ [CHR 0x22]"
    "rfc3339_ok (cm_CreatedAt m)" using assms(4) by (simp_all add: plain_time_def)
  have "list_all2 (field_reads 0)
      [(''instance_id'', json_quote (cm_InstanceID m)), (''socket_id'', json_quote (cm_SocketID m)),
       (''app_id'', json_quote (cm_AppID m)), (''created_at'', json_quote (cm_CreatedAt m))]
      [JStr (cm_InstanceID m), JStr (cm_SocketID m), JStr (cm_AppID m), JStr (cm_CreatedAt m)]"
    using assms t(1) by (simp add: quote_reads)
  from object_members(1) [OF this] show ?thesis
    by (simp add: unmarshal_connection_metadata_def marshal_connection_metadata_def wire_simps decode_time_def t)
qed

lemma subscription_metadata_roundtrip:
  assumes "utf8_valid (sm_SocketID m)" "utf8_valid (sm_InstanceID m)" "utf8_valid (sm_ChannelID m)"
    "utf8_valid (sm_ChannelData m)" "plain_time (sm_SubscribedAt m)"
  shows "unmarshal_subscription_metadata (marshal_subscription_metadata m) = Some m"
proof -
  have t: "utf8_valid (sm_SubscribedAt m)" "json_quote (sm_SubscribedAt m) = CHR 0x22 # sm_SubscribedAt m @ [CHR 0x22]"
    "rfc3339_ok (sm_SubscribedAt m)" using assms(5) by (simp_all add: plain_time_def)
  have "list_all2 (field_reads 0)
      ([(''socket_id'', json_quote (sm_SocketID m)), (''instance_id'', json_quote (sm_InstanceID m)),
        (''channel_id'', json_quote (sm_ChannelID m))] @ omitempty ''channel_data'' (sm_ChannelData m)
        @ [(''subscribed_at'', json_quote (sm_SubscribedAt m))])
      ([JStr (sm_SocketID m), JStr (sm_InstanceID m), JStr (sm_ChannelID m)] @ omitted ''channel_data'' (sm_ChannelData m)
        @ [JStr (sm_SubscribedAt m)])"
    using assms t(1) by (intro list_all2_appendI) (simp_all add: quote_reads)
  from object_members(1) [OF this] show ?thesis
    by (simp add: unmarshal_subscription_metadata_def marshal_subscription_metadata_def wire_simps decode_time_def t omitempty_def omitted_def)
qed

section \<open>Keys\<close>

text \<open>With ids that hold no colon, no two things are kept under one key.\<close>

abbreviation plain_id :: "string \<Rightarrow> bool" where
  "plain_id s \<equiv> CHR '':'' \<notin> set s"

lemma connection_key_eq:
  "plain_id a \<Longrightarrow> plain_id a' \<Longrightarrow> connection_key a s = connection_key a' s' \<longleftrightarrow> a = a' \<and> s = s'"
  by (simp add: connection_key_def append_sep_inj)

lemma channel_key_eq:
  "plain_id a \<Longrightarrow> plain_id a' \<Longrightarrow> plain_id c \<Longrightarrow> plain_id c' \<Longrightarrow>
   channel_key a c (CHR '':'' # x) = channel_key a' c' (CHR '':'' # x') \<longleftrightarrow> a = a' \<and> c = c' \<and> x = x'"
  by (simp add: channel_key_def append_sep_inj)

lemma connection_not_channel_key:
  "plain_id a \<Longrightarrow> plain_id a' \<Longrightarrow> connection_key a s \<noteq> channel_key a' c x"
  by (simp add: connection_key_def channel_key_def append_sep_inj)

section \<open>Registrations\<close>

lemma RegisterConnection_result:
  assumes "RegisterConnection E rc appID sid tr = (err, tr1)"
  obtains t r where "tr1 = (RedisSet (connection_key appID sid) (marshal_connection_metadata
        \<lparr>cm_InstanceID = instanceID rc, cm_SocketID = sid, cm_AppID = appID, cm_CreatedAt = rfc3339 t\<rparr>) 86400, r)
      # (TimeNow, E tr TimeNow) # tr"
    "err = None \<longleftrightarrow> succeeded r" "t = fst (time_now E tr)"
  using assms that by (auto simp: RegisterConnection_def time_now_def invoke_def Let_def day_seconds_def split: if_splits)

lemma time_now_plain: "clock_ok E \<Longrightarrow> plain_time (rfc3339 (fst (time_now E tr)))"
  unfolding clock_ok_def by (drule spec [of _ tr]) (auto simp: time_now_def invoke_def Let_def)

lemma registered_entry:
  assumes "clock_ok E" "utf8_valid (instanceID rc)" "utf8_valid sid" "utf8_valid appID"
    and "RegisterConnection E rc appID sid tr = (None, tr1)"
  shows "\<exists>v m. kv_entry clk tr1 (connection_key appID sid) = Some (v, clk (tl tr1) + 86400)
    \<and> unmarshal_connection_metadata v = Some m \<and> cm_InstanceID m = instanceID rc"
proof -
  obtain t r where tr1: "tr1 = (RedisSet (connection_key appID sid) (marshal_connection_metadata
        \<lparr>cm_InstanceID = instanceID rc, cm_SocketID = sid, cm_AppID = appID, cm_CreatedAt = rfc3339 t\<rparr>) 86400, r)
      # (TimeNow, E tr TimeNow) # tr" and r: "succeeded r" and t: "t = fst (time_now E tr)"
    using RegisterConnection_result [OF assms(5)] by metis
  let ?m = "\<lparr>cm_InstanceID = instanceID rc, cm_SocketID = sid, cm_AppID = appID, cm_CreatedAt = rfc3339 t\<rparr>"
  have "unmarshal_connection_metadata (marshal_connection_metadata ?m) = Some ?m"
    using assms(2-4) time_now_plain [OF assms(1)] by (intro connection_metadata_roundtrip) (simp_all add: t)
  then show ?thesis using r by (intro exI [of _ "marshal_connection_metadata ?m"] exI [of _ ?m]) (simp add: tr1)
qed

lemma GetConnectionInstance_law:
  assumes "redis_law clk E"
  shows "fst (GetConnectionInstance E rc appID sid tr) =
    (case kv_value clk tr (connection_key appID sid) of
       None \<Rightarrow> Inl ErrConnectionNotFound
     | Some v \<Rightarrow> (case unmarshal_connection_metadata v of None \<Rightarrow> Inl ErrUnmarshal | Some m \<Rightarrow> Inr (cm_InstanceID m)))"
  using assms by (simp add: GetConnectionInstance_def invoke_def redis_law_def Let_def split: option.split)

text \<open>
  Claim C23: a registered connection is found by every instance, with the id of the instance that
  registered it, until somebody changes its key, but for one day at most: nothing renews the
  registration, so after that day a connection that is still open is unknown to all instances.
\<close>

theorem registration_lasts_a_day:
  assumes law: "redis_law clk E" and clock: "clock_ok E"
    and utf8: "utf8_valid (instanceID rc)" "utf8_valid sid" "utf8_valid appID"
    and reg: "RegisterConnection E rc appID sid tr = (None, tr1)"
    and later: "\<forall>(c, r) \<in> set later. \<not> touches (connection_key appID sid) c"
  shows "fst (GetConnectionInstance E rc' appID sid (later @ tr1)) =
    (if clk (later @ tr1) < clk (tl tr1) + 86400 then Inr (instanceID rc) else Inl ErrConnectionNotFound)"
  using registered_entry [OF clock utf8 reg, of clk] kv_entry_untouched [OF later, of clk tr1]
  by (auto simp: GetConnectionInstance_law [OF law] kv_value_def)

text \<open>
  A subscription is stored under keys of its own: with ids that hold no colon, the keys of
  two connections, two channels, or two subscriptions are equal only if the ids are.
\<close>

theorem redis_keys_distinct:
  assumes "plain_id a" "plain_id a'" "plain_id c" "plain_id c'"
  shows "(connection_key a s = connection_key a' s' \<longleftrightarrow> a = a' \<and> s = s')
    \<and> (metadata_key a c s = metadata_key a' c' s' \<longleftrightarrow> a = a' \<and> c = c' \<and> s = s')
    \<and> (info_key a c s = info_key a' c' s' \<longleftrightarrow> a = a' \<and> c = c' \<and> s = s')
    \<and> (events_key a c = events_key a' c' \<longleftrightarrow> a = a' \<and> c = c')
    \<and> distinct [connection_key a s, subscriptions_key a' c, metadata_key a c' s', events_key a c, presence_key a' c', info_key a c s]"
  using assms by (simp add: connection_key_eq channel_key_eq connection_not_channel_key)

text \<open>A Redis that behaves so, on top of any other environment.\<close>

definition redis_env :: "(trace \<Rightarrow> int) \<Rightarrow> env \<Rightarrow> env" where
  "redis_env clk E tr c =
     (case c of RedisGet k \<Rightarrow> (case kv_value clk tr k of None \<Rightarrow> RNil | Some v \<Rightarrow> RText v) | _ \<Rightarrow> E tr c)"

lemma redis_env_law: "redis_law clk (redis_env clk E)"
  by (simp add: redis_law_def redis_env_def)

definition demo_redis :: "redis_client" where
  "demo_redis = \<lparr>instanceID = ''i1'', isCluster = False\<rparr>"

definition demo_answers :: env where
  "demo_answers tr c = (case c of TimeNow \<Rightarrow> RTime \<lparr>unix_nano = 0, rfc3339 = ''2024-02-29T10:00:00Z''\<rparr> | _ \<Rightarrow> ROk)"

lemma demo_redis_instance [simp]: "instanceID demo_redis = ''i1''"
  by (simp add: demo_redis_def)

lemma demo_answers_time: "plain_time ''2024-02-29T10:00:00Z''"
  unfolding plain_time_def by (intro conjI; code_simp)

lemma demo_env_ok: "clock_ok (redis_env clk demo_answers)"
  by (simp add: clock_ok_def redis_env_def demo_answers_def demo_answers_time)

lemma demo_utf8: "utf8_valid ''i1''" "utf8_valid ''1.1''" "utf8_valid ''1''"
  by (simp_all add: utf8_valid.simps is_ascii_def)

text \<open>Each call takes 50000 seconds: the first lookup finds the connection, a later one does not.\<close>

definition slow_clock :: "trace \<Rightarrow> int" where
  "slow_clock tr = 50000 * int (length tr)"

theorem registration_lasts_a_day_witness:
  "let E = redis_env slow_clock demo_answers; tr1 = snd (RegisterConnection E demo_redis ''1'' ''1.1'' [])
   in fst (GetConnectionInstance E demo_redis ''1'' ''1.1'' tr1) = Inr ''i1''
    \<and> fst (GetConnectionInstance E demo_redis ''1'' ''1.1'' ((NewUUID, ROk) # tr1)) = Inl ErrConnectionNotFound"
proof -
  let ?E = "redis_env slow_clock demo_answers"
  obtain tr1 where reg: "RegisterConnection ?E demo_redis ''1'' ''1.1'' [] = (None, tr1)" and len: "length tr1 = 2"
    by (simp add: RegisterConnection_def time_now_def invoke_def Let_def redis_env_def demo_answers_def succeeded_def)
  have u: "utf8_valid (instanceID demo_redis)" by (simp add: demo_utf8)
  note w = registration_lasts_a_day [OF redis_env_law demo_env_ok u demo_utf8(2,3) reg]
  show ?thesis
    using w [of "[]" demo_redis] w [of "[(NewUUID, ROk)]" demo_redis] len
    by (simp add: reg slow_clock_def)
qed

theorem redis_keys_distinct_witness:
  "connection_key ''1'' ''1.1'' \<noteq> connection_key ''1'' ''1.2'' \<and> events_key ''1'' ''a'' \<noteq> events_key ''1'' ''b''
   \<and> metadata_key ''1'' ''a'' ''1.1'' \<noteq> metadata_key ''1'' ''b'' ''1.1''"
  using redis_keys_distinct [of "''1''" "''1''" "''a''" "''b''" "''1.1''" "''1.2''"]
    redis_keys_distinct [of "''1''" "''1''" "''a''" "''b''" "''1.1''" "''1.1''"] by simp

section \<open>Subscriptions\<close>

lemma SubscribeToChannel_result:
  assumes "SubscribeToChannel E rc appID cid sid data tr = (None, tr1)"
  obtains r1 r2 r3 where "succeeded r2"
    "tr1 = (RedisExpire (subscriptions_key appID cid) 86400, r3)
      # (RedisSet (metadata_key appID cid sid) (marshal_subscription_metadata
          \<lparr>sm_SocketID = sid, sm_InstanceID = instanceID rc, sm_ChannelID = cid, sm_ChannelData = data,
           sm_SubscribedAt = rfc3339 (fst (time_now E ((RedisSAdd (subscriptions_key appID cid) sid, r1) # tr)))\<rparr>) 86400, r2)
      # (TimeNow, E ((RedisSAdd (subscriptions_key appID cid) sid, r1) # tr) TimeNow)
      # (RedisSAdd (subscriptions_key appID cid) sid, r1) # tr"
  using assms that by (auto simp: SubscribeToChannel_def time_now_def invoke_def Let_def day_seconds_def split: if_splits)

lemma GetSubscriptionMetadata_law:
  assumes "redis_law clk E"
  shows "fst (GetSubscriptionMetadata E rc appID cid sid tr) =
    (case kv_value clk tr (metadata_key appID cid sid) of
       None \<Rightarrow> Inl ErrSubscriptionNotFound
     | Some v \<Rightarrow> (case unmarshal_subscription_metadata v of None \<Rightarrow> Inl ErrUnmarshal | Some m \<Rightarrow> Inr m))"
  using assms by (simp add: GetSubscriptionMetadata_def invoke_def redis_law_def Let_def split: option.split)

text \<open>
  What an instance stores about a subscription is what any instance reads back: socket id,
  channel, channel data and the id of the storing instance, for a day; unsubscribing removes it.
\<close>

theorem subscription_found:
  assumes law: "redis_law clk E" and clock: "clock_ok E"
    and utf8: "utf8_valid (instanceID rc)" "utf8_valid sid" "utf8_valid cid" "utf8_valid data"
    and sub: "SubscribeToChannel E rc appID cid sid data tr = (None, tr1)"
    and later: "\<forall>(c, r) \<in> set later. \<not> touches (metadata_key appID cid sid) c"
    and day: "clk (later @ tr1) < clk (tl (tl tr1)) + 86400"
    and un: "UnsubscribeFromChannel E rc' appID cid sid (later @ tr1) = (None, tr2)" "succeeded (snd (hd tr2))"
  shows "(\<exists>m. fst (GetSubscriptionMetadata E rc' appID cid sid (later @ tr1)) = Inr m
      \<and> sm_SocketID m = sid \<and> sm_InstanceID m = instanceID rc \<and> sm_ChannelID m = cid \<and> sm_ChannelData m = data)
    \<and> fst (GetSubscriptionMetadata E rc' appID cid sid tr2) = Inl ErrSubscriptionNotFound"
proof (rule SubscribeToChannel_result [OF sub])
  fix r1 r2 r3
  let ?k = "metadata_key appID cid sid"
  let ?tr0 = "(RedisSAdd (subscriptions_key appID cid) sid, r1) # tr"
  let ?m = "\<lparr>sm_SocketID = sid, sm_InstanceID = instanceID rc, sm_ChannelID = cid, sm_ChannelData = data,
           sm_SubscribedAt = rfc3339 (fst (time_now E ?tr0))\<rparr>"
  assume r2: "succeeded r2" and tr1: "tr1 = (RedisExpire (subscriptions_key appID cid) 86400, r3)
      # (RedisSet ?k (marshal_subscription_metadata ?m) 86400, r2) # (TimeNow, E ?tr0 TimeNow) # ?tr0"
  have "unmarshal_subscription_metadata (marshal_subscription_metadata ?m) = Some ?m"
    using utf8 time_now_plain [OF clock] by (intro subscription_metadata_roundtrip) simp_all
  moreover have "kv_entry clk (later @ tr1) ?k = Some (marshal_subscription_metadata ?m, clk (tl (tl tr1)) + 86400)"
    unfolding kv_entry_untouched [OF later] using r2 by (simp add: tr1 channel_key_def)
  moreover have "kv_entry clk tr2 ?k = None"
    using un by (auto simp: UnsubscribeFromChannel_def invoke_def Let_def split: if_splits)
  ultimately show ?thesis using day by (simp add: GetSubscriptionMetadata_law [OF law] kv_value_def)
qed

theorem subscription_found_witness:
  "\<exists>m. fst (GetSubscriptionMetadata (redis_env (\<lambda>_. 0) demo_answers) demo_redis ''1'' ''a'' ''1.1''
      (snd (SubscribeToChannel (redis_env (\<lambda>_. 0) demo_answers) demo_redis ''1'' ''a'' ''1.1'' [] []))) = Inr m
    \<and> sm_SocketID m = ''1.1''"
proof -
  let ?E = "redis_env (\<lambda>_. 0) demo_answers"
  obtain tr1 where sub: "SubscribeToChannel ?E demo_redis ''1'' ''a'' ''1.1'' [] [] = (None, tr1)"
    by (simp add: SubscribeToChannel_def time_now_def invoke_def Let_def redis_env_def demo_answers_def succeeded_def)
  obtain tr2 where un: "UnsubscribeFromChannel ?E demo_redis ''1'' ''a'' ''1.1'' tr1 = (None, tr2)" "succeeded (snd (hd tr2))"
    by (simp add: UnsubscribeFromChannel_def invoke_def Let_def redis_env_def demo_answers_def succeeded_def)
  have u: "utf8_valid (instanceID demo_redis)" "utf8_valid ''a''" "utf8_valid []"
    by (simp_all add: utf8_valid.simps is_ascii_def)
  show ?thesis
    using subscription_found [OF redis_env_law demo_env_ok u(1) demo_utf8(2) u(2,3) sub, of "[]" demo_redis tr2] un
    by (auto simp: sub)
qed

section \<open>The client as a registry\<close>

text \<open>
  Within a day of a clock that starts at zero, on a Redis that accepts what is written, the client's
  operations are a registry: the state is the history of calls.
\<close>

definition lasting :: "(trace \<Rightarrow> int) \<Rightarrow> trace \<Rightarrow> bool" where
  "lasting clk tr \<longleftrightarrow> (\<forall>a k v t. kv_entry clk tr (connection_key a k) = Some (v, t) \<longrightarrow> 86400 \<le> t)"

definition redis_id :: "string \<Rightarrow> bool" where
  "redis_id s \<longleftrightarrow> plain_id s \<and> utf8_valid s"

definition instance_in :: "env \<Rightarrow> redis_client \<Rightarrow> string \<Rightarrow> string \<Rightarrow> trace \<Rightarrow> string option" where
  "instance_in E rc a k tr = (case fst (GetConnectionInstance E rc a k tr) of Inr i \<Rightarrow> Some i | Inl e \<Rightarrow> None)"

locale redis_day =
  fixes E :: env and clk :: "trace \<Rightarrow> int" and rc :: redis_client
  assumes law: "redis_law clk E" and clock: "clock_ok E" and utf8: "utf8_valid (instanceID rc)"
    and accepts: "succeeded (E tr (RedisSet k v ttl))" "succeeded (E tr (RedisDel k))"
    and day: "0 \<le> clk tr" "clk tr < 86400"
begin

lemma register_none: "fst (RegisterConnection E rc a k tr) = None"
  using accepts(1) by (simp add: RegisterConnection_def invoke_def Let_def split: prod.split)

lemma register_lasting: "lasting clk tr \<Longrightarrow> lasting clk (snd (RegisterConnection E rc a k tr))"
  unfolding lasting_def using day(1)
  by (auto simp: RegisterConnection_def time_now_def invoke_def Let_def day_seconds_def split: if_splits)

lemma register_entry_other:
  "plain_id a \<Longrightarrow> plain_id a' \<Longrightarrow> (a', k') \<noteq> (a, k) \<Longrightarrow>
   kv_entry clk (snd (RegisterConnection E rc a k tr)) (connection_key a' k') = kv_entry clk tr (connection_key a' k')"
  by (auto simp: RegisterConnection_def time_now_def invoke_def Let_def connection_key_eq)

lemma unregister_entry:
  "plain_id a \<Longrightarrow> plain_id a' \<Longrightarrow> kv_entry clk (snd (UnregisterConnection E rc a k tr)) (connection_key a' k') =
     (if (a', k') = (a, k) then None else kv_entry clk tr (connection_key a' k'))"
  using accepts(2) by (auto simp: UnregisterConnection_def invoke_def Let_def connection_key_eq)

lemma unregister_lasting: "lasting clk tr \<Longrightarrow> lasting clk (snd (UnregisterConnection E rc a k tr))"
  using accepts(2) unfolding lasting_def by (auto simp: UnregisterConnection_def invoke_def Let_def split: if_splits)

lemma value_lasting:
  "lasting clk tr \<Longrightarrow> kv_value clk tr (connection_key a k) = map_option fst (kv_entry clk tr (connection_key a k))"
  using day(2) [of tr] unfolding lasting_def kv_value_def
  by (cases "kv_entry clk tr (connection_key a k)") fastforce+

lemma instance_entry:
  "lasting clk tr \<Longrightarrow> instance_in E rc a k tr = (case kv_entry clk tr (connection_key a k) of None \<Rightarrow> None
     | Some (v, t) \<Rightarrow> map_option cm_InstanceID (unmarshal_connection_metadata v))"
  by (auto simp: instance_in_def GetConnectionInstance_law [OF law] value_lasting split: option.split)

end

sublocale redis_day \<subseteq> reg: registry "lasting clk" redis_id
  "\<lambda>a k tr. snd (RegisterConnection E rc a k tr)" "\<lambda>a k tr. snd (UnregisterConnection E rc a k tr)"
  "instance_in E rc" "instanceID rc"
proof
  fix a k a' k' :: string and tr
  assume g: "lasting clk tr" and ok: "redis_id a" "redis_id k" "redis_id a'" "redis_id k'"
  note reg = register_lasting [OF g, of a k] and un = unregister_lasting [OF g, of a k]
  have p: "plain_id a" "plain_id a'" and u: "utf8_valid a" "utf8_valid k" using ok by (simp_all add: redis_id_def)
  show "instance_in E rc a' k' (snd (RegisterConnection E rc a k tr)) =
    (if (a', k') = (a, k) then Some (instanceID rc) else instance_in E rc a' k' tr)"
  proof (cases "(a', k') = (a, k)")
    case True
    have "RegisterConnection E rc a k tr = (None, snd (RegisterConnection E rc a k tr))"
      using register_none [of a k tr] by (metis prod.collapse)
    from registered_entry [OF clock utf8 u(2,1) this, of clk] True show ?thesis by (auto simp: instance_entry [OF reg])
  next
    case False
    then show ?thesis by (simp only: instance_entry [OF reg] instance_entry [OF g] register_entry_other [OF p False] if_False)
  qed
  show "instance_in E rc a' k' (snd (UnregisterConnection E rc a k tr)) =
    (if (a', k') = (a, k) then None else instance_in E rc a' k' tr)"
    by (simp add: instance_entry [OF un] instance_entry [OF g] unregister_entry [OF p])
qed (simp_all add: register_lasting unregister_lasting)

fun client_step :: "env \<Rightarrow> redis_client \<Rightarrow> reg_op \<Rightarrow> trace \<Rightarrow> trace" where
  "client_step E rc (Reg a k) tr = snd (RegisterConnection E rc a k tr)"
| "client_step E rc (Unreg a k) tr = snd (UnregisterConnection E rc a k tr)"

definition reg_ids_ok :: "reg_op list \<Rightarrow> bool" where
  "reg_ids_ok ops \<longleftrightarrow> (\<forall>op \<in> set ops. redis_id (fst (reg_key op)) \<and> redis_id (snd (reg_key op)))"

context redis_day begin

lemma client_step_is: "client_step E rc = reg.step"
proof (intro ext)
  fix op tr
  show "client_step E rc op tr = reg.step op tr" by (cases op) (simp_all add: reg.step_def)
qed

lemma client_history:
  assumes "reg_ids_ok ops" "redis_id a" "redis_id k"
  shows "instance_in E rc a k (fold (client_step E rc) ops []) =
    (case last_op ops a k of None \<Rightarrow> None | Some op \<Rightarrow> if is_reg op then Some (instanceID rc) else None)"
proof -
  have "lasting clk []" by (simp add: lasting_def)
  moreover have "list_all reg.op_ok ops" using assms(1) by (auto simp: list_all_iff reg.op_ok_def reg_ids_ok_def)
  moreover have "instance_in E rc a k [] = None"
    by (simp add: instance_in_def GetConnectionInstance_law [OF law] kv_value_def)
  ultimately show ?thesis using reg.history [of "[]" ops a k] assms(2,3) by (simp add: client_step_is split: option.split)
qed

end

interpretation demo_day: redis_day "redis_env (\<lambda>_. 0) demo_answers" "\<lambda>_. 0" demo_redis
  by unfold_locales
     (simp_all add: redis_env_law demo_env_ok demo_utf8 redis_env_def demo_answers_def succeeded_def)

end
