(* ===== verification/Mocks.thy ===== *)
theory Mocks
  imports Registry Storage
begin

text \<open>
  \<open>src/testutils/mock_redis.go\<close>, \<open>src/mocks/socket.go\<close> and \<open>src/testutils/testhelpers.go\<close>: the doubles the
  tests put in place of Redis and of a socket. The mock is shown to be a registry in the sense of
  \<open>Registry_Spec\<close>, as the client is, so what the tests see of it is what they would see of Redis; where
  the two differ is stated too. Maps are association lists; the current time is an argument.
\<close>

declare utf8_valid.simps [simp del]

section \<open>The mock of Redis\<close>

text \<open>
  A Go channel of capacity 100 that nobody receives from is whether it is closed, and the list of what
  was sent to it; sending to a full one is skipped by the \<open>select\<close>.
\<close>

record mock_redis =
  mk_connections :: "(string \<times> ConnectionMetadata) list"
  mk_subscriptions :: "(string \<times> (string \<times> SubscriptionMetadata) list) list"
  channelSubscriptions :: "(string \<times> string list) list"
  presenceData :: "(string \<times> (string \<times> string) list) list"
  presenceUserInfo :: "(string \<times> string) list"
  pubSubSubscribers :: "(string \<times> (bool \<times> EventMessage list) list) list"
  mk_instanceID :: string
  simulateOperationErr :: bool

definition NewMockRedisClient :: "string \<Rightarrow> mock_redis" where
  "NewMockRedisClient uuid = \<lparr>mk_connections = [], mk_subscriptions = [], channelSubscriptions = [], presenceData = [],
     presenceUserInfo = [], pubSubSubscribers = [], mk_instanceID = uuid, simulateOperationErr = False\<rparr>"

abbreviation simulated :: goerror where
  "simulated \<equiv> ErrRedis ''simulated error''"

text \<open>Reading a missing key of a Go map gives the zero value.\<close>

definition map_get :: "'v \<Rightarrow> (string \<times> 'v) list \<Rightarrow> string \<Rightarrow> 'v" where
  "map_get zero m k = (case map_of m k of None \<Rightarrow> zero | Some v \<Rightarrow> v)"

definition mock_RegisterConnection :: "gotime \<Rightarrow> string \<Rightarrow> string \<Rightarrow> mock_redis \<Rightarrow> goerror option \<times> mock_redis" where
  "mock_RegisterConnection now appID socketID m =
     (if simulateOperationErr m then (Some simulated, m)
      else (None, m\<lparr>mk_connections := AList.update (connection_key appID socketID)
        \<lparr>cm_InstanceID = mk_instanceID m, cm_SocketID = socketID, cm_AppID = appID, cm_CreatedAt = rfc3339 now\<rparr>
        (mk_connections m)\<rparr>))"

definition mock_UnregisterConnection :: "string \<Rightarrow> string \<Rightarrow> mock_redis \<Rightarrow> goerror option \<times> mock_redis" where
  "mock_UnregisterConnection appID socketID m =
     (if simulateOperationErr m then (Some simulated, m)
      else (None, m\<lparr>mk_connections := AList.delete (connection_key appID socketID) (mk_connections m)\<rparr>))"

definition mock_GetConnectionInstance :: "string \<Rightarrow> string \<Rightarrow> mock_redis \<Rightarrow> goerror + string" where
  "mock_GetConnectionInstance appID socketID m =
     (if simulateOperationErr m then Inl simulated
      else (case map_of (mk_connections m) (connection_key appID socketID) of
              Some conn \<Rightarrow> Inr (cm_InstanceID conn)
            | None \<Rightarrow> Inl ErrConnectionNotFound))"

definition mock_SubscribeToChannel ::
  "gotime \<Rightarrow> string \<Rightarrow> string \<Rightarrow> string \<Rightarrow> string \<Rightarrow> mock_redis \<Rightarrow> goerror option \<times> mock_redis" where
  "mock_SubscribeToChannel now appID channelID socketID channelData m =
     (if simulateOperationErr m then (Some simulated, m)
      else let key = subscriptions_key appID channelID;
               ids = map_get [] (channelSubscriptions m) key;
               ids' = (if socketID \<in> set ids then ids else ids @ [socketID]);
               meta = \<lparr>sm_SocketID = socketID, sm_InstanceID = mk_instanceID m, sm_ChannelID = channelID,
                       sm_ChannelData = channelData, sm_SubscribedAt = rfc3339 now\<rparr>
      in (None, m\<lparr>channelSubscriptions := AList.update key ids' (channelSubscriptions m),
                  mk_subscriptions := AList.update channelID
                    (AList.update socketID meta (map_get [] (mk_subscriptions m) channelID)) (mk_subscriptions m)\<rparr>))"

text \<open>\<open>delete\<close> on the map of a channel that has none does nothing.\<close>

definition mock_UnsubscribeFromChannel :: "string \<Rightarrow> string \<Rightarrow> string \<Rightarrow> mock_redis \<Rightarrow> goerror option \<times> mock_redis" where
  "mock_UnsubscribeFromChannel appID channelID socketID m =
     (if simulateOperationErr m then (Some simulated, m)
      else let key = subscriptions_key appID channelID;
               chans = (case map_of (channelSubscriptions m) key of
                  None \<Rightarrow> channelSubscriptions m
                | Some subs \<Rightarrow> if socketID \<in> set subs
                    then AList.update key (remove1 socketID subs) (channelSubscriptions m) else channelSubscriptions m);
               metas = (case map_of (mk_subscriptions m) channelID of
                  None \<Rightarrow> mk_subscriptions m
                | Some subs \<Rightarrow> AList.update channelID (AList.delete socketID subs) (mk_subscriptions m))
      in (None, m\<lparr>channelSubscriptions := chans, mk_subscriptions := metas\<rparr>))"

definition mock_GetChannelSubscriptions :: "string \<Rightarrow> string \<Rightarrow> mock_redis \<Rightarrow> goerror + string list" where
  "mock_GetChannelSubscriptions appID channelID m =
     (if simulateOperationErr m then Inl simulated
      else (case map_of (channelSubscriptions m) (subscriptions_key appID channelID) of
              Some subs \<Rightarrow> Inr subs | None \<Rightarrow> Inr []))"

definition mock_GetSubscriptionMetadata :: "string \<Rightarrow> string \<Rightarrow> string \<Rightarrow> mock_redis \<Rightarrow> goerror + SubscriptionMetadata" where
  "mock_GetSubscriptionMetadata ignored channelID socketID m =
     (if simulateOperationErr m then Inl simulated
      else (case map_of (mk_subscriptions m) channelID of
              None \<Rightarrow> Inl ErrSubscriptionNotFound
            | Some subs \<Rightarrow> (case map_of subs socketID of
                None \<Rightarrow> Inl ErrSubscriptionNotFound | Some metadata \<Rightarrow> Inr metadata)))"

text \<open>Sending on a closed channel is a panic, the result \<open>None\<close>.\<close>

definition mock_send :: "EventMessage \<Rightarrow> bool \<times> EventMessage list \<Rightarrow> bool \<times> EventMessage list" where
  "mock_send event ch = (if length (snd ch) < 100 then (fst ch, snd ch @ [event]) else ch)"

definition mock_PublishEvent ::
  "string \<Rightarrow> string \<Rightarrow> EventMessage \<Rightarrow> mock_redis \<Rightarrow> (goerror option \<times> mock_redis) option" where
  "mock_PublishEvent appID channelID event m =
     (if simulateOperationErr m then Some (Some simulated, m)
      else let topic = events_key appID channelID
      in (case map_of (pubSubSubscribers m) topic of
            None \<Rightarrow> Some (None, m)
          | Some queues \<Rightarrow>
              if \<exists>ch \<in> set queues. fst ch then None
              else Some (None, m\<lparr>pubSubSubscribers := AList.update topic (List.map (mock_send event) queues) (pubSubSubscribers m)\<rparr>)))"

text \<open>The channel it returns is the last in the list of its topic.\<close>

definition mock_SubscribeToChannelEvents :: "string \<Rightarrow> string \<Rightarrow> mock_redis \<Rightarrow> goerror option \<times> mock_redis" where
  "mock_SubscribeToChannelEvents appID channelID m =
     (if simulateOperationErr m then (Some simulated, m)
      else let topic = events_key appID channelID
      in (None, m\<lparr>pubSubSubscribers :=
           AList.update topic (map_get [] (pubSubSubscribers m) topic @ [(False, [])]) (pubSubSubscribers m)\<rparr>))"

definition mock_StorePresenceData ::
  "string \<Rightarrow> string \<Rightarrow> string \<Rightarrow> string \<Rightarrow> string \<Rightarrow> mock_redis \<Rightarrow> goerror option \<times> mock_redis" where
  "mock_StorePresenceData appID channelID socketID userID userInfo m =
     (if simulateOperationErr m then (Some simulated, m)
      else let key = presence_key appID channelID
      in (None, m\<lparr>presenceData := AList.update key (AList.update socketID userID (map_get [] (presenceData m) key)) (presenceData m),
                  presenceUserInfo := AList.update (info_key appID channelID socketID) userInfo (presenceUserInfo m)\<rparr>))"

definition mock_RemovePresenceData :: "string \<Rightarrow> string \<Rightarrow> string \<Rightarrow> mock_redis \<Rightarrow> goerror option \<times> mock_redis" where
  "mock_RemovePresenceData appID channelID socketID m =
     (if simulateOperationErr m then (Some simulated, m)
      else let key = presence_key appID channelID;
               data = (case map_of (presenceData m) key of None \<Rightarrow> presenceData m
                  | Some d \<Rightarrow> AList.update key (AList.delete socketID d) (presenceData m))
      in (None, m\<lparr>presenceData := data,
                  presenceUserInfo := AList.delete (info_key appID channelID socketID) (presenceUserInfo m)\<rparr>))"

definition mock_GetPresenceData :: "string \<Rightarrow> string \<Rightarrow> mock_redis \<Rightarrow> goerror + (string \<times> string) list" where
  "mock_GetPresenceData appID channelID m =
     (if simulateOperationErr m then Inl simulated else Inr (map_get [] (presenceData m) (presence_key appID channelID)))"

text \<open>Closing a closed channel is a panic.\<close>

definition mock_Close :: "mock_redis \<Rightarrow> mock_redis option" where
  "mock_Close m =
     (if \<exists>(topic, queues) \<in> set (pubSubSubscribers m). \<exists>ch \<in> set queues. fst ch then None
      else Some (m\<lparr>pubSubSubscribers :=
        List.map (\<lambda>(topic, queues). (topic, List.map (\<lambda>ch. (True, snd ch)) queues)) (pubSubSubscribers m)\<rparr>))"

definition SetSimulateOperationError :: "bool \<Rightarrow> mock_redis \<Rightarrow> mock_redis" where
  "SetSimulateOperationError enabled m = m\<lparr>simulateOperationErr := enabled\<rparr>"

definition GetConnectionCount :: "mock_redis \<Rightarrow> int" where
  "GetConnectionCount m = int (length (mk_connections m))"

definition GetSubscriptionCount :: "mock_redis \<Rightarrow> int" where
  "GetSubscriptionCount m = fold (\<lambda>(c, subs) count. count + int (length subs)) (mk_subscriptions m) 0"

section \<open>The mock is a registry, as the client is\<close>

definition mock_instance :: "string \<Rightarrow> string \<Rightarrow> mock_redis \<Rightarrow> string option" where
  "mock_instance a k m = (case mock_GetConnectionInstance a k m of Inr i \<Rightarrow> Some i | Inl e \<Rightarrow> None)"

lemmas mock_reg_defs = mock_RegisterConnection_def mock_UnregisterConnection_def mock_instance_def mock_GetConnectionInstance_def

interpretation mock: registry "\<lambda>m. \<not> simulateOperationErr m \<and> mk_instanceID m = inst" redis_id
  "\<lambda>a k m. snd (mock_RegisterConnection now a k m)" "\<lambda>a k m. snd (mock_UnregisterConnection a k m)"
  mock_instance inst for inst now
  by unfold_locales
     (auto simp: mock_reg_defs redis_id_def connection_key_eq map_of_update map_of_delete split: option.splits)

fun mock_step :: "gotime \<Rightarrow> reg_op \<Rightarrow> mock_redis \<Rightarrow> mock_redis" where
  "mock_step now (Reg a k) m = snd (mock_RegisterConnection now a k m)"
| "mock_step now (Unreg a k) m = snd (mock_UnregisterConnection a k m)"

lemma mock_step_is: "mock_step now = mock.step now"
proof (intro ext)
  fix op m
  show "mock_step now op m = mock.step now op m" by (cases op) (simp_all add: mock.step_def)
qed

lemma mock_history:
  assumes "reg_ids_ok ops" "redis_id a" "redis_id k"
  shows "mock_instance a k (fold (mock_step now) ops (NewMockRedisClient inst)) =
    (case last_op ops a k of None \<Rightarrow> None | Some op \<Rightarrow> if is_reg op then Some inst else None)"
proof -
  have "list_all mock.op_ok ops" using assms(1) by (auto simp: list_all_iff mock.op_ok_def reg_ids_ok_def)
  moreover have "mock_instance a k (NewMockRedisClient inst) = None" "\<not> simulateOperationErr (NewMockRedisClient inst)"
    "mk_instanceID (NewMockRedisClient inst) = inst"
    by (simp_all add: NewMockRedisClient_def mock_instance_def mock_GetConnectionInstance_def)
  ultimately show ?thesis
    using mock.history [of "NewMockRedisClient inst" inst ops a k now] assms(2,3)
    by (simp add: mock_step_is split: option.split)
qed

text \<open>
  Claim C36: the mock stands for the client: after any sequence of registrations and removals, on a
  Redis that accepts what is written and within a day, the client finds for any connection exactly
  what the mock finds.
\<close>

theorem mock_agrees_with_client:
  assumes "redis_law clk E" "clock_ok E" "utf8_valid (instanceID rc)"
    and "\<And>tr k v ttl. succeeded (E tr (RedisSet k v ttl)) \<and> succeeded (E tr (RedisDel k))"
    and "\<And>tr. 0 \<le> clk tr \<and> clk tr < 86400"
    and "reg_ids_ok ops" "redis_id a" "redis_id k"
  shows "instance_in E rc a k (fold (client_step E rc) ops [])
    = mock_instance a k (fold (mock_step now) ops (NewMockRedisClient (instanceID rc)))"
proof -
  have "redis_day E clk rc" using assms(1-5) by unfold_locales simp_all
  from redis_day.client_history [OF this assms(6-8)] show ?thesis by (simp add: mock_history [OF assms(6-8)])
qed

theorem mock_agrees_with_client_witness:
  "instance_in (redis_env (\<lambda>_. 0) demo_answers) demo_redis ''1'' ''1.1''
     (fold (client_step (redis_env (\<lambda>_. 0) demo_answers) demo_redis) [Reg ''1'' ''1.1'', Reg ''1'' ''1'', Unreg ''1'' ''1''] [])
   = mock_instance ''1'' ''1.1'' (fold (mock_step \<lparr>unix_nano = 0, rfc3339 = []\<rparr>)
       [Reg ''1'' ''1.1'', Reg ''1'' ''1'', Unreg ''1'' ''1''] (NewMockRedisClient ''i1''))"
proof -
  have "redis_id ''1''" "redis_id ''1.1''" by (simp_all add: redis_id_def demo_utf8)
  then show ?thesis
    using mock_agrees_with_client [of "\<lambda>_. 0" "redis_env (\<lambda>_. 0) demo_answers" demo_redis
        "[Reg ''1'' ''1.1'', Reg ''1'' ''1'', Unreg ''1'' ''1'']" "''1''" "''1.1''" "\<lparr>unix_nano = 0, rfc3339 = []\<rparr>"]
    by (simp add: redis_env_law demo_env_ok demo_utf8 redis_env_def demo_answers_def succeeded_def reg_ids_ok_def del: client_step.simps mock_step.simps)
qed

section \<open>Events of the mock\<close>

fun mock_publish_all :: "string \<Rightarrow> string \<Rightarrow> EventMessage list \<Rightarrow> mock_redis \<Rightarrow> mock_redis option" where
  "mock_publish_all appID cid [] m = Some m"
| "mock_publish_all appID cid (e # es) m =
     (case mock_PublishEvent appID cid e m of None \<Rightarrow> None | Some (err, m') \<Rightarrow> mock_publish_all appID cid es m')"

lemma mock_send_queue: "mock_send e (b, take 100 q) = (b, take 100 (q @ [e]))"
  by (simp add: mock_send_def)

lemma mock_publish_all_queue:
  assumes "\<not> simulateOperationErr m" "map_of (pubSubSubscribers m) (events_key appID cid) = Some [(False, take 100 q)]"
  shows "\<exists>m'. mock_publish_all appID cid es m = Some m'
    \<and> map_of (pubSubSubscribers m') (events_key appID cid) = Some [(False, take 100 (q @ es))]"
  using assms
proof (induction es arbitrary: m q)
  case (Cons e es)
  let ?m = "m\<lparr>pubSubSubscribers := AList.update (events_key appID cid) [(False, take 100 (q @ [e]))] (pubSubSubscribers m)\<rparr>"
  have "mock_PublishEvent appID cid e m = Some (None, ?m)"
    using Cons.prems by (simp add: mock_PublishEvent_def Let_def mock_send_queue)
  moreover have "\<exists>m'. mock_publish_all appID cid es ?m = Some m'
      \<and> map_of (pubSubSubscribers m') (events_key appID cid) = Some [(False, take 100 ((q @ [e]) @ es))]"
    by (rule Cons.IH) (use Cons.prems in \<open>simp_all add: map_of_update\<close>)
  ultimately show ?case by simp
qed simp

text \<open>
  A subscriber of the mock that receives nothing keeps the first hundred events published
  after it subscribed, in order; the mock drops the others, where Redis would not.
\<close>

theorem mock_keeps_a_hundred:
  assumes "\<not> simulateOperationErr m" "map_of (pubSubSubscribers m) (events_key appID cid) = None"
  shows "\<exists>m'. mock_publish_all appID cid es (snd (mock_SubscribeToChannelEvents appID cid m)) = Some m'
    \<and> map_of (pubSubSubscribers m') (events_key appID cid) = Some [(False, take 100 es)]"
  using mock_publish_all_queue [of "snd (mock_SubscribeToChannelEvents appID cid m)" appID cid "[]" es] assms
  by (simp add: mock_SubscribeToChannelEvents_def Let_def map_of_update map_get_def)

theorem mock_keeps_a_hundred_witness:
  "\<exists>m'. mock_publish_all ''1'' ''a'' (replicate 101 demo_message)
        (snd (mock_SubscribeToChannelEvents ''1'' ''a'' (NewMockRedisClient ''i1''))) = Some m'
    \<and> map_of (pubSubSubscribers m') (events_key ''1'' ''a'') = Some [(False, replicate 100 demo_message)]"
  using mock_keeps_a_hundred [of "NewMockRedisClient ''i1''" "''1''" "''a''" "replicate 101 demo_message"]
  by (simp add: NewMockRedisClient_def)

section \<open>The mock of a socket\<close>

record mock_socket =
  ms_messages :: "message list"
  writeErr :: bool

definition NewMockSocket :: mock_socket where
  "NewMockSocket = \<lparr>ms_messages = [], writeErr = False\<rparr>"

definition socket_WriteJSON :: "message \<Rightarrow> mock_socket \<Rightarrow> reply \<times> mock_socket" where
  "socket_WriteJSON i s = (if writeErr s then RErr else ROk, s\<lparr>ms_messages := ms_messages s @ [i]\<rparr>)"

definition SetWriteError :: "bool \<Rightarrow> mock_socket \<Rightarrow> mock_socket" where
  "SetWriteError err s = s\<lparr>writeErr := err\<rparr>"

definition GetMessages :: "mock_socket \<Rightarrow> message list" where
  "GetMessages s = ms_messages s"

definition ClearMessages :: "mock_socket \<Rightarrow> mock_socket" where
  "ClearMessages s = s\<lparr>ms_messages := []\<rparr>"

definition MessageCount :: "mock_socket \<Rightarrow> int" where
  "MessageCount s = int (length (ms_messages s))"

definition socket_SetWriteDeadline :: "int option \<Rightarrow> mock_socket \<Rightarrow> reply \<times> mock_socket" where
  "socket_SetWriteDeadline d s = (ROk, s)"

definition socket_Close :: "mock_socket \<Rightarrow> reply \<times> mock_socket" where
  "socket_Close s = (ROk, s)"

text \<open>The mock after the calls of a trace on one socket.\<close>

definition mock_call :: "nat \<Rightarrow> call \<Rightarrow> mock_socket \<Rightarrow> reply \<times> mock_socket" where
  "mock_call h c s =
     (case c of
        WriteJSON h' m \<Rightarrow> if h' = h then socket_WriteJSON m s else (ROk, s)
      | SetWriteDeadline h' d \<Rightarrow> if h' = h then socket_SetWriteDeadline d s else (ROk, s)
      | CloseSocket h' \<Rightarrow> if h' = h then socket_Close s else (ROk, s)
      | _ \<Rightarrow> (ROk, s))"

definition mock_after :: "nat \<Rightarrow> mock_socket \<Rightarrow> trace \<Rightarrow> mock_socket" where
  "mock_after h s0 tr = fold (\<lambda>x s. snd (mock_call h (fst x) s)) (rev tr) s0"

text \<open>The environment of a test: the socket \<open>h\<close> is the mock, everything else answers as \<open>E\<close>.\<close>

definition mock_socket_env :: "nat \<Rightarrow> mock_socket \<Rightarrow> env \<Rightarrow> env" where
  "mock_socket_env h s0 E tr c =
     (if (\<exists>m. c = WriteJSON h m) \<or> (\<exists>d. c = SetWriteDeadline h d) \<or> c = CloseSocket h
      then fst (mock_call h c (mock_after h s0 tr)) else E tr c)"

lemma mock_after_simps [simp]:
  "mock_after h s0 [] = s0" "mock_after h s0 (x # tr) = snd (mock_call h (fst x) (mock_after h s0 tr))"
  by (simp_all add: mock_after_def)

lemma mock_call_result:
  "writeErr (snd (mock_call h c s)) = writeErr s"
  "ms_messages (snd (mock_call h c s)) = ms_messages s @ frame_of h (c, r)"
  by (cases c; simp add: mock_call_def socket_WriteJSON_def socket_SetWriteDeadline_def socket_Close_def)+

lemma mock_after_result:
  "writeErr (mock_after h s0 tr) = writeErr s0" "ms_messages (mock_after h s0 tr) = ms_messages s0 @ written h tr"
proof (induction tr)
  case (Cons x tr)
  { case 1 show ?case using Cons by (simp add: mock_call_result) }
  { case 2 show ?case
      using Cons mock_call_result(2) [of h "fst x" "mock_after h s0 tr" "snd x"] by (simp add: written_simps) }
qed (simp_all add: written_simps)

text \<open>
  A frame sent to a mock socket is recorded once by it, also when the mock is told to
  refuse it; the sender gets an error in exactly that case.
\<close>

theorem mock_socket_records:
  assumes "Socket conn = h" "connection_Publish (mock_socket_env h s0 E) conn m tr = (err, tr')"
  shows "GetMessages (mock_after h s0 tr') = GetMessages (mock_after h s0 tr) @ [m]
    \<and> MessageCount (mock_after h s0 tr') = MessageCount (mock_after h s0 tr) + 1
    \<and> (err = (if writeErr s0 then Some ErrWrite else None))"
proof -
  have "written h tr' = written h tr @ [m] \<and> err = (if writeErr s0 then Some ErrWrite else None)"
    using assms mock_after_result(1) [of h s0]
    by (auto simp: connection_Publish_def write_defs mock_socket_env_def mock_call_def written_simps succeeded_def
        socket_WriteJSON_def socket_SetWriteDeadline_def socket_Close_def split: reply.splits if_splits)
  then show ?thesis by (simp add: GetMessages_def MessageCount_def mock_after_result)
qed

theorem mock_socket_records_witness:
  "GetMessages (mock_after 1 (SetWriteError True NewMockSocket)
     (snd (connection_Publish (mock_socket_env 1 (SetWriteError True NewMockSocket) demo_env) (demo_conn ''1.1'' 1) NewPong []))) = [NewPong]"
  using mock_socket_records [of "demo_conn ''1.1'' 1" 1 "SetWriteError True NewMockSocket" demo_env NewPong "[]"]
  by (simp add: demo_conn_def prod_eq_iff GetMessages_def NewMockSocket_def SetWriteError_def)

section \<open>Test applications\<close>

text \<open>The package variable \<open>testAppIDCounter\<close> and the published \<open>expvar\<close> names are threaded through.\<close>

definition NewTestAppWithRedis ::
  "redis_client option \<Rightarrow> int \<times> string list \<Rightarrow> (application \<times> int \<times> string list) option" where
  "NewTestAppWithRedis redisC st =
     (let n = fst st + 1; appID = int_dec n
      in map_option (\<lambda>(a, published). (a, n, published))
           (NewApplication (snd st) ''Test App'' appID (''test-key-'' @ appID) (''test-secret-'' @ appID)
             False True True False [] redisC))"

definition NewTestApp :: "int \<times> string list \<Rightarrow> (application \<times> int \<times> string list) option" where
  "NewTestApp st = NewTestAppWithRedis None st"

definition NewTestStorageWithApp :: "application \<Rightarrow> storage" where
  "NewTestStorageWithApp a = AddApp a NewInMemory"

definition NewTestStorage :: "int \<times> string list \<Rightarrow> (storage \<times> int \<times> string list) option" where
  "NewTestStorage st = map_option (\<lambda>(a, st'). (AddApp a NewInMemory, st')) (NewTestApp st)"

definition GetAppFromStorage :: "storage \<Rightarrow> goerror + application" where
  "GetAppFromStorage s = (case Apps s of [] \<Rightarrow> Inl ErrAppNotFound | a # as \<Rightarrow> Inr a)"

fun test_apps :: "nat \<Rightarrow> int \<times> string list \<Rightarrow> application list option" where
  "test_apps 0 st = Some []"
| "test_apps (Suc n) st =
     (case NewTestApp st of None \<Rightarrow> None | Some (a, st') \<Rightarrow> map_option ((#) a) (test_apps n st'))"

definition test_app :: "int \<Rightarrow> application" where
  "test_app k = empty_application ''Test App'' (int_dec k) (''test-key-'' @ int_dec k) (''test-secret-'' @ int_dec k)
     False True True False [] None"

definition earlier_names :: "int \<Rightarrow> string list \<Rightarrow> bool" where
  "earlier_names k published \<longleftrightarrow> (\<forall>p \<in> set published. \<exists>j. 0 \<le> j \<and> j \<le> k \<and> p = stats_name ''Test App'' (int_dec j))"

lemma stats_name_test: "0 \<le> j \<Longrightarrow> 0 \<le> k \<Longrightarrow> stats_name n (int_dec j) = stats_name n (int_dec k) \<longleftrightarrow> j = k"
  by (simp add: stats_name_def int_dec_def udec_inj)

lemma NewTestApp_result:
  assumes "0 \<le> k" "earlier_names k published"
  shows "NewTestApp (k, published) = Some (test_app (k + 1), k + 1, stats_name ''Test App'' (int_dec (k + 1)) # published)"
proof -
  have "stats_name ''Test App'' (int_dec (k + 1)) \<notin> set published"
  proof
    assume "stats_name ''Test App'' (int_dec (k + 1)) \<in> set published"
    then obtain j where "0 \<le> j" "j \<le> k" "stats_name ''Test App'' (int_dec (k + 1)) = stats_name ''Test App'' (int_dec j)"
      using assms(2) by (auto simp: earlier_names_def)
    then show False using stats_name_test [of "k + 1" j] assms(1) by simp
  qed
  then show ?thesis by (simp add: NewTestApp_def NewTestAppWithRedis_def NewApplication_def test_app_def Let_def)
qed

lemma earlier_names_step:
  "0 \<le> k \<Longrightarrow> earlier_names k published \<Longrightarrow> earlier_names (k + 1) (stats_name ''Test App'' (int_dec (k + 1)) # published)"
proof -
  assume "0 \<le> k" "earlier_names k published"
  then have "\<exists>j. 0 \<le> j \<and> j \<le> k + 1 \<and> p = stats_name ''Test App'' (int_dec j)"
    if "p \<in> set (stats_name ''Test App'' (int_dec (k + 1)) # published)" for p
  proof (cases "p = stats_name ''Test App'' (int_dec (k + 1))")
    case True
    with \<open>0 \<le> k\<close> show ?thesis by (intro exI [of _ "k + 1"]) simp
  next
    case False
    with that obtain j where "0 \<le> j" "j \<le> k" "p = stats_name ''Test App'' (int_dec j)"
      using \<open>earlier_names k published\<close> by (auto simp: earlier_names_def)
    then show ?thesis by (intro exI [of _ j]) simp
  qed
  then show ?thesis by (simp add: earlier_names_def)
qed

lemma test_apps_fresh:
  "0 \<le> k \<Longrightarrow> earlier_names k published \<Longrightarrow>
   test_apps n (k, published) = Some (List.map (\<lambda>i. test_app (k + 1 + int i)) [0..<n])"
proof (induction n arbitrary: k published)
  case (Suc n)
  have "test_apps n (k + 1, stats_name ''Test App'' (int_dec (k + 1)) # published) =
      Some (List.map (\<lambda>i. test_app (k + 1 + 1 + int i)) [0..<n])"
    using Suc.prems by (intro Suc.IH earlier_names_step) simp_all
  moreover have "List.map (\<lambda>i. test_app (k + 1 + int i)) [0..<Suc n]
      = test_app (k + 1) # List.map (\<lambda>i. test_app (k + 1 + 1 + int i)) [0..<n]"
    by (simp only: upt_conv_Cons zero_less_Suc list.map map_Suc_upt [symmetric] map_map comp_def) (simp add: ac_simps)
  ultimately show ?case using Suc.prems by (simp add: NewTestApp_result del: upt_Suc)
qed simp

text \<open>
  However many applications a test asks for, none is refused for a name that is taken, and
  their ids are pairwise different.
\<close>

theorem test_apps_distinct:
  "\<exists>as. test_apps n (0, []) = Some as \<and> length as = n \<and> distinct (List.map AppID as)"
proof -
  have id: "AppID (test_app k) = int_dec k" for k by (simp add: test_app_def empty_application_def)
  have "test_apps n (0, []) = Some (List.map (\<lambda>i. test_app (0 + 1 + int i)) [0..<n])"
    by (rule test_apps_fresh) (simp_all add: earlier_names_def)
  moreover have "inj_on (\<lambda>i. int_dec (0 + 1 + int i)) (set [0..<n])" by (auto simp: inj_on_def int_dec_def udec_inj)
  then have "distinct (List.map AppID (List.map (\<lambda>i. test_app (0 + 1 + int i)) [0..<n]))"
    by (simp add: distinct_map comp_def id)
  ultimately show ?thesis by simp
qed

end
