(* ===== verification/Sessions.thy ===== *)
theory Sessions
  imports Websockets_Loop
begin

text \<open>
  A whole session of a client, \<open>ServeHTTP\<close> of \<open>src/websockets/websocket.go\<close>: the application is looked up
  in the storage, the handshake made, the frames handled, and the application put back. A session
  never touches what belongs to the others, and one that has ended leaves nothing behind.
\<close>

section \<open>What belongs to the others\<close>

definition without :: "string \<Rightarrow> hub \<Rightarrow> hub" where
  "without sid h = hub_run (HDrop sid) h"

lemma without_own_op: "without sid (hub_run (frame_op a sid event message) h) = without sid h"
  by (auto simp: without_def frame_op_def split: option.split)

lemma without_connect: "\<not> is_live sid h \<Longrightarrow> (\<And>c. (c, sid) \<notin> subscribed h) \<Longrightarrow> without sid (hub_run (HConnect sid sock) h) = h"
  by (cases h) (auto simp: without_def is_live_def image_iff)

lemma message_loop_others:
  assumes "app_wf a"
  shows "app_wf (fst (snd (message_loop E peer sock sid event rs a tr)))
    \<and> without sid (hub_of (fst (snd (message_loop E peer sock sid event rs a tr)))) = without sid (hub_of a)"
  using assms
proof (induction rs arbitrary: event a tr)
  case (Cons r rs)
  obtain ok tr1 where d: "renew_deadline E sock tr = (ok, tr1)" by fastforce
  show ?case
  proof (cases "\<exists>message event'. ok \<and> r = Frame message \<and> unmarshal_event event message = Some event'")
    case True
    then obtain message event' where f: "ok" "r = Frame message" "unmarshal_event event message = Some event'" by blast
    obtain a2 tr2 where disp: "dispatch E peer sid event' message a tr1 = (a2, tr2)" by fastforce
    have e: "app_wf a2" "hub_of a2 = hub_run (frame_op a sid event' message) (hub_of a)"
      using dispatch_effect [OF Cons.prems, of sid event' message E peer tr1] disp by (simp_all add: effect_def)
    show ?thesis using Cons.IH [OF e(1), of event' tr2] d f disp by (simp add: e(2) without_own_op)
  next
    case False
    then show ?thesis using d Cons.prems by (auto split: read_result.splits option.splits bool.splits)
  qed
qed simp

lemma hub_of_disconnect: "app_wf a \<Longrightarrow> hub_of (fst (app_Disconnect E sid a tr)) = without sid (hub_of a)"
  using effect_disconnect [of a sid E tr] by (simp add: effect_def without_def)

lemma without_without [simp]: "without sid (without sid h) = without sid h"
  by (auto simp: without_def)

lemma handleMessages_others:
  assumes wf: "app_wf a" and conn: "FindConnection a sid = Inr peer"
    and run: "handleMessages E sock sid rs a tr = (ended, a', tr')"
  shows "app_wf a' \<and> config_of a' = config_of a
    \<and> (if ended then hub_of a' = without sid (hub_of a) else sid \<in> live a' \<and> without sid (hub_of a') = without sid (hub_of a))"
proof -
  have live: "sid \<in> live a" using conn by (auto simp: FindConnection_def live_def dest: map_of_some_keys split: option.splits)
  have closed: "app_wf b' \<and> hub_of b' = without sid (hub_of b) \<and> config_of b' = config_of b"
    if "app_wf b" "onClose E sid b t = (b', t')" for b b' t t'
    using app_Disconnect_effect(1) [OF that(1), of E sid t] hub_of_disconnect [OF that(1), of E sid t] config_Disconnect [of E sid b t] that(2)
    by (simp add: onClose_def)
  obtain ok tr1 where d: "renew_deadline E sock tr = (ok, tr1)" by fastforce
  obtain fin a1 tr2 where l: "message_loop E peer sock sid [] rs a tr1 = (fin, a1, tr2)" by (rule prod_cases3)
  have a1: "app_wf a1" "sid \<in> live a1" "config_of a1 = config_of a" "without sid (hub_of a1) = without sid (hub_of a)"
    using message_loop_keeps [OF wf live, of E peer sock "[]" rs tr1] message_loop_others [OF wf, of E peer sock sid "[]" rs tr1] l
    by simp_all
  show ?thesis
    using run conn d l a1 closed [OF wf, of tr1] closed [OF a1(1), of tr2]
    by (cases ok; cases fin) (auto simp: handleMessages_def Let_def split: prod.splits)
qed

text \<open>A read that fails, for whatever reason, ends the loop, the handler and the session.\<close>

definition fails :: "read_result list \<Rightarrow> bool" where
  "fails rs \<longleftrightarrow> (\<exists>r \<in> set rs. \<forall>message. r \<noteq> Frame message)"

lemma message_loop_ends: "fails rs \<Longrightarrow> fst (message_loop E peer sock sid event rs a tr)"
proof (induction rs arbitrary: event a tr)
  case (Cons r rs)
  then show ?case
    by (cases r) (auto simp: fails_def split: prod.split bool.split option.split)
qed (simp add: fails_def)

lemma handleMessages_ends: "fails rs \<Longrightarrow> fst (handleMessages E sock sid rs a tr)"
  using message_loop_ends [of rs E]
  by (auto simp: handleMessages_def Let_def split: sum.split prod.split bool.split) (metis fst_conv)

lemma ServeWebsocket_ends: "fails rs \<Longrightarrow> fst (ServeWebsocket E up r rs db tr)"
  using handleMessages_ends [of rs E]
  by (auto simp: ServeWebsocket_def Let_def split: option.split sum.split prod.split) (metis fst_conv)

section \<open>The whole session\<close>

text \<open>A new session of application \<open>a\<close> gets a socket id and a socket that are not in use.\<close>

definition fresh_session :: "string \<Rightarrow> nat \<Rightarrow> application \<Rightarrow> bool" where
  "fresh_session sid sock a \<longleftrightarrow> sid \<notin> live a \<and> sock \<notin> (\<lambda>kc. Socket (snd kc)) ` set (connections a)"

lemma without_fresh:
  assumes "app_wf a" "sid \<notin> live a"
  shows "without sid (hub_run (HConnect sid sock) (hub_of a)) = hub_of a"
proof (rule without_connect)
  show "\<not> is_live sid (hub_of a)" using assms(2) by simp
  show "(c, sid) \<notin> subscribed (hub_of a)" for c using subs_live [OF assms(1), of c sid] assms(2) by (auto simp: hub_of_def)
qed

lemma session_result:
  assumes db: "GetAppByKey db (wr_Key r) = Inr a" and wf: "app_wf a"
    and sid: "random_id E tr = (sid, tr0)" and fresh: "fresh_session sid sock a"
    and run: "ServeWebsocket E (Some sock) r rs db tr = (ended, db', tr')"
  shows "(\<exists>a'. GetAppByKey db' (wr_Key r) = Inr a' \<and> app_wf a'
      \<and> (if ended then hub_of a' = hub_of a \<and> (\<exists>x earlier. tr' = (CloseSocket sock, x) # earlier)
         else sid \<in> live a' \<and> without sid (hub_of a') = hub_of a))
    \<and> (\<forall>key. key \<noteq> wr_Key r \<longrightarrow> GetAppByKey db' key = GetAppByKey db key)"
proof -
  have f: "sid \<notin> live a" "sock \<notin> (\<lambda>kc. Socket (snd kc)) ` set (connections a)"
    using fresh by (simp_all add: fresh_session_def)
  obtain err a1 tr1 where o: "onOpen E sock r sid a tr0 = (err, a1, tr1)" by (rule prod_cases3)
  have o1: "app_wf a1" "config_of a1 = config_of a"
    "err = None \<Longrightarrow> hub_of a1 = hub_run (HConnect sid sock) (hub_of a)" "err \<noteq> None \<Longrightarrow> hub_of a1 = hub_of a"
    using onOpen_handshake [OF wf f o] onOpen_effect [OF wf f, of E r tr0] o by auto
  have key: "app_Key b = app_Key a" if "config_of b = config_of a" for b using that by (simp add: config_of_def)
  note put = by_key.put_found [OF db key]
  show ?thesis
  proof (cases err)
    case (Some e)
    then have "ended" "db' = store_by_key (wr_Key r) a1 db" "\<exists>x earlier. tr' = (CloseSocket sock, x) # earlier"
      using run db sid o by (auto simp: ServeWebsocket_def Let_def invoke_def)
    with Some o1 put [OF o1(2)] show ?thesis by auto
  next
    case None
    have "is_live sid (hub_of a1)" using o1(3) [OF None] by (simp add: is_live_def)
    then obtain peer where peer: "FindConnection a1 sid = Inr peer"
      by (auto simp: hub_of_live live_def FindConnection_def dest: in_keysD)
    obtain fin a2 tr2 where h: "handleMessages E sock sid rs a1 tr1 = (fin, a2, tr2)" by (rule prod_cases3)
    have e: "ended = fin" "db' = store_by_key (wr_Key r) a2 db" "tr' = (if fin then snd (invoke E (CloseSocket sock) tr2) else tr2)"
      using run db sid o None h by (auto simp: ServeWebsocket_def Let_def)
    have "without sid (hub_of a1) = hub_of a" using without_fresh [OF wf f(1), of sock] o1(3) [OF None] by simp
    then show ?thesis
      using handleMessages_others [OF o1(1) peer h] put [of a2] o1(2) e by (auto simp: invoke_def Let_def)
  qed
qed

text \<open>
  Claim C6: a session that has ended, for whatever reason and after whatever frames, leaves the
  application's connections and subscriptions as it found them and closes the socket last; while it
  runs, those of all others are as they were; and no other application of the storage changes.
\<close>

theorem session_leaves_no_trace:
  assumes db: "GetAppByKey db (wr_Key r) = Inr a" and wf: "app_wf a"
    and sid: "random_id E tr = (sid, tr0)" and fresh: "fresh_session sid sock a"
    and run: "ServeWebsocket E (Some sock) r rs db tr = (ended, db', tr')"
  shows "(\<exists>a'. GetAppByKey db' (wr_Key r) = Inr a' \<and> app_wf a'
      \<and> (if ended then hub_of a' = hub_of a \<and> (\<exists>x earlier. tr' = (CloseSocket sock, x) # earlier)
         else sid \<in> live a' \<and> without sid (hub_of a') = hub_of a))
    \<and> (\<forall>key. key \<noteq> wr_Key r \<longrightarrow> GetAppByKey db' key = GetAppByKey db key)"
  by (rule session_result [OF assms])

lemma demo_session_app:
  "GetAppByKey \<lparr>Apps = [demo_app]\<rparr> (wr_Key demo_request) = Inr demo_app"
  "app_wf demo_app" "hub_of demo_app = empty_hub" "fresh_session sid sock demo_app"
  by (simp_all add: GetAppByKey_def find_app_def demo_request_def)
     (simp_all add: demo_app_def app_wf_empty hub_of_empty fresh_session_def live_def, simp_all add: empty_application_def)

theorem session_leaves_no_trace_witness:
  "let r = ServeWebsocket demo_env (Some 1) demo_request [Frame demo_frame, ReadEOF] \<lparr>Apps = [demo_app]\<rparr> []
   in \<exists>a'. GetAppByKey (fst (snd r)) ''key'' = Inr a' \<and> hub_of a' = empty_hub"
proof -
  obtain ended db' tr' where run: "ServeWebsocket demo_env (Some 1) demo_request [Frame demo_frame, ReadEOF] \<lparr>Apps = [demo_app]\<rparr> [] = (ended, db', tr')"
    by (rule prod_cases3)
  obtain sid tr0 where sid: "random_id demo_env [] = (sid, tr0)" by fastforce
  have "fails [Frame demo_frame, ReadEOF]" by (simp add: fails_def)
  then have ended using ServeWebsocket_ends [of _ demo_env "Some 1" demo_request] run by (metis fst_conv)
  then show ?thesis
    using session_leaves_no_trace [OF demo_session_app(1,2) sid demo_session_app(4) run] demo_session_app(3)
    unfolding run by (auto simp: demo_request_def)
qed

end
