(* ===== verification/Keepalive.thy ===== *)
theory Keepalive
  imports Sessions
begin

text \<open>
  \<open>handleMessages\<close> of \<open>src/websockets/websocket.go\<close> in time: the read loop, the pong handler and the
  goroutine that pings, all three over one socket. What the peer sends is a list of times (nanoseconds)
  and contents; the ticker fires every \<open>PingPeriod\<close>; a read waits for what comes first, and it fails when
  the read deadline that the program last set on the socket has passed (gorilla's documented behaviour).
  Handling a message takes no time here, and \<open>time.Now\<close> is the time of what is handled.
\<close>

section \<open>The session in time\<close>

text \<open>What comes in: a pong, which gorilla gives to the handler from within \<open>ReadMessage\<close>, or what \<open>ReadMessage\<close> returns.\<close>

datatype incoming = Pong_frame | Read_returns read_result

type_synonym timeline = "(int \<times> incoming) list"

text \<open>The environment at a time, and the deadline that was last set on a socket.\<close>

definition clock_at :: "int \<Rightarrow> env \<Rightarrow> env" where
  "clock_at t E tr c =
     (case c of
        TimeNow \<Rightarrow> RTime \<lparr>unix_nano = t, rfc3339 = (case E tr TimeNow of RTime now \<Rightarrow> rfc3339 now | _ \<Rightarrow> [])\<rparr>
      | _ \<Rightarrow> E tr c)"

fun read_deadline :: "nat \<Rightarrow> trace \<Rightarrow> int option" where
  "read_deadline sock [] = None"
| "read_deadline sock ((c, r) # tr) =
     (case c of
        SetReadDeadline h d \<Rightarrow> if h = sock \<and> succeeded r then Some d else read_deadline sock tr
      | _ \<Rightarrow> read_deadline sock tr)"

definition expired :: "nat \<Rightarrow> int \<Rightarrow> trace \<Rightarrow> bool" where
  "expired sock t tr \<longleftrightarrow> (case read_deadline sock tr of None \<Rightarrow> False | Some d \<Rightarrow> d \<le> t)"

lemma read_deadline_renewed:
  "renew_deadline (clock_at t E) sock tr = (True, tr1) \<Longrightarrow> read_deadline sock tr1 = Some (t + PongWait)"
  by (auto simp: renew_deadline_def clock_at_def time_now_def invoke_def Let_def)

lemma read_deadline_ping: "ping_tick E sock tr = (go, tr1) \<Longrightarrow> read_deadline sock tr1 = read_deadline sock tr"
  by (auto simp: ping_tick_def time_now_def invoke_def Let_def split: if_splits)

definition failed_read :: "env \<Rightarrow> connection \<Rightarrow> int \<Rightarrow> read_result \<Rightarrow> timeline \<Rightarrow> application \<Rightarrow> trace
    \<Rightarrow> int option \<times> timeline \<times> application \<times> trace" where
  "failed_read E peer t err rest a tr = (Some t, rest, a, handleError (clock_at t E) peer err tr)"

text \<open>
  The loop while it waits in \<open>ReadMessage\<close>, with the time of the next tick: it returns when it ended and
  what was then still to come. A ping that cannot be written closes the socket, which fails the read.
  Without a deadline nothing bounds the wait for a peer that sends nothing more: \<open>None\<close>.
\<close>

function timed_loop :: "env \<Rightarrow> connection \<Rightarrow> nat \<Rightarrow> string \<Rightarrow> string \<Rightarrow> int \<Rightarrow> timeline \<Rightarrow> application \<Rightarrow> trace
    \<Rightarrow> int option \<times> timeline \<times> application \<times> trace" where
  "timed_loop E peer sock sid event tick [] a tr =
     (case read_deadline sock tr of
        None \<Rightarrow> (None, [], a, tr)
      | Some d \<Rightarrow>
          if d \<le> tick then failed_read E peer d ReadError [] a tr
          else (case ping_tick (clock_at tick E) sock tr of
                  (True, tr1) \<Rightarrow> timed_loop E peer sock sid event (tick + PingPeriod) [] a tr1
                | (False, tr1) \<Rightarrow> failed_read E peer tick ReadError [] a tr1))"
| "timed_loop E peer sock sid event tick ((t, x) # xs) a tr =
     (if expired sock (min tick t) tr then failed_read E peer (the (read_deadline sock tr)) ReadError ((t, x) # xs) a tr
      else if tick \<le> t then
        (case ping_tick (clock_at tick E) sock tr of
           (True, tr1) \<Rightarrow> timed_loop E peer sock sid event (tick + PingPeriod) ((t, x) # xs) a tr1
         | (False, tr1) \<Rightarrow> failed_read E peer tick ReadError ((t, x) # xs) a tr1)
      else (case x of
              Pong_frame \<Rightarrow>
                (case pong_handler (clock_at t E) sock tr of
                   (True, tr1) \<Rightarrow> timed_loop E peer sock sid event tick xs a tr1
                 | (False, tr1) \<Rightarrow> failed_read E peer t ReadError xs a tr1)
            | Read_returns (Frame message) \<Rightarrow>
                (case handle_message (clock_at t E) peer sid event message a tr of
                   (None, a1, tr1) \<Rightarrow> (Some t, xs, a1, tr1)
                 | (Some event', a1, tr1) \<Rightarrow>
                     (case renew_deadline (clock_at t E) sock tr1 of
                        (True, tr2) \<Rightarrow> timed_loop E peer sock sid event' tick xs a1 tr2
                      | (False, tr2) \<Rightarrow> (Some t, xs, a1, tr2)))
            | Read_returns err \<Rightarrow> failed_read E peer t err xs a tr))"
  by pat_completeness auto

text \<open>Each round takes something off the list or brings the tick nearer to what it waits for.\<close>

definition horizon :: "nat \<Rightarrow> timeline \<Rightarrow> trace \<Rightarrow> int" where
  "horizon sock xs tr = (case xs of
     [] \<Rightarrow> (case read_deadline sock tr of None \<Rightarrow> 0 | Some d \<Rightarrow> d) | (t, x) # _ \<Rightarrow> t)"

lemma PingPeriod_pos: "0 < PingPeriod"
  by (simp add: PingPeriod_def PongWait_def)

termination timed_loop
proof (relation "measures [\<lambda>(E, peer, sock, sid, event, tick, xs, a, tr). length xs,
    \<lambda>(E, peer, sock, sid, event, tick, xs, a, tr). nat (horizon sock xs tr + 1 - tick)]")
qed (use PingPeriod_pos in \<open>auto simp: horizon_def dest: read_deadline_ping [OF sym]\<close>)

text \<open>\<open>handleMessages\<close> from time \<open>t0\<close> on, its deferred \<open>onClose\<close> when the loop has ended.\<close>

definition timed_session ::
  "env \<Rightarrow> nat \<Rightarrow> string \<Rightarrow> int \<Rightarrow> timeline \<Rightarrow> application \<Rightarrow> trace \<Rightarrow> int option \<times> timeline \<times> application \<times> trace" where
  "timed_session E sock sid t0 xs a tr =
     (case FindConnection a sid of
        Inl e \<Rightarrow> (Some t0, xs, a, tr)
      | Inr peer \<Rightarrow>
          let (ended, rest, a1, tr1) =
                (case renew_deadline (clock_at t0 E) sock tr of
                   (False, tr1) \<Rightarrow> (Some t0, xs, a, tr1)
                 | (True, tr1) \<Rightarrow>
                     (case renew_deadline (clock_at t0 E) sock tr1 of
                        (False, tr2) \<Rightarrow> (Some t0, xs, a, tr2)
                      | (True, tr2) \<Rightarrow> timed_loop E peer sock sid [] (t0 + PingPeriod) xs a tr2))
          in (case ended of
                None \<Rightarrow> (None, rest, a1, tr1)
              | Some t \<Rightarrow> let (a2, tr2) = onClose (clock_at t E) sid a1 tr1 in (Some t, rest, a2, tr2)))"

text \<open>When the server last heard of the peer, and no silence as long as \<open>PongWait\<close>.\<close>

definition last_heard :: "int \<Rightarrow> timeline \<Rightarrow> int" where
  "last_heard t0 xs = last (t0 # List.map fst xs)"

fun gaps_ok :: "int \<Rightarrow> timeline \<Rightarrow> bool" where
  "gaps_ok prev [] \<longleftrightarrow> True"
| "gaps_ok prev ((t, x) # xs) \<longleftrightarrow> t < prev + PongWait \<and> gaps_ok t xs"

lemma last_heard_Cons [simp]: "last_heard t0 ((t, x) # xs) = last_heard t xs" "last_heard t0 [] = t0"
  by (simp_all add: last_heard_def)

declare timed_loop.simps [simp del]

lemma handle_message_own:
  assumes "app_wf a" "handle_message E peer sid event message a tr = (e, a', tr')"
  shows "app_wf a' \<and> without sid (hub_of a') = without sid (hub_of a)"
proof (cases "unmarshal_event event message")
  case None
  then show ?thesis using assms by (auto simp: handle_message_def)
next
  case (Some ev)
  then have "a' = fst (dispatch E peer sid ev message a tr)" using assms(2) by (auto simp: handle_message_def)
  then show ?thesis using dispatch_effect [OF assms(1), of sid ev message E peer tr] by (simp add: effect_def without_own_op)
qed

section \<open>A peer that falls silent\<close>

text \<open>
  The loop ends no later than \<open>PongWait\<close> after the last thing it took from the peer, provided a deadline
  of that length was set when it began to wait.
\<close>

definition ends_in_time :: "int \<Rightarrow> timeline \<Rightarrow> int option \<Rightarrow> timeline \<Rightarrow> bool" where
  "ends_in_time prev xs ended rest \<longleftrightarrow> (\<exists>heard t. xs = heard @ rest \<and> ended = Some t \<and> t \<le> last_heard prev heard + PongWait)"

lemma ends_now: "t \<le> prev + PongWait \<Longrightarrow> ends_in_time prev xs (Some t) xs"
  unfolding ends_in_time_def by (intro exI [of _ "[]"] exI [of _ t]) simp

lemma ends_here: "ends_in_time prev ((t, x) # xs) (Some t) xs"
  unfolding ends_in_time_def by (intro exI [of _ "[(t, x)]"] exI [of _ t]) (simp add: PongWait_def)

lemma ends_later: "ends_in_time t xs ended rest \<Longrightarrow> ends_in_time prev ((t, x) # xs) ended rest"
  unfolding ends_in_time_def by (metis append_Cons last_heard_Cons(1))

lemma timed_loop_ends:
  assumes "timed_loop E peer sock sid event tick xs a tr = (ended, rest, a', tr')" "read_deadline sock tr = Some (prev + PongWait)"
  shows "ends_in_time prev xs ended rest"
  using assms
proof (induction E peer sock sid event tick xs a tr arbitrary: prev rule: timed_loop.induct)
  case (1 E peer sock sid event tick a tr)
  obtain go tr1 where p: "ping_tick (clock_at tick E) sock tr = (go, tr1)" by fastforce
  note rd = 1(3)
  have run: "(if prev + PongWait \<le> tick then failed_read E peer (prev + PongWait) ReadError [] a tr
      else if go then timed_loop E peer sock sid event (tick + PingPeriod) [] a tr1
      else failed_read E peer tick ReadError [] a tr1) = (ended, rest, a', tr')"
    using 1(2) by (subst (asm) timed_loop.simps(1)) (simp add: rd p split: if_splits bool.splits)
  show ?case
  proof (cases "prev + PongWait \<le> tick \<or> \<not> go")
    case True
    then show ?thesis using run by (auto simp: failed_read_def ends_now split: if_splits)
  next
    case False
    then show ?thesis using run 1(1) [OF rd _ p [symmetric]] read_deadline_ping [OF p] rd by simp
  qed
next
  case (2 E peer sock sid event tick t x xs a tr)
  note run = 2(4) [unfolded timed_loop.simps(2) [of E peer sock sid event tick t x xs a tr]]
  consider "expired sock (min tick t) tr" | "\<not> expired sock (min tick t) tr" "tick \<le> t"
    | "\<not> expired sock (min tick t) tr" "\<not> tick \<le> t" by blast
  then show ?case
  proof cases
    case 1
    then have "ended = Some (prev + PongWait)" "rest = (t, x) # xs" using run 2(5) by (simp_all add: failed_read_def)
    then show ?thesis by (simp add: ends_now)
  next
    case c: 2
    obtain go tr1 where p: "ping_tick (clock_at tick E) sock tr = (go, tr1)" by fastforce
    have late: "tick \<le> prev + PongWait" using c 2(5) by (simp add: expired_def min_def)
    show ?thesis
    proof (cases go)
      case True
      then have "timed_loop E peer sock sid event (tick + PingPeriod) ((t, x) # xs) a tr1 = (ended, rest, a', tr')"
        using run c p by simp
      then show ?thesis using 2(1) [OF c p [symmetric]] True 2(5) read_deadline_ping [OF p] by simp
    next
      case False
      then have "ended = Some tick" "rest = (t, x) # xs" using run c p by (simp_all add: failed_read_def)
      then show ?thesis using late by (simp add: ends_now)
    qed
  next
    case c: 3
    show ?thesis
    proof (cases "\<exists>message. x = Read_returns (Frame message)")
      case True
      then obtain m where x: "x = Read_returns (Frame m)" by blast
      obtain e a1 tr1 where h: "handle_message (clock_at t E) peer sid event m a tr = (e, a1, tr1)" by (rule prod_cases3)
      obtain ok tr2 where r: "renew_deadline (clock_at t E) sock tr1 = (ok, tr2)" by fastforce
      show ?thesis
      proof (cases "e \<noteq> None \<and> ok")
        case True
        then obtain ev where ev: "e = Some ev" ok by blast
        have "timed_loop E peer sock sid ev tick xs a1 tr2 = (ended, rest, a', tr')" using run c x h r ev by simp
        then have "ends_in_time t xs ended rest"
          using 2(3) [OF c x refl h [symmetric] ev(1) refl r [symmetric]] read_deadline_renewed r ev(2) by simp
        then show ?thesis by (rule ends_later)
      next
        case False
        then have "ended = Some t" "rest = xs" using run c x h r by (cases e; simp)+
        then show ?thesis by (simp add: ends_here)
      qed
    next
      case False
      obtain ok tr1 where r: "pong_handler (clock_at t E) sock tr = (ok, tr1)" by fastforce
      show ?thesis
      proof (cases "x = Pong_frame \<and> ok")
        case True
        then have "timed_loop E peer sock sid event tick xs a tr1 = (ended, rest, a', tr')" using run c r by simp
        then have "ends_in_time t xs ended rest"
          using 2(2) [OF c _ r [symmetric]] read_deadline_renewed [of t E sock tr tr1] r True by (simp add: pong_handler_def)
        then show ?thesis by (rule ends_later)
      next
        case no: False
        have "ended = Some t \<and> rest = xs"
          using run c r False no by (cases x) (auto simp: failed_read_def split: read_result.splits)
        then show ?thesis by (simp add: ends_here)
      qed
    qed
  qed
qed

text \<open>Only messages change the application.\<close>

lemma timed_loop_keeps:
  assumes step: "\<And>t event message a tr. P a \<Longrightarrow> P (fst (snd (handle_message (clock_at t E) peer sid event message a tr)))"
    and start: "P a"
  shows "P (fst (snd (snd (timed_loop E peer sock sid event tick xs a tr))))"
  using start
proof (induction E\<equiv>E peer\<equiv>peer sock sid\<equiv>sid event tick xs a tr rule: timed_loop.induct)
  case (1 sock event tick a tr)
  then show ?case
    by (subst timed_loop.simps(1)) (auto simp: failed_read_def split: option.split prod.split bool.split)
next
  case (2 sock event tick t x xs a tr)
  have h: "P a1" if "handle_message (clock_at t E) peer sid event m a tr = (e, a1, tr1)" for m e a1 tr1
    using step [OF 2(4), of t event m tr] that by simp
  show ?case
    by (subst timed_loop.simps(2))
       (use 2 h in \<open>auto simp: failed_read_def split: option.split prod.split bool.split incoming.split read_result.split\<close>)
qed

text \<open>
  Where everything is read at one time, before the next tick, the loop in time is the loop of
  \<open>Websockets\<close>: same messages handled, same calls in the same order.
\<close>

lemma timed_loop_is_message_loop:
  assumes "fails rs" "t < tick" "renew_deadline (clock_at t E) sock tr = (True, tr1)"
  shows "message_loop (clock_at t E) peer sock sid event rs a tr =
    (True, snd (snd (timed_loop E peer sock sid event tick (List.map (\<lambda>r. (t, Read_returns r)) rs) a tr1)))"
  using assms
proof (induction rs arbitrary: event a tr tr1)
  case (Cons r rs)
  have open_yet: "\<not> expired sock (min tick t) tr1"
    using read_deadline_renewed [OF Cons.prems(3)] Cons.prems(2) by (simp add: expired_def PongWait_def)
  note s = timed_loop.simps(2) [of E peer sock sid event tick t "Read_returns r" "List.map (\<lambda>r. (t, Read_returns r)) rs" a tr1]
  show ?case
  proof (cases "\<exists>m. r = Frame m")
    case True
    then obtain m where r: "r = Frame m" by blast
    obtain e a1 tr2 where h: "handle_message (clock_at t E) peer sid event m a tr1 = (e, a1, tr2)" by (rule prod_cases3)
    obtain ok tr3 where d: "renew_deadline (clock_at t E) sock tr2 = (ok, tr3)" by fastforce
    have "fails rs" using Cons.prems(1) r by (simp add: fails_def)
    then obtain r' rs' where rs: "rs = r' # rs'" by (cases rs) (auto simp: fails_def)
    show ?thesis
      using Cons.IH [OF \<open>fails rs\<close> Cons.prems(2), of tr2 tr3] Cons.prems(2,3) open_yet s r h d rs
      by (cases e; cases ok) (simp_all add: message_loop.simps(2) del: message_loop_Cons)
  next
    case False
    then show ?thesis using Cons.prems(2,3) open_yet s
      by (cases r) (simp_all add: message_loop.simps(2) failed_read_def del: message_loop_Cons)
  qed
qed (simp add: fails_def)

text \<open>
  Claim C20: a session whose peer falls silent ends, whatever the environment does: no later than sixty
  seconds after the last thing it took from the peer (after its start, where there is none). Then the
  connection and its subscriptions are gone and those of all others are as they were.
\<close>

theorem silent_peer_is_dropped:
  assumes wf: "app_wf a" and conn: "FindConnection a sid = Inr peer"
    and run: "timed_session E sock sid t0 xs a tr = (ended, rest, a', tr')"
  shows "(\<exists>heard t. xs = heard @ rest \<and> ended = Some t \<and> t \<le> last_heard t0 heard + 60000000000)
    \<and> app_wf a' \<and> hub_of a' = without sid (hub_of a)"
proof -
  obtain ok tr1 where r1: "renew_deadline (clock_at t0 E) sock tr = (ok, tr1)" by fastforce
  obtain ok' tr2 where r2: "renew_deadline (clock_at t0 E) sock tr1 = (ok', tr2)" by fastforce
  obtain e rs a1 tr3 where l: "timed_loop E peer sock sid [] (t0 + PingPeriod) xs a tr2 = (e, rs, a1, tr3)" by (rule prod_cases4)
  define res where "res = (if ok \<and> ok' then (e, rs, a1, tr3) else (Some t0, xs, a, if ok then tr2 else tr1))"
  obtain e' rs' b trb where b: "res = (e', rs', b, trb)" by (rule prod_cases4)
  have "timed_session E sock sid t0 xs a tr = (let (ended, rest, a1, tr1) = res in (case ended of
      None \<Rightarrow> (None, rest, a1, tr1)
    | Some t \<Rightarrow> let (a2, tr2) = onClose (clock_at t E) sid a1 tr1 in (Some t, rest, a2, tr2)))"
    using conn r1 r2 l by (simp add: timed_session_def res_def)
  then have run': "(case e' of None \<Rightarrow> (None, rs', b, trb)
    | Some t \<Rightarrow> let (a2, tr2) = onClose (clock_at t E) sid b trb in (Some t, rs', a2, tr2)) = (ended, rest, a', tr')"
    using run b by simp
  have ends: "ends_in_time t0 xs e' rs'"
    using b timed_loop_ends [OF l, of t0] read_deadline_renewed r2 by (auto simp: res_def ends_now PongWait_def split: if_splits)
  have own: "app_wf b \<and> without sid (hub_of b) = without sid (hub_of a)"
    using b l timed_loop_keeps [where P = "\<lambda>b. app_wf b \<and> without sid (hub_of b) = without sid (hub_of a)" and a = a,
      of E peer sid sock "[]" "t0 + PingPeriod" xs tr2] handle_message_own wf
    by (auto simp: res_def split: if_splits) (metis fst_conv snd_conv prod_cases3)+
  obtain heard t where t: "xs = heard @ rs'" "e' = Some t" "t \<le> last_heard t0 heard + PongWait"
    using ends by (auto simp: ends_in_time_def)
  then have "ended = Some t" "rest = rs'" "a' = fst (onClose (clock_at t E) sid b trb)"
    using run' by (auto simp: Let_def split: prod.splits)
  then show ?thesis
    using t own app_Disconnect_effect(1) [of b "clock_at t E" sid trb] hub_of_disconnect [of b "clock_at t E" sid trb]
    by (auto simp: onClose_def PongWait_def)
qed

theorem silent_peer_is_dropped_witness:
  "\<exists>a t a'. ''1.1'' \<in> live a \<and> t \<le> 60000000001 \<and> app_wf a' \<and> ''1.1'' \<notin> live a'
     \<and> fst (timed_session demo_env 1 ''1.1'' 0 [(1, Read_returns (Frame demo_frame))] a []) = Some t
     \<and> fst (snd (snd (timed_session demo_env 1 ''1.1'' 0 [(1, Read_returns (Frame demo_frame))] a []))) = a'"
proof -
  obtain a tr where a: "app_wf a" "hub_of a = \<lparr>who = {(''1.1'', 1)}, subscribed = {}\<rparr>" by (rule demo_session)
  have live: "''1.1'' \<in> live a" unfolding hub_of_live [symmetric] a(2) by (simp add: is_live_def)
  then obtain conn where conn: "FindConnection a ''1.1'' = Inr conn"
    by (auto simp: live_def FindConnection_def dest: in_keysD)
  let ?xs = "[(1, Read_returns (Frame demo_frame))]"
  obtain ended rest a' tr' where run: "timed_session demo_env 1 ''1.1'' 0 ?xs a [] = (ended, rest, a', tr')"
    by (rule prod_cases4)
  note d = silent_peer_is_dropped [OF a(1) conn run]
  then obtain heard t where t: "?xs = heard @ rest" "ended = Some t" "t \<le> last_heard 0 heard + 60000000000" by blast
  have "heard = [] \<or> heard = ?xs" using t(1) by (auto simp: Cons_eq_append_conv)
  then have "t \<le> 60000000001" using t(3) by auto
  moreover have "''1.1'' \<notin> live a'"
    unfolding hub_of_live [symmetric] using d by (auto simp: is_live_def without_def)
  ultimately show ?thesis using run live d t(2) by auto
qed

section \<open>A peer that answers pings\<close>

text \<open>
  The ping number \<open>n\<close> of a session that began at \<open>t0\<close> goes out at \<open>t0 + n * PingPeriod\<close>. A peer answers
  it in time if something of it arrives within the six seconds that are left of \<open>PongWait\<close>.
\<close>

definition ping_time :: "int \<Rightarrow> int \<Rightarrow> int" where
  "ping_time t0 n = t0 + n * PingPeriod"

definition answers_pings :: "int \<Rightarrow> int \<Rightarrow> timeline \<Rightarrow> bool" where
  "answers_pings t0 prev xs \<longleftrightarrow> (\<forall>n \<ge> 1. prev < ping_time t0 n \<and> ping_time t0 n < last_heard prev xs \<longrightarrow>
     (\<exists>t \<in> set (List.map fst xs). ping_time t0 n \<le> t \<and> t < ping_time t0 n + (PongWait - PingPeriod)))"

lemma ping_after:
  assumes "t0 \<le> prev"
  obtains n where "1 \<le> n" "prev < ping_time t0 n" "ping_time t0 n \<le> prev + PingPeriod"
proof -
  let ?q = "(prev - t0) div PingPeriod"
  have p: "0 < PingPeriod" by (simp add: PingPeriod_def PongWait_def)
  have "prev - t0 = ?q * PingPeriod + (prev - t0) mod PingPeriod" by simp
  moreover have "0 \<le> (prev - t0) mod PingPeriod" "(prev - t0) mod PingPeriod < PingPeriod" using p by simp_all
  moreover have "ping_time t0 (?q + 1) = t0 + ?q * PingPeriod + PingPeriod" by (simp add: ping_time_def algebra_simps)
  moreover have "0 \<le> ?q" using assms p by (simp add: pos_imp_zdiv_nonneg_iff)
  ultimately show ?thesis by (intro that [of "?q + 1"]) linarith+
qed

lemma last_heard_max: "sorted (prev # List.map fst xs) \<Longrightarrow> \<forall>t \<in> set (prev # List.map fst xs). t \<le> last_heard prev xs"
proof (induction xs arbitrary: prev)
  case (Cons y xs)
  obtain t1 x where y: "y = (t1, x)" by fastforce
  have "\<forall>t \<in> set (t1 # List.map fst xs). t \<le> last_heard t1 xs" using Cons.IH [of t1] Cons.prems by (simp add: y)
  then show ?case using Cons.prems by (auto simp: y)
qed simp

lemma answered_gaps:
  assumes "sorted (prev # List.map fst xs)" "t0 \<le> prev" "answers_pings t0 prev xs"
  shows "gaps_ok prev xs"
  using assms
proof (induction xs arbitrary: prev)
  case (Cons y xs)
  obtain t x where y: "y = (t, x)" by fastforce
  have pw: "PingPeriod < PongWait" by (simp add: PingPeriod_def PongWait_def)
  have sorted: "prev \<le> t" "sorted (t # List.map fst xs)" using Cons.prems(1) by (simp_all add: y)
  have "t < prev + PongWait"
  proof (rule ccontr)
    assume late: "\<not> t < prev + PongWait"
    obtain n where n: "1 \<le> n" "prev < ping_time t0 n" "ping_time t0 n \<le> prev + PingPeriod"
      by (rule ping_after [OF Cons.prems(2)])
    have "t \<le> last_heard prev ((t, x) # xs)" using last_heard_max [OF sorted(2)] by simp
    then obtain t' where t': "t' \<in> set (t # List.map fst xs)" "t' < ping_time t0 n + (PongWait - PingPeriod)"
      using Cons.prems(3) n pw late unfolding answers_pings_def y by fastforce
    have "t \<le> t'" using t'(1) sorted(2) by auto
    then show False using t'(2) n(3) late by simp
  qed
  moreover have "answers_pings t0 t xs"
    unfolding answers_pings_def
  proof (intro allI impI)
    fix n assume n: "1 \<le> n" "t < ping_time t0 n \<and> ping_time t0 n < last_heard t xs"
    then obtain t' where "t' \<in> set (t # List.map fst xs)" "ping_time t0 n \<le> t'" "t' < ping_time t0 n + (PongWait - PingPeriod)"
      using Cons.prems(3) sorted(1) unfolding answers_pings_def y by force
    with n(2) show "\<exists>t' \<in> set (List.map fst xs). ping_time t0 n \<le> t' \<and> t' < ping_time t0 n + (PongWait - PingPeriod)" by auto
  qed
  then have "gaps_ok t xs" using Cons.IH [OF sorted(2)] sorted(1) Cons.prems(2) by simp
  ultimately show ?case by (simp add: y)
qed simp

text \<open>What comes in is a pong or a message that decodes, whatever the last event was.\<close>

fun understood :: "incoming \<Rightarrow> bool" where
  "understood Pong_frame \<longleftrightarrow> True"
| "understood (Read_returns (Frame message)) \<longleftrightarrow> unmarshal_event [] message \<noteq> None"
| "understood (Read_returns err) \<longleftrightarrow> False"

lemma unmarshal_event_any: "unmarshal_event [] message \<noteq> None \<Longrightarrow> unmarshal_event event message \<noteq> None"
proof -
  have "string_field n ms old \<noteq> None \<Longrightarrow> string_field n ms old' \<noteq> None" for n ms old old'
  proof (induction ms arbitrary: old old')
    case (Cons m ms)
    obtain k raw j where m: "m = (k, raw, j)" by (rule prod_cases3)
    show ?case
      using Cons.IH [of old old'] Cons.IH [of "the (decode_string old j)" "the (decode_string old' j)"] Cons.prems
      by (cases j) (auto simp: string_field_def m split: if_splits)
  qed (simp add: string_field_def)
  then show "unmarshal_event [] message \<noteq> None \<Longrightarrow> unmarshal_event event message \<noteq> None"
    by (auto simp: unmarshal_event_def split: option.splits)
qed

text \<open>Nothing goes wrong on the socket: every deadline can be set and every ping written.\<close>

lemma renew_at:
  "reads_armed E \<Longrightarrow> \<exists>tr1. renew_deadline (clock_at t E) sock tr = (True, tr1) \<and> read_deadline sock tr1 = Some (t + PongWait)"
  by (simp add: renew_deadline_def clock_at_def reads_armed_def time_now_def invoke_def Let_def)

lemma ping_at:
  "pings_written E \<Longrightarrow> \<exists>r0 r1. ping_tick (clock_at t E) sock tr = (True, [(WriteControl sock (t + 10000000000), r1), (TimeNow, r0)] @ tr)"
  by (simp add: ping_tick_def clock_at_def pings_written_def time_now_def invoke_def Let_def WriteWait_def)

lemma timed_loop_kept_open:
  assumes "reads_armed E" "pings_written E"
  shows "gaps_ok prev xs \<Longrightarrow> list_all (understood \<circ> snd) xs \<Longrightarrow> read_deadline sock tr = Some (prev + PongWait) \<Longrightarrow>
    \<exists>a' tr'. timed_loop E peer sock sid event tick xs a tr = (Some (last_heard prev xs + PongWait), [], a', tr')"
proof (induction E\<equiv>E peer sock sid event tick xs a tr arbitrary: prev rule: timed_loop.induct)
  case (1 peer sock sid event tick a tr)
  note s = timed_loop.simps(1) [of E peer sock sid event tick a tr]
  obtain tr1 where p: "ping_tick (clock_at tick E) sock tr = (True, tr1)" using ping_at [OF assms(2)] by blast
  show ?case
  proof (cases "prev + PongWait \<le> tick")
    case True
    then show ?thesis using s 1(4) by (simp add: failed_read_def)
  next
    case False
    then show ?thesis using s 1(1) [OF 1(4) False p [symmetric], of prev] 1(4) read_deadline_ping [OF p] p by simp
  qed
next
  case (2 peer sock sid event tick t x xs a tr)
  note s = timed_loop.simps(2) [of E peer sock sid event tick t x xs a tr]
  have g: "t < prev + PongWait" "gaps_ok t xs" "understood x" "list_all (understood \<circ> snd) xs" using 2(4,5) by simp_all
  have c: "\<not> expired sock (min tick t) tr" using g(1) 2(6) by (simp add: expired_def)
  show ?case
  proof (cases "tick \<le> t")
    case True
    obtain tr1 where p: "ping_tick (clock_at tick E) sock tr = (True, tr1)" using ping_at [OF assms(2)] by blast
    then show ?thesis using s c True 2(1) [OF c True p [symmetric] refl 2(4,5)] 2(6) read_deadline_ping [OF p] by simp
  next
    case tick: False
    show ?thesis
    proof (cases x)
      case Pong_frame
      obtain tr1 where r: "pong_handler (clock_at t E) sock tr = (True, tr1)" "read_deadline sock tr1 = Some (t + PongWait)"
        using renew_at [OF assms(1)] unfolding pong_handler_def by blast
      then show ?thesis using s c tick 2(2) [OF c tick Pong_frame r(1) [symmetric] refl g(2,4) r(2)] Pong_frame by simp
    next
      case (Read_returns m)
      then obtain message where m: "m = Frame message" using g(3) by (cases m) simp_all
      obtain ev where ev: "unmarshal_event event message = Some ev"
        using unmarshal_event_any g(3) Read_returns m by fastforce
      obtain a1 tr1 where h: "handle_message (clock_at t E) peer sid event message a tr = (Some ev, a1, tr1)"
        using ev by (cases "dispatch (clock_at t E) peer sid ev message a tr") (simp add: handle_message_def)
      obtain tr2 where r: "renew_deadline (clock_at t E) sock tr1 = (True, tr2)" "read_deadline sock tr2 = Some (t + PongWait)"
        using renew_at [OF assms(1)] by blast
      show ?thesis
        using s c tick Read_returns m h r 2(3) [OF c tick Read_returns m h [symmetric] refl refl r(1) [symmetric] refl g(2,4) r(2)] by simp
    qed
  qed
qed

text \<open>
  Claim C21: a peer that answers every ping within six seconds is never taken for dead, whether it
  answers with pongs or with messages: where the socket works, all it sends is read, and the session ends
  exactly sixty seconds after it was last heard of. A ping is one \<open>WriteControl\<close> with a deadline of its
  own, ten seconds ahead, and leaves the read deadline alone.
\<close>

theorem answered_pings_keep_open:
  assumes conn: "FindConnection a sid = Inr peer" and env: "reads_armed E" "pings_written E"
    and times: "sorted (t0 # List.map fst xs)" "answers_pings t0 t0 xs" and "list_all (understood \<circ> snd) xs"
  shows "(\<exists>a' tr'. timed_session E sock sid t0 xs a tr = (Some (last_heard t0 xs + 60000000000), [], a', tr'))
    \<and> (\<forall>t tr. \<exists>r0 r1. ping_tick (clock_at t E) sock tr = (True, [(WriteControl sock (t + 10000000000), r1), (TimeNow, r0)] @ tr))"
proof -
  obtain tr1 where r1: "renew_deadline (clock_at t0 E) sock tr = (True, tr1)" using renew_at [OF env(1)] by blast
  obtain tr2 where r2: "renew_deadline (clock_at t0 E) sock tr1 = (True, tr2)" "read_deadline sock tr2 = Some (t0 + PongWait)"
    using renew_at [OF env(1)] by blast
  obtain a1 tr3 where l: "timed_loop E peer sock sid [] (t0 + PingPeriod) xs a tr2 = (Some (last_heard t0 xs + PongWait), [], a1, tr3)"
    using timed_loop_kept_open [OF env answered_gaps [OF times(1) order.refl times(2)] assms(6) r2(2)] by blast
  have "\<exists>a' tr'. timed_session E sock sid t0 xs a tr = (Some (last_heard t0 xs + PongWait), [], a', tr')"
    using conn r1 r2(1) l by (simp add: timed_session_def split_beta Let_def)
  then show ?thesis using ping_at [OF env(2)] by (simp add: PongWait_def)
qed

theorem answered_pings_keep_open_witness:
  "\<exists>a a' tr'. ''1.1'' \<in> live a \<and> timed_session demo_env 1 ''1.1'' 0
     [(55000000000, Pong_frame), (109000000000, Read_returns (Frame ping_frame))] a [] = (Some 169000000000, [], a', tr')"
proof -
  obtain a tr where a: "app_wf a" "hub_of a = \<lparr>who = {(''1.1'', 1)}, subscribed = {}\<rparr>" by (rule demo_session)
  have live: "''1.1'' \<in> live a" unfolding hub_of_live [symmetric] a(2) by (simp add: is_live_def)
  then obtain conn where conn: "FindConnection a ''1.1'' = Inr conn"
    by (auto simp: live_def FindConnection_def dest: in_keysD)
  let ?xs = "[(55000000000, Pong_frame), (109000000000, Read_returns (Frame ping_frame))]"
  have env: "reads_armed demo_env" "pings_written demo_env"
    by (simp_all add: reads_armed_def pings_written_def demo_env_def succeeded_def)
  have "answers_pings 0 0 ?xs"
    unfolding answers_pings_def
  proof (intro allI impI)
    fix n :: int assume "1 \<le> n" "0 < ping_time 0 n \<and> ping_time 0 n < last_heard 0 ?xs"
    then have "n = 1 \<or> n = 2" by (auto simp: ping_time_def PingPeriod_def PongWait_def)
    then show "\<exists>t \<in> set (List.map fst ?xs). ping_time 0 n \<le> t \<and> t < ping_time 0 n + (PongWait - PingPeriod)"
      by (auto simp: ping_time_def PingPeriod_def PongWait_def)
  qed
  then show ?thesis
    using answered_pings_keep_open [OF conn env, of 0 ?xs 1 "[]"] ping_frame_decodes live by auto
qed

end
