(* ===== verification/Interleaving.thy ===== *)
theory Interleaving
  imports App_Spec
begin

text \<open>
  Goroutines that join, leave and post at the same time. \<open>src/app/app.go\<close> and \<open>src/channel/channel.go\<close> take
  a lock around each access to the map of channels and to the subscriptions of a channel, but not
  around an operation: between two such sections another goroutine may run. Here an operation is the
  sequence of its critical sections on channel objects that live on a heap, since a goroutine keeps
  the pointer it found. Redis, web hooks and frames are left to \<open>App\<close>: they do not touch this state.
\<close>

section \<open>The shared state and the critical sections\<close>

record channel_object =
  co_name :: string
  co_subs :: "string list"

text \<open>
  The map \<open>channels\<close> holds addresses, \<open>counted\<close> is the counter \<open>TotalChannels\<close>. \<open>joined\<close> is not in the code:
  it records which subscriptions were made and not undone, as their clients see it.
\<close>

record shared =
  heap :: "channel_object list"
  table :: "(string \<times> nat) list"
  counted :: int
  joined :: "(string \<times> string) set"

definition nothing_shared :: shared where
  "nothing_shared = \<lparr>heap = [], table = [], counted = 0, joined = {}\<rparr>"

datatype action = Join string | Leave string | Post

datatype pc = Start | Creating | Joining nat | Leaving nat | Deleting nat | Checking nat | Removing nat | Finished

definition subs_at :: "shared \<Rightarrow> nat \<Rightarrow> string list" where
  "subs_at s p = co_subs (heap s ! p)"

definition set_subs :: "nat \<Rightarrow> string list \<Rightarrow> shared \<Rightarrow> shared" where
  "set_subs p xs s = s\<lparr>heap := (heap s)[p := (heap s ! p)\<lparr>co_subs := xs\<rparr>]\<rparr>"

text \<open>
  The critical sections, one definition for each: \<open>FindChannelByChannelID\<close>, which decides what follows;
  \<open>AddChannel\<close>, which puts a new object into the map whatever is there by now; the first section of
  \<open>Channel.Subscribe\<close>; the two of \<open>Channel.Unsubscribe\<close>; \<open>IsOccupied\<close> and \<open>RemoveChannel\<close> at the end of
  \<open>Application.Unsubscribe\<close>, of which the last deletes by name.
\<close>

fun after_found :: "action \<Rightarrow> nat \<Rightarrow> pc" where
  "after_found (Join sid) p = Joining p"
| "after_found (Leave sid) p = Leaving p"
| "after_found Post p = Finished"

definition actor :: "action \<Rightarrow> string" where
  "actor act = (case act of Join sid \<Rightarrow> sid | Leave sid \<Rightarrow> sid | Post \<Rightarrow> [])"

definition find_section :: "string \<Rightarrow> action \<Rightarrow> shared \<Rightarrow> pc \<times> shared" where
  "find_section n act s =
     (case map_of (table s) n of
        Some p \<Rightarrow> (after_found act p, s)
      | None \<Rightarrow> (case act of Leave sid \<Rightarrow> (Finished, s) | _ \<Rightarrow> (Creating, s)))"

definition add_section :: "string \<Rightarrow> action \<Rightarrow> shared \<Rightarrow> pc \<times> shared" where
  "add_section n act s =
     (after_found act (length (heap s)),
      s\<lparr>heap := heap s @ [\<lparr>co_name = n, co_subs = []\<rparr>], table := AList.update n (length (heap s)) (table s), counted := counted s + 1\<rparr>)"

definition join_section :: "string \<Rightarrow> action \<Rightarrow> nat \<Rightarrow> shared \<Rightarrow> pc \<times> shared" where
  "join_section n act p s =
     (Finished, set_subs p (List.insert (actor act) (subs_at s p)) (s\<lparr>joined := insert (n, actor act) (joined s)\<rparr>))"

definition exists_section :: "action \<Rightarrow> nat \<Rightarrow> shared \<Rightarrow> pc \<times> shared" where
  "exists_section act p s = (if actor act \<in> set (subs_at s p) then Deleting p else Finished, s)"

definition delete_section :: "string \<Rightarrow> action \<Rightarrow> nat \<Rightarrow> shared \<Rightarrow> pc \<times> shared" where
  "delete_section n act p s =
     (Checking p, set_subs p (removeAll (actor act) (subs_at s p)) (s\<lparr>joined := joined s - {(n, actor act)}\<rparr>))"

definition occupied_section :: "nat \<Rightarrow> shared \<Rightarrow> pc \<times> shared" where
  "occupied_section p s = (if subs_at s p = [] then Removing p else Finished, s)"

definition remove_section :: "string \<Rightarrow> shared \<Rightarrow> pc \<times> shared" where
  "remove_section n s = (Finished, s\<lparr>table := AList.delete n (table s), counted := counted s - 1\<rparr>)"

lemmas section_defs [simp] = find_section_def add_section_def join_section_def exists_section_def delete_section_def
  occupied_section_def remove_section_def

fun advance :: "string \<Rightarrow> action \<Rightarrow> pc \<Rightarrow> shared \<Rightarrow> pc \<times> shared" where
  "advance n act Start s = find_section n act s"
| "advance n act Creating s = add_section n act s"
| "advance n act (Joining p) s = join_section n act p s"
| "advance n act (Leaving p) s = exists_section act p s"
| "advance n act (Deleting p) s = delete_section n act p s"
| "advance n act (Checking p) s = occupied_section p s"
| "advance n act (Removing p) s = remove_section n s"
| "advance n act Finished s = (Finished, s)"

text \<open>Whom an event published on a channel reaches: the subscribers of the object the map holds.\<close>

definition reached_by :: "shared \<Rightarrow> string \<Rightarrow> string set" where
  "reached_by s n = (case map_of (table s) n of None \<Rightarrow> {} | Some p \<Rightarrow> set (subs_at s p))"

section \<open>Several goroutines\<close>

record goroutine =
  g_channel :: string
  g_action :: action
  g_pc :: pc

definition active :: "goroutine \<Rightarrow> bool" where
  "active g \<longleftrightarrow> g_pc g \<noteq> Start \<and> g_pc g \<noteq> Finished"

definition step_of :: "nat \<Rightarrow> shared \<times> goroutine list \<Rightarrow> shared \<times> goroutine list" where
  "step_of i sys =
     (let (s, gs) = sys; (pc', s') = advance (g_channel (gs ! i)) (g_action (gs ! i)) (g_pc (gs ! i)) s
      in (s', gs[i := (gs ! i)\<lparr>g_pc := pc'\<rparr>]))"

text \<open>
  Reachable states; when \<open>calm\<close>, an operation starts only if no other on the same channel is under way.
\<close>

definition may_step :: "bool \<Rightarrow> nat \<Rightarrow> goroutine list \<Rightarrow> bool" where
  "may_step calm i gs \<longleftrightarrow> i < length gs \<and>
     (calm \<and> g_pc (gs ! i) = Start \<longrightarrow> (\<forall>j < length gs. active (gs ! j) \<longrightarrow> g_channel (gs ! j) \<noteq> g_channel (gs ! i)))"

inductive reachable :: "bool \<Rightarrow> goroutine list \<Rightarrow> shared \<times> goroutine list \<Rightarrow> bool" for calm gs0 where
  reach_start: "\<forall>g \<in> set gs0. g_pc g = Start \<Longrightarrow> reachable calm gs0 (nothing_shared, gs0)"
| reach_step: "reachable calm gs0 sys \<Longrightarrow> may_step calm i (snd sys) \<Longrightarrow> reachable calm gs0 (step_of i sys)"

fun schedule :: "nat list \<Rightarrow> shared \<times> goroutine list \<Rightarrow> shared \<times> goroutine list" where
  "schedule [] sys = sys"
| "schedule (i # is) sys = schedule is (step_of i sys)"

fun permitted :: "bool \<Rightarrow> nat list \<Rightarrow> shared \<times> goroutine list \<Rightarrow> bool" where
  "permitted calm [] sys \<longleftrightarrow> True"
| "permitted calm (i # is) sys \<longleftrightarrow> may_step calm i (snd sys) \<and> permitted calm is (step_of i sys)"

lemma schedule_reachable:
  "reachable calm gs0 sys \<Longrightarrow> permitted calm is sys \<Longrightarrow> reachable calm gs0 (schedule is sys)"
proof (induction "is" arbitrary: sys)
  case (Cons i "is")
  then show ?case using reach_step [of calm gs0 sys i] by simp
qed simp

section \<open>Calm runs\<close>

definition shared_ok :: "shared \<Rightarrow> bool" where
  "shared_ok s \<longleftrightarrow> distinct (keys (table s))
     \<and> (\<forall>n p. map_of (table s) n = Some p \<longrightarrow> p < length (heap s) \<and> co_name (heap s ! p) = n)
     \<and> counted s = int (length (table s))
     \<and> (\<forall>n sid. (n, sid) \<in> joined s \<longleftrightarrow> sid \<in> reached_by s n)"

text \<open>What a goroutine may rely on between two of its sections, if it is alone on its channel.\<close>

fun pc_ok :: "shared \<Rightarrow> string \<Rightarrow> pc \<Rightarrow> bool" where
  "pc_ok s n Creating \<longleftrightarrow> map_of (table s) n = None"
| "pc_ok s n (Joining p) \<longleftrightarrow> map_of (table s) n = Some p"
| "pc_ok s n (Leaving p) \<longleftrightarrow> map_of (table s) n = Some p"
| "pc_ok s n (Deleting p) \<longleftrightarrow> map_of (table s) n = Some p"
| "pc_ok s n (Checking p) \<longleftrightarrow> map_of (table s) n = Some p"
| "pc_ok s n (Removing p) \<longleftrightarrow> map_of (table s) n = Some p \<and> subs_at s p = []"
| "pc_ok s n Start \<longleftrightarrow> True"
| "pc_ok s n Finished \<longleftrightarrow> True"

lemma after_found_ok: "map_of (table s) n = Some p \<Longrightarrow> pc_ok s n (after_found act p)"
  by (cases act) simp_all

lemma set_subs_simps [simp]:
  "table (set_subs p xs s) = table s" "counted (set_subs p xs s) = counted s" "joined (set_subs p xs s) = joined s"
  "length (heap (set_subs p xs s)) = length (heap s)"
  by (simp_all add: set_subs_def)

lemma set_subs_name [simp]: "co_name (heap (set_subs p xs s) ! q) = co_name (heap s ! q)"
  by (cases "p < length (heap s)"; cases "q = p") (simp_all add: set_subs_def list_update_beyond)

lemma set_subs_at [simp]: "p < length (heap s) \<Longrightarrow> subs_at (set_subs p xs s) q = (if q = p then xs else subs_at s q)"
  by (cases "q = p") (simp_all add: set_subs_def subs_at_def)

lemma shared_okD:
  assumes "shared_ok s"
  shows "distinct (keys (table s))" "counted s = int (length (table s))"
    "map_of (table s) n = Some p \<Longrightarrow> p < length (heap s)" "map_of (table s) n = Some p \<Longrightarrow> co_name (heap s ! p) = n"
    "(n, sid) \<in> joined s \<longleftrightarrow> sid \<in> reached_by s n"
  using assms unfolding shared_ok_def by blast+

lemma subs_at_joined [simp]: "subs_at (s\<lparr>joined := x\<rparr>) = subs_at s" "subs_at (s\<lparr>table := t\<rparr>) = subs_at s" "subs_at (s\<lparr>counted := k\<rparr>) = subs_at s"
  by (simp_all add: subs_at_def fun_eq_iff)

lemma subs_at_append: "q < length (heap s) \<Longrightarrow> subs_at (s\<lparr>heap := heap s @ xs\<rparr>) q = subs_at s q"
  by (simp add: subs_at_def nth_append)

lemma same_channel:
  "shared_ok s \<Longrightarrow> map_of (table s) n = Some p \<Longrightarrow> map_of (table s) m = Some p \<Longrightarrow> n = m"
  using shared_okD(4) [of s n p] shared_okD(4) [of s m p] by simp

lemma change_subs_ok:
  assumes ok: "shared_ok s" and p: "map_of (table s) n = Some p"
    and J: "\<And>m sid. (m, sid) \<in> J \<longleftrightarrow> (if m = n then sid \<in> set xs else (m, sid) \<in> joined s)"
  shows "shared_ok (set_subs p xs (s\<lparr>joined := J\<rparr>))"
proof -
  let ?s = "set_subs p xs (s\<lparr>joined := J\<rparr>)"
  have pl: "p < length (heap s)" by (rule shared_okD(3) [OF ok p])
  have r: "sid \<in> reached_by ?s m \<longleftrightarrow> (m, sid) \<in> J" for m sid
  proof (cases "m = n")
    case True
    then show ?thesis using p pl J [of m sid] by (simp add: reached_by_def)
  next
    case False
    then have "map_of (table s) m \<noteq> Some p" using same_channel [OF ok p, of m] by auto
    then have "reached_by ?s m = reached_by s m" using pl by (auto simp: reached_by_def split: option.split)
    then show ?thesis using False J [of m sid] shared_okD(5) [OF ok, of m sid] by simp
  qed
  show ?thesis unfolding shared_ok_def r using shared_okD(1-4) [OF ok] by simp
qed

lemma advance_ok:
  assumes ok: "shared_ok s" and pc: "pc_ok s n pc" and run: "advance n act pc s = (pc', s')"
  shows "shared_ok s' \<and> pc_ok s' n pc'"
proof (cases pc)
  case Start
  then show ?thesis using ok run after_found_ok by (auto split: option.splits action.splits)
next
  case Creating
  let ?p = "length (heap s)" and ?s = "s\<lparr>heap := heap s @ [\<lparr>co_name = n, co_subs = []\<rparr>], table := AList.update n (length (heap s)) (table s), counted := counted s + 1\<rparr>"
  have none: "map_of (table s) n = None" using pc Creating by simp
  have r: "reached_by ?s m = reached_by s m" for m
    using none shared_okD(3) [OF ok, of m]
    by (auto simp: reached_by_def map_of_update subs_at_def nth_append split: option.splits)
  have l: "length (table ?s) = Suc (length (table s))"
    using none by (simp add: length_update map_of_None_keys [symmetric])
  have "q < length (heap ?s) \<and> co_name (heap ?s ! q) = m" if "map_of (table ?s) m = Some q" for m q
    using that shared_okD(3,4) [OF ok, of m q] by (cases "m = n") (auto simp: map_of_update nth_append)
  then have "shared_ok ?s"
    unfolding shared_ok_def r l using shared_okD(1,2,5) [OF ok] by (simp add: distinct_keys_update)
  moreover have "map_of (table ?s) n = Some ?p" by (simp add: map_of_update)
  ultimately show ?thesis using run Creating after_found_ok [of ?s n ?p act] by auto
next
  case (Joining p)
  have "shared_ok s'"
    using run Joining pc ok change_subs_ok [OF ok, of n p "insert (n, actor act) (joined s)" "List.insert (actor act) (subs_at s p)"]
    by (auto simp: shared_ok_def reached_by_def)
  then show ?thesis using run Joining by auto
next
  case (Deleting p)
  have "shared_ok s'"
    using run Deleting pc ok change_subs_ok [OF ok, of n p "joined s - {(n, actor act)}" "removeAll (actor act) (subs_at s p)"]
    by (auto simp: shared_ok_def reached_by_def)
  then show ?thesis using run Deleting pc by auto
next
  case (Removing p)
  let ?s = "s\<lparr>table := AList.delete n (table s), counted := counted s - 1\<rparr>"
  have r: "reached_by ?s m = reached_by s m" for m
    using pc Removing by (auto simp: reached_by_def map_of_delete split: option.split)
  have l: "int (length (table ?s)) = int (length (table s)) - 1"
    using pc Removing shared_okD(1) [OF ok] map_of_some_keys [of "table s" n p]
    by (cases "table s = []") (simp_all add: length_delete of_nat_diff Suc_leI)
  have "shared_ok ?s"
    unfolding shared_ok_def r l using shared_okD [OF ok] by (auto simp: distinct_keys_delete map_of_delete)
  then show ?thesis using run Removing by auto
qed (use ok pc run in auto)

text \<open>What a goroutine does to other channels: nothing.\<close>

lemma advance_others:
  assumes ok: "shared_ok s" and pc: "pc_ok s n pc" and run: "advance n act pc s = (pc', s')" and m: "m \<noteq> n"
  shows "map_of (table s') m = map_of (table s) m"
    "map_of (table s) m = Some q \<Longrightarrow> subs_at s' q = subs_at s q"
proof -
  show "map_of (table s') m = map_of (table s) m"
    using run m by (cases pc) (auto simp: map_of_update map_of_delete split: option.splits action.splits)
  assume q: "map_of (table s) m = Some q"
  have "q < length (heap s)" by (rule shared_okD(3) [OF ok q])
  moreover have "q \<noteq> p" if "map_of (table s) n = Some p" for p using same_channel [OF ok q, of n] that m by auto
  ultimately show "subs_at s' q = subs_at s q"
    using run pc shared_okD(3) [OF ok]
    by (cases pc) (auto simp: subs_at_append split: option.splits action.splits if_splits)
qed

lemma pc_ok_others:
  assumes "shared_ok s" "pc_ok s n pc" "advance n act pc s = (pc', s')" "m \<noteq> n" "pc_ok s m other"
  shows "pc_ok s' m other"
  using assms(5) advance_others [OF assms(1-4)] by (cases other) auto

definition calm_ok :: "shared \<times> goroutine list \<Rightarrow> bool" where
  "calm_ok sys \<longleftrightarrow> shared_ok (fst sys)
     \<and> (\<forall>g \<in> set (snd sys). pc_ok (fst sys) (g_channel g) (g_pc g))
     \<and> (\<forall>i < length (snd sys). \<forall>j < length (snd sys). i \<noteq> j \<and> active (snd sys ! i) \<and> active (snd sys ! j)
          \<longrightarrow> g_channel (snd sys ! i) \<noteq> g_channel (snd sys ! j))"

lemma advance_started: "advance n act pc s = (pc', s') \<Longrightarrow> pc' \<noteq> Start"
  by (cases pc; cases act) (auto split: option.splits if_splits)

lemma calm_step:
  assumes inv: "calm_ok (s, gs)" and may: "may_step True i gs"
  shows "calm_ok (step_of i (s, gs))"
proof -
  let ?g = "gs ! i"
  obtain pc' s' where run: "advance (g_channel ?g) (g_action ?g) (g_pc ?g) s = (pc', s')" by fastforce
  have i: "i < length gs" using may by (simp add: may_step_def)
  have ok: "shared_ok s" and pc: "\<And>j. j < length gs \<Longrightarrow> pc_ok s (g_channel (gs ! j)) (g_pc (gs ! j))"
    and apart: "\<And>j k. j < length gs \<Longrightarrow> k < length gs \<Longrightarrow> j \<noteq> k \<Longrightarrow> active (gs ! j) \<Longrightarrow> active (gs ! k)
      \<Longrightarrow> g_channel (gs ! j) \<noteq> g_channel (gs ! k)"
    using inv by (auto simp: calm_ok_def)
  note adv = advance_ok [OF ok pc [OF i] run]
  have alone: "g_channel (gs ! j) \<noteq> g_channel ?g" if "j < length gs" "j \<noteq> i" "active (gs ! j)" "active (?g\<lparr>g_pc := pc'\<rparr>)" for j
  proof (cases "g_pc ?g = Start")
    case True
    then show ?thesis using may that by (simp add: may_step_def)
  next
    case False
    have "g_pc ?g \<noteq> Finished" using that(4) run by (auto simp: active_def)
    then show ?thesis using False apart [OF that(1) i that(2,3)] by (simp add: active_def)
  qed
  have pc2: "pc_ok s' (g_channel (gs ! j)) (g_pc (gs ! j))" if "j < length gs" "j \<noteq> i" for j
  proof (cases "active (gs ! j) \<and> g_channel (gs ! j) = g_channel ?g")
    case True
    then have "\<not> active (?g\<lparr>g_pc := pc'\<rparr>)" using alone [OF that] by blast
    moreover have "g_pc ?g = Start \<or> g_pc ?g = Finished"
      using apart [OF that(1) i that(2)] True by (auto simp: active_def)
    ultimately have "s' = s"
      using run by (cases "g_action ?g") (auto simp: active_def split: option.splits)
    then show ?thesis using pc [OF that(1)] by simp
  next
    case False
    then show ?thesis
      using pc_ok_others [OF ok pc [OF i] run _ pc [OF that(1)]] by (cases "g_pc (gs ! j)") (auto simp: active_def)
  qed
  let ?gs = "gs[i := ?g\<lparr>g_pc := pc'\<rparr>]"
  have "pc_ok s' (g_channel (?gs ! j)) (g_pc (?gs ! j))" if "j < length gs" for j
    using that adv pc2 [of j] by (cases "j = i") simp_all
  moreover have "g_channel (?gs ! j) \<noteq> g_channel (?gs ! k)"
    if "j < length gs" "k < length gs" "j \<noteq> k" "active (?gs ! j)" "active (?gs ! k)" for j k
    using that i apart [of j k] alone [of j] alone [of k] by (cases "j = i"; cases "k = i") auto
  ultimately have "calm_ok (s', ?gs)" using adv by (auto simp: calm_ok_def in_set_conv_nth)
  then show ?thesis using run by (simp add: step_of_def)
qed

lemma calm_reachable: "reachable True gs0 sys \<Longrightarrow> calm_ok sys"
proof (induction rule: reachable.induct)
  case reach_start
  then show ?case
    by (auto simp: calm_ok_def shared_ok_def nothing_shared_def reached_by_def active_def keys_def)
next
  case (reach_step sys i)
  then show ?case using calm_step [of "fst sys" "snd sys" i] by simp
qed

text \<open>
  Claim C7: as long as an operation on a channel starts only when no other on the same channel is under
  way, whatever the others do and however the critical sections interleave, an event published on a
  channel reaches exactly the connections that joined and did not leave, and the counter of channels
  tells their number.
\<close>

theorem calm_runs:
  assumes "reachable True gs0 (s, gs)"
  shows "reached_by s n = {sid. (n, sid) \<in> joined s} \<and> counted s = int (card (dom (map_of (table s))))"
proof -
  have ok: "shared_ok s" using calm_reachable [OF assms] by (simp add: calm_ok_def)
  have "card (dom (map_of (table s))) = length (table s)"
    using length_keys [OF shared_okD(1) [OF ok]] by (simp add: dom_map_of_conv_image_fst keys_def)
  then show ?thesis using shared_okD(2,5) [OF ok] by auto
qed

section \<open>What goes wrong otherwise\<close>

definition going :: "string \<Rightarrow> action \<Rightarrow> goroutine" where
  "going n act = \<lparr>g_channel = n, g_action = act, g_pc = Start\<rparr>"

definition all_finished :: "shared \<times> goroutine list \<Rightarrow> bool" where
  "all_finished sys \<longleftrightarrow> list_all (\<lambda>g. g_pc g = Finished) (snd sys)"

lemmas run_simps = going_def all_finished_def step_of_def may_step_def nothing_shared_def active_def
  reached_by_def set_subs_def subs_at_def actor_def List.insert_def less_Suc_eq

lemma schedule_from_start:
  assumes "\<forall>g \<in> set gs. g_pc g = Start" "permitted calm is (nothing_shared, gs)"
  shows "reachable calm gs (schedule is (nothing_shared, gs))"
  by (rule schedule_reachable [OF reach_start [OF assms(1)] assms(2)])

theorem calm_runs_witness:
  "reached_by (fst (schedule [0,0,0,1,1,2,2,2,2] (nothing_shared, [going ''a'' (Join ''1.1''), going ''a'' (Join ''2.2''), going ''a'' (Leave ''1.1'')]))) ''a''
    = {''2.2''}"
proof -
  let ?gs = "[going ''a'' (Join ''1.1''), going ''a'' (Join ''2.2''), going ''a'' (Leave ''1.1'')]"
  obtain s gs where run: "schedule [0,0,0,1,1,2,2,2,2] (nothing_shared, ?gs) = (s, gs)" by fastforce
  have "reachable True ?gs (s, gs)"
    unfolding run [symmetric] by (rule schedule_from_start) (simp_all add: run_simps)
  moreover have "joined s = {(''a'', ''2.2'')}" using run by (auto simp: run_simps)
  ultimately show ?thesis using calm_runs [of ?gs s gs "''a''"] unfolding run by simp
qed

text \<open>
  Claim C8: without that, all three of these can happen from an application without channels, every
  operation having finished: two clients join a channel that does not exist yet, both create it, and
  the first is subscribed to an object that is in no map and is never sent an event again; a client
  joins while the last other one leaves, with the same result; two clients leave at once and the channel is
  counted off twice.
\<close>

theorem overlapping_operations:
  "(\<exists>s gs. reachable False [going ''a'' (Join ''1.1''), going ''a'' (Join ''2.2'')] (s, gs) \<and> all_finished (s, gs)
      \<and> (''a'', ''1.1'') \<in> joined s \<and> reached_by s ''a'' = {''2.2''} \<and> counted s = 2 \<and> length (table s) = 1)
   \<and> (\<exists>s gs. reachable False [going ''a'' (Join ''1.1''), going ''a'' (Leave ''1.1''), going ''a'' (Join ''2.2'')] (s, gs)
      \<and> all_finished (s, gs) \<and> (''a'', ''2.2'') \<in> joined s \<and> reached_by s ''a'' = {})
   \<and> (\<exists>s gs. reachable False [going ''a'' (Join ''1.1''), going ''a'' (Join ''2.2''), going ''a'' (Leave ''1.1''), going ''a'' (Leave ''2.2'')] (s, gs)
      \<and> all_finished (s, gs) \<and> table s = [] \<and> counted s = -1)"
proof (intro conjI)
  let ?g1 = "[going ''a'' (Join ''1.1''), going ''a'' (Join ''2.2'')]"
  let ?r1 = "schedule [0,1,0,0,1,1] (nothing_shared, ?g1)"
  have "reachable False ?g1 ?r1" by (rule schedule_from_start) (simp_all add: run_simps)
  moreover have "all_finished ?r1 \<and> (''a'', ''1.1'') \<in> joined (fst ?r1) \<and> reached_by (fst ?r1) ''a'' = {''2.2''}
      \<and> counted (fst ?r1) = 2 \<and> length (table (fst ?r1)) = 1" by (simp add: run_simps)
  ultimately show "\<exists>s gs. reachable False ?g1 (s, gs) \<and> all_finished (s, gs)
      \<and> (''a'', ''1.1'') \<in> joined s \<and> reached_by s ''a'' = {''2.2''} \<and> counted s = 2 \<and> length (table s) = 1"
    by (metis prod.collapse)
  let ?g2 = "[going ''a'' (Join ''1.1''), going ''a'' (Leave ''1.1''), going ''a'' (Join ''2.2'')]"
  let ?r2 = "schedule [0,0,0,1,1,1,1,2,1,2] (nothing_shared, ?g2)"
  have "reachable False ?g2 ?r2" by (rule schedule_from_start) (simp_all add: run_simps)
  moreover have "all_finished ?r2 \<and> (''a'', ''2.2'') \<in> joined (fst ?r2) \<and> reached_by (fst ?r2) ''a'' = {}" by (simp add: run_simps)
  ultimately show "\<exists>s gs. reachable False ?g2 (s, gs) \<and> all_finished (s, gs) \<and> (''a'', ''2.2'') \<in> joined s \<and> reached_by s ''a'' = {}"
    by (metis prod.collapse)
  let ?g3 = "[going ''a'' (Join ''1.1''), going ''a'' (Join ''2.2''), going ''a'' (Leave ''1.1''), going ''a'' (Leave ''2.2'')]"
  let ?r3 = "schedule [0,0,0,1,1,2,2,2,3,3,3,2,3,2,3] (nothing_shared, ?g3)"
  have "reachable False ?g3 ?r3" by (rule schedule_from_start) (simp_all add: run_simps)
  moreover have "all_finished ?r3 \<and> table (fst ?r3) = [] \<and> counted (fst ?r3) = -1" by (simp add: run_simps)
  ultimately show "\<exists>s gs. reachable False ?g3 (s, gs) \<and> all_finished (s, gs) \<and> table s = [] \<and> counted s = -1"
    by (metis prod.collapse)
qed

section \<open>Operations that are not interrupted\<close>

text \<open>Five critical sections are the longest way through an operation.\<close>

definition to_end :: "string \<Rightarrow> action \<Rightarrow> shared \<Rightarrow> shared" where
  "to_end n act s = snd (((\<lambda>(pc, s). advance n act pc s) ^^ 5) (Start, s))"

definition roster_of :: "shared \<Rightarrow> string \<Rightarrow> string set option" where
  "roster_of s n = map_option (\<lambda>p. set (subs_at s p)) (map_of (table s) n)"

lemma to_end_ok:
  assumes "shared_ok s"
  shows "shared_ok (to_end n act s)"
proof -
  let ?step = "\<lambda>(pc, s). advance n act pc s"
  have "shared_ok (snd ((?step ^^ k) (Start, s))) \<and> pc_ok (snd ((?step ^^ k) (Start, s))) n (fst ((?step ^^ k) (Start, s)))" for k
  proof (induction k)
    case (Suc k)
    obtain pc t where x: "(?step ^^ k) (Start, s) = (pc, t)" by fastforce
    show ?case using Suc advance_ok [of t n pc act] by (cases "advance n act pc t") (simp add: x)
  qed (simp add: assms)
  then show ?thesis by (simp add: to_end_def)
qed

lemma roster_of_set_subs:
  assumes ok: "shared_ok s" and p: "map_of (table s) n = Some p"
  shows "roster_of (set_subs p xs (s\<lparr>joined := J\<rparr>)) = (roster_of s)(n \<mapsto> set xs)"
proof
  fix m
  have pl: "p < length (heap s)" by (rule shared_okD(3) [OF ok p])
  show "roster_of (set_subs p xs (s\<lparr>joined := J\<rparr>)) m = ((roster_of s)(n \<mapsto> set xs)) m"
    using p pl same_channel [OF ok p, of m] by (cases "map_of (table s) m") (auto simp: roster_of_def)
qed

definition with_channel :: "string \<Rightarrow> shared \<Rightarrow> shared" where
  "with_channel n s = s\<lparr>heap := heap s @ [\<lparr>co_name = n, co_subs = []\<rparr>],
     table := AList.update n (length (heap s)) (table s), counted := counted s + 1\<rparr>"

lemma with_channel_ok:
  assumes ok: "shared_ok s" and none: "map_of (table s) n = None"
  shows "shared_ok (with_channel n s)" "map_of (table (with_channel n s)) n = Some (length (heap s))"
    "roster_of (with_channel n s) = (roster_of s)(n \<mapsto> {})" "subs_at (with_channel n s) (length (heap s)) = []"
proof -
  have "advance n Post Creating s = (Finished, with_channel n s)" by (simp add: with_channel_def)
  from advance_ok [OF ok _ this] none show "shared_ok (with_channel n s)" by simp
  show "map_of (table (with_channel n s)) n = Some (length (heap s))" by (simp add: with_channel_def map_of_update)
  show "subs_at (with_channel n s) (length (heap s)) = []" by (simp add: with_channel_def subs_at_def)
  show "roster_of (with_channel n s) = (roster_of s)(n \<mapsto> {})"
  proof
    fix m
    show "roster_of (with_channel n s) m = ((roster_of s)(n \<mapsto> {})) m"
      using none shared_okD(3) [OF ok, of m]
      by (cases "map_of (table s) m") (auto simp: roster_of_def with_channel_def map_of_update subs_at_def nth_append)
  qed
qed

lemma numeral_iter: "(f ^^ 5) x = f (f (f (f (f x))))"
  by (simp add: eval_nat_numeral)

lemma to_end_found:
  assumes "map_of (table s) n = Some p"
  shows "to_end n (Join sid) s = set_subs p (List.insert sid (subs_at s p)) (s\<lparr>joined := insert (n, sid) (joined s)\<rparr>)"
    "to_end n Post s = s"
    "sid \<notin> set (subs_at s p) \<Longrightarrow> to_end n (Leave sid) s = s"
  using assms by (simp_all add: to_end_def numeral_iter actor_def)

lemma to_end_missing:
  assumes "map_of (table s) n = None"
  shows "to_end n (Join sid) s = to_end n (Join sid) (with_channel n s)" "to_end n Post s = with_channel n s"
    "to_end n (Leave sid) s = s"
proof -
  have "map_of (table (with_channel n s)) n = Some (length (heap s))" by (simp add: with_channel_def map_of_update)
  from to_end_found(1) [OF this] show "to_end n (Join sid) s = to_end n (Join sid) (with_channel n s)"
    using assms by (simp add: to_end_def [of n "Join sid" s] numeral_iter with_channel_def actor_def)
  show "to_end n Post s = with_channel n s" "to_end n (Leave sid) s = s"
    using assms by (simp_all add: to_end_def numeral_iter with_channel_def)
qed

lemma to_end_join:
  assumes ok: "shared_ok s"
  shows "roster_of (to_end n (Join sid) s) = (roster_of s)(n \<mapsto> insert sid (case roster_of s n of None \<Rightarrow> {} | Some S \<Rightarrow> S))"
proof (cases "map_of (table s) n")
  case None
  note w = with_channel_ok [OF ok None]
  show ?thesis
    using None by (simp add: to_end_missing to_end_found [OF w(2)] roster_of_set_subs [OF w(1,2)] w(3,4)) (simp add: roster_of_def)
next
  case (Some p)
  then show ?thesis
    by (simp add: to_end_found [OF Some] roster_of_set_subs [OF ok Some]) (simp add: roster_of_def)
qed

lemma to_end_leave:
  assumes ok: "shared_ok s"
  shows "roster_of (to_end n (Leave sid) s) = (roster_of s)(n := leave sid (roster_of s n))"
proof (cases "map_of (table s) n")
  case None
  then show ?thesis by (auto simp: to_end_missing roster_of_def leave_def fun_eq_iff)
next
  case p: (Some p)
  have r: "roster_of s n = Some (set (subs_at s p))" by (simp add: roster_of_def p)
  show ?thesis
  proof (cases "sid \<in> set (subs_at s p)")
    case False
    then show ?thesis using r by (auto simp: to_end_found [OF p] leave_def fun_eq_iff)
  next
    case True
    have pl: "p < length (heap s)" by (rule shared_okD(3) [OF ok p])
    let ?s = "set_subs p (removeAll sid (subs_at s p)) (s\<lparr>joined := joined s - {(n, sid)}\<rparr>)"
    have e: "to_end n (Leave sid) s = (if removeAll sid (subs_at s p) = []
        then ?s\<lparr>table := AList.delete n (table ?s), counted := counted ?s - 1\<rparr> else ?s)"
      using p pl True by (simp add: to_end_def numeral_iter actor_def)
    have "removeAll sid (subs_at s p) = [] \<longleftrightarrow> set (subs_at s p) = {sid}"
      using True by (auto simp: set_removeAll simp flip: set_empty)
    moreover have "roster_of (?s\<lparr>table := AList.delete n (table ?s), counted := counted ?s - 1\<rparr>) = (roster_of ?s)(n := None)"
      by (auto simp: roster_of_def map_of_delete fun_eq_iff)
    ultimately show ?thesis
      using True r roster_of_set_subs [OF ok p] unfolding e by (auto simp: leave_def fun_eq_iff)
  qed
qed

lemma to_end_post:
  "shared_ok s \<Longrightarrow> roster_of (to_end n Post s) = (if roster_of s n = None then (roster_of s)(n \<mapsto> {}) else roster_of s)"
  by (cases "map_of (table s) n") (simp_all add: to_end_missing with_channel_ok to_end_found, simp_all add: roster_of_def)

text \<open>
  Claim C9: an operation that is not interrupted does to the channels what the model of the whole
  application says it does: the same channels exist afterwards, with the same subscribers.
\<close>

theorem uninterrupted_as_modelled:
  assumes wf: "app_wf a" and ok: "shared_ok s" and same: "roster_of s = roster a" and live: "sid \<in> live a"
  shows "roster_of (to_end cid (Join sid) s) = roster (fst (run_op E (OpSubscribe cid sid data) (a, tr)))
    \<and> roster_of (to_end cid (Leave sid) s) = roster (fst (run_op E (OpUnsubscribe cid sid) (a, tr)))
    \<and> roster_of (to_end cid Post s) = roster (fst (run_op E (OpPost cid event ignore) (a, tr)))"
  using live roster_run_subscribe [OF wf] roster_run_unsubscribe [OF wf] roster_run_post
  by (simp add: to_end_join [OF ok] to_end_leave [OF ok] to_end_post [OF ok] same del: run_op.simps)

theorem uninterrupted_as_modelled_witness:
  "roster (fst (run_op demo_env (OpSubscribe ''a'' ''1.1'' []) (run_op demo_env (OpConnect (demo_conn ''1.1'' 1)) (demo_app, [])))) ''a''
    = Some {''1.1''}"
proof -
  obtain a tr where c: "run_op demo_env (OpConnect (demo_conn ''1.1'' 1)) (demo_app, []) = (a, tr)" by fastforce
  have f: "fresh_connection (demo_conn ''1.1'' 1) demo_app" by (simp add: fresh_connection_def live_def demo_app_def empty_application_def)
  have "app_wf demo_app" by (simp add: demo_app_def app_wf_empty)
  then have wf: "app_wf a" using app_Connect_wf [OF _ f] c by (metis fst_conv run_op.simps(1))
  have live: "''1.1'' \<in> live a" and none: "roster a = (\<lambda>_. None)"
    using c app_Connect_fields [of demo_env "demo_conn ''1.1'' 1" demo_app "[]"]
    by (auto simp: live_def roster_def demo_app_def empty_application_def demo_conn_def keys_def fun_eq_iff prod_eq_iff)
  have ok: "shared_ok nothing_shared" by (simp add: shared_ok_def nothing_shared_def reached_by_def keys_def)
  have "roster_of nothing_shared = roster a" by (simp add: none roster_of_def nothing_shared_def fun_eq_iff)
  then have "roster_of (to_end ''a'' (Join ''1.1'') nothing_shared) = roster (fst (run_op demo_env (OpSubscribe ''a'' ''1.1'' []) (a, tr)))"
    using uninterrupted_as_modelled [OF wf ok _ live] by blast
  moreover have "roster_of (to_end ''a'' (Join ''1.1'') nothing_shared) ''a'' = Some {''1.1''}"
    by (simp add: to_end_join [OF ok]) (simp add: roster_of_def nothing_shared_def)
  ultimately show ?thesis unfolding c by simp
qed

end
