(* ===== verification/Locks.thy ===== *)
theory Locks
  imports Prelude
begin

text \<open>
  The locks of \<open>src/app/app.go\<close>, \<open>src/channel/channel.go\<close>, \<open>src/connection/connection.go\<close> and
  \<open>src/storage/storage.go\<close>: which function takes which lock around what, and goroutines that run any
  number of these functions at once. A \<open>sync.RWMutex\<close> is not reentrant, and a writer that waits keeps new
  readers out, so that a goroutine that takes a lock twice, even for reading, may wait for itself.
\<close>

section \<open>Locks and goroutines\<close>

text \<open>The lock of the storage, and those of one application, its channels and its connections.\<close>

datatype lock = StorageLock | AppLock | SubscribersMutex | ChannelLock string | ConnectionLock string

datatype mode = ForReading | ForWriting

text \<open>\<open>Work\<close> stays within the program; \<open>Ask\<close> is a call to Redis, a socket or the web hook endpoint.\<close>

datatype instr = Acquire lock mode | Release lock mode | Work | Ask

record thread =
  holds :: "(lock \<times> mode) list"
  todo :: "instr list"
  waits :: bool

text \<open>The writer that waits for a lock has announced itself.\<close>

definition awaits :: "thread \<Rightarrow> lock \<Rightarrow> bool" where
  "awaits t l \<longleftrightarrow> waits t \<and> (case todo t of Acquire l' ForWriting # _ \<Rightarrow> l' = l | _ \<Rightarrow> False)"

fun free_for :: "thread list \<Rightarrow> lock \<Rightarrow> mode \<Rightarrow> bool" where
  "free_for ts l ForWriting \<longleftrightarrow> list_all (\<lambda>t. l \<notin> fst ` set (holds t)) ts"
| "free_for ts l ForReading \<longleftrightarrow> list_all (\<lambda>t. (l, ForWriting) \<notin> set (holds t) \<and> \<not> awaits t l) ts"

text \<open>
  A step of goroutine \<open>i\<close>; \<open>None\<close> if it cannot go on, because it is through, waits for a lock, or has
  asked somebody who never answers (\<open>stalled\<close>).
\<close>

definition try_step :: "nat list \<Rightarrow> nat \<Rightarrow> thread list \<Rightarrow> thread list option" where
  "try_step stalled i ts =
     (if length ts \<le> i then None
      else let t = ts ! i in
        (case todo t of
           [] \<Rightarrow> None
         | Acquire l m # rest \<Rightarrow>
             if free_for ts l m then Some (ts[i := \<lparr>holds = (l, m) # holds t, todo = rest, waits = False\<rparr>])
             else if m = ForWriting \<and> \<not> waits t then Some (ts[i := t\<lparr>waits := True\<rparr>])
             else None
         | Release l m # rest \<Rightarrow> Some (ts[i := t\<lparr>holds := remove1 (l, m) (holds t), todo := rest\<rparr>])
         | Work # rest \<Rightarrow> Some (ts[i := t\<lparr>todo := rest\<rparr>])
         | Ask # rest \<Rightarrow> if i \<in> set stalled then None else Some (ts[i := t\<lparr>todo := rest\<rparr>])))"

fun run_threads :: "nat list \<Rightarrow> nat list \<Rightarrow> thread list \<Rightarrow> thread list option" where
  "run_threads stalled [] ts = Some ts"
| "run_threads stalled (i # sched) ts =
     (case try_step stalled i ts of None \<Rightarrow> None | Some ts' \<Rightarrow> run_threads stalled sched ts')"

section \<open>What the functions of the program lock\<close>

definition locked :: "lock \<Rightarrow> mode \<Rightarrow> instr list \<Rightarrow> instr list" where
  "locked l m body = Acquire l m # body @ [Release l m]"

text \<open>\<open>Connection.Publish\<close>: arm the deadline, write, disarm it.\<close>

definition connection_publish_locks :: "string \<Rightarrow> instr list" where
  "connection_publish_locks k = locked (ConnectionLock k) ForWriting [Ask, Ask, Ask]"

text \<open>
  A channel: its queries (\<open>Subscriptions\<close>, \<open>TotalSubscriptions\<close>, \<open>TotalUsers\<close>, \<open>IsSubscribed\<close>), the changes
  of its map, and the three functions that write to the members under the lock. \<open>None\<close> in the list of
  \<open>Publish\<close> is a member that is skipped, for whom the listeners are run if it is a client event. An \<open>Ask\<close>
  stands for listeners: they post a web hook.
\<close>

definition channel_query_locks :: "string \<Rightarrow> instr list" where
  "channel_query_locks c = locked (ChannelLock c) ForReading [Work]"

definition channel_change_locks :: "string \<Rightarrow> instr list" where
  "channel_change_locks c = locked (ChannelLock c) ForWriting [Work]"

definition member_event_locks :: "string \<Rightarrow> string list \<Rightarrow> instr list" where
  "member_event_locks c ks = locked (ChannelLock c) ForReading (concat (List.map connection_publish_locks ks))"

definition channel_publish_locks :: "string \<Rightarrow> bool \<Rightarrow> string option list \<Rightarrow> instr list" where
  "channel_publish_locks c client ks = locked (ChannelLock c) ForReading
     (concat (List.map (\<lambda>k. case k of None \<Rightarrow> if client then [Ask] else [] | Some k \<Rightarrow> connection_publish_locks k) ks))"

text \<open>
  \<open>Channel.Subscribe\<close> of connection \<open>k\<close>: whether it is a presence channel, whether the data decodes, the
  other members, and whether the newcomer is the only one.
\<close>

definition channel_subscribe_locks :: "string \<Rightarrow> string \<Rightarrow> bool \<Rightarrow> bool \<Rightarrow> string list \<Rightarrow> bool \<Rightarrow> instr list" where
  "channel_subscribe_locks c k presence decodes others sole =
     channel_change_locks c @
     (if presence \<and> \<not> decodes then []
      else (if presence
            then channel_change_locks c @ member_event_locks c others @ [Ask] @ channel_change_locks c @ connection_publish_locks k
            else connection_publish_locks k)
           @ channel_query_locks c @ (if sole then [Ask] else []))"

definition channel_unsubscribe_locks :: "string \<Rightarrow> bool \<Rightarrow> bool \<Rightarrow> string list \<Rightarrow> bool \<Rightarrow> instr list" where
  "channel_unsubscribe_locks c found presence others vacant =
     channel_query_locks c @
     (if \<not> found then []
      else channel_change_locks c @ (if presence then member_event_locks c others @ [Ask] else [])
           @ channel_query_locks c @ (if vacant then [Ask] else []))"

text \<open>
  The application, with the number of commands that go to Redis. \<open>AddChannel\<close> sets up the listener, which
  takes the second mutex and asks Redis, under its own lock; \<open>RemoveChannel\<close> has given the second mutex
  back before it takes the lock.
\<close>

definition app_query_locks :: "instr list" where
  "app_query_locks = locked AppLock ForReading [Work]"

definition app_change_locks :: "instr list" where
  "app_change_locks = locked AppLock ForWriting [Work]"

definition setup_pubsub_locks :: "bool \<Rightarrow> instr list" where
  "setup_pubsub_locks listening = locked SubscribersMutex ForWriting ([Work] @ (if listening then [] else [Ask, Work]))"

definition add_channel_locks :: "bool \<Rightarrow> bool \<Rightarrow> instr list" where
  "add_channel_locks redis listening =
     locked AppLock ForWriting ([Work] @ (if redis then setup_pubsub_locks listening else []) @ [Work])"

definition remove_channel_locks :: "bool \<Rightarrow> instr list" where
  "remove_channel_locks redis =
     (if redis then locked SubscribersMutex ForWriting [Work] else []) @ app_change_locks"

definition find_or_create_locks :: "bool \<Rightarrow> bool \<Rightarrow> bool \<Rightarrow> instr list" where
  "find_or_create_locks missing redis listening =
     app_query_locks @ (if missing then add_channel_locks redis listening else [])"

definition app_connect_locks :: "nat \<Rightarrow> instr list" where
  "app_connect_locks asks = replicate asks Ask @ app_change_locks"

definition app_subscribe_locks :: "nat \<Rightarrow> string \<Rightarrow> string \<Rightarrow> bool \<Rightarrow> bool \<Rightarrow> string list \<Rightarrow> bool \<Rightarrow> instr list" where
  "app_subscribe_locks asks c k presence decodes others sole =
     channel_subscribe_locks c k presence decodes others sole
     @ (if presence \<and> \<not> decodes then [] else replicate asks Ask)"

text \<open>The channel is asked twice whether it is occupied, and others may come and go in between.\<close>

definition app_unsubscribe_locks ::
  "nat \<Rightarrow> bool \<Rightarrow> string \<Rightarrow> bool \<Rightarrow> bool \<Rightarrow> string list \<Rightarrow> bool \<Rightarrow> bool \<Rightarrow> instr list" where
  "app_unsubscribe_locks asks redis c found presence others vacant removed =
     channel_unsubscribe_locks c found presence others vacant @
     (if \<not> found then []
      else replicate asks Ask @ channel_query_locks c @ (if removed then remove_channel_locks redis else []))"

text \<open>
  The loop of \<open>Disconnect\<close>: each channel, whether the connection is subscribed, whether it still is when
  \<open>Unsubscribe\<close> looks, and what that does.
\<close>

definition disconnect_locks ::
  "nat \<Rightarrow> bool \<Rightarrow> bool \<Rightarrow> (string \<times> bool \<times> bool \<times> bool \<times> string list \<times> bool \<times> bool) list \<Rightarrow> bool \<Rightarrow> instr list" where
  "disconnect_locks asks redis found chans exists =
     app_query_locks @
     (if \<not> found then []
      else concat (List.map (\<lambda>(c, subscribed, still, presence, others, vacant, removed). channel_query_locks c @
             (if subscribed then app_unsubscribe_locks asks redis c still presence others vacant removed else [])) chans)
           @ (if redis then [Ask] else []) @ app_change_locks @ (if exists then app_change_locks else []))"

definition app_publish_locks :: "nat \<Rightarrow> string \<Rightarrow> bool \<Rightarrow> string option list \<Rightarrow> instr list" where
  "app_publish_locks asks c client ks = channel_publish_locks c client ks @ replicate asks Ask"

text \<open>A message that a listener of Redis has received.\<close>

definition pubsub_locks :: "bool \<Rightarrow> nat \<Rightarrow> string \<Rightarrow> bool \<Rightarrow> string option list \<Rightarrow> instr list" where
  "pubsub_locks found asks c client ks =
     app_query_locks @ (if found then replicate asks Ask @ channel_publish_locks c client ks else [])"

text \<open>The storage: its two lookups, and \<open>AddApp\<close>.\<close>

definition find_app_locks :: "instr list" where
  "find_app_locks = locked StorageLock ForReading [Work]"

definition add_app_locks :: "instr list" where
  "add_app_locks = locked StorageLock ForWriting [Work]"

text \<open>The operations that sessions, requests and the listeners of Redis are sequences of.\<close>

datatype operation =
    Find_app
  | Add_app
  | Query_app
  | Find_or_create_channel bool bool bool
  | Query_channel string
  | App_connect nat
  | App_subscribe nat string string bool bool "string list" bool
  | App_unsubscribe nat bool string bool bool "string list" bool bool
  | App_disconnect nat bool bool "(string \<times> bool \<times> bool \<times> bool \<times> string list \<times> bool \<times> bool) list" bool
  | App_publish nat string bool "string option list"
  | Handle_pubsub bool nat string bool "string option list"
  | Send_frame string

fun locks_of :: "operation \<Rightarrow> instr list" where
  "locks_of Find_app = find_app_locks"
| "locks_of Add_app = add_app_locks"
| "locks_of Query_app = app_query_locks"
| "locks_of (Find_or_create_channel missing redis listening) = find_or_create_locks missing redis listening"
| "locks_of (Query_channel c) = channel_query_locks c"
| "locks_of (App_connect asks) = app_connect_locks asks"
| "locks_of (App_subscribe asks c k presence decodes others sole) = app_subscribe_locks asks c k presence decodes others sole"
| "locks_of (App_unsubscribe asks redis c found presence others vacant removed) =
     app_unsubscribe_locks asks redis c found presence others vacant removed"
| "locks_of (App_disconnect asks redis found chans exists) = disconnect_locks asks redis found chans exists"
| "locks_of (App_publish asks c client ks) = app_publish_locks asks c client ks"
| "locks_of (Handle_pubsub found asks c client ks) = pubsub_locks found asks c client ks"
| "locks_of (Send_frame k) = connection_publish_locks k"

definition goroutines :: "operation list list \<Rightarrow> thread list" where
  "goroutines opss = List.map (\<lambda>ops. \<lparr>holds = [], todo = concat (List.map locks_of ops), waits = False\<rparr>) opss"

section \<open>The discipline\<close>

text \<open>
  A lock is taken only while locks of a lower rank are held, the same lock never twice; only what is
  held is given back, and everything is given back in the end.
\<close>

fun rank :: "lock \<Rightarrow> nat" where
  "rank StorageLock = 0"
| "rank AppLock = 0"
| "rank SubscribersMutex = 1"
| "rank (ChannelLock c) = 0"
| "rank (ConnectionLock k) = 1"

fun disciplined :: "(lock \<times> mode) list \<Rightarrow> instr list \<Rightarrow> bool" where
  "disciplined hs [] \<longleftrightarrow> hs = []"
| "disciplined hs (Acquire l m # rest) \<longleftrightarrow> list_all (\<lambda>(l', m'). rank l' < rank l) hs \<and> disciplined ((l, m) # hs) rest"
| "disciplined hs (Release l m # rest) \<longleftrightarrow> (l, m) \<in> set hs \<and> disciplined (remove1 (l, m) hs) rest"
| "disciplined hs (Work # rest) \<longleftrightarrow> disciplined hs rest"
| "disciplined hs (Ask # rest) \<longleftrightarrow> disciplined hs rest"

text \<open>A piece of code that leaves what is held as it found it, when no lock of rank \<open>r\<close> or above is held.\<close>

definition neat :: "nat \<Rightarrow> instr list \<Rightarrow> bool" where
  "neat r is \<longleftrightarrow> (\<forall>hs rest. list_all (\<lambda>(l, m). rank l < r) hs \<longrightarrow> disciplined hs (is @ rest) = disciplined hs rest)"

lemma neat_simple [intro!]: "neat r []" "neat r is \<Longrightarrow> neat r (Work # is)" "neat r is \<Longrightarrow> neat r (Ask # is)"
  by (simp_all add: neat_def)

lemma neat_append [intro!]: "neat r xs \<Longrightarrow> neat r ys \<Longrightarrow> neat r (xs @ ys)"
  by (simp add: neat_def)

lemma neat_concat [intro!]: "(\<And>x. x \<in> set xs \<Longrightarrow> neat r (f x)) \<Longrightarrow> neat r (concat (List.map f xs))"
  by (induction xs) (auto intro: neat_append)

lemma neat_locked: "neat (Suc (rank l)) body \<Longrightarrow> r \<le> rank l \<Longrightarrow> neat r (locked l m body)"
  unfolding neat_def locked_def
proof (intro allI impI)
  fix hs :: "(lock \<times> mode) list" and rest
  assume body: "\<forall>hs rest. list_all (\<lambda>(l', m). rank l' < Suc (rank l)) hs \<longrightarrow> disciplined hs (body @ rest) = disciplined hs rest"
    and r: "r \<le> rank l" and hs: "list_all (\<lambda>(l, m). rank l < r) hs"
  have "list_all (\<lambda>(l', m'). rank l' < rank l) hs" "list_all (\<lambda>(l', m). rank l' < Suc (rank l)) ((l, m) # hs)"
    using hs r by (auto simp: list_all_iff)
  then show "disciplined hs ((Acquire l m # body @ [Release l m]) @ rest) = disciplined hs rest" using body by simp
qed

lemma neat_asks [intro!]: "neat r (replicate n Ask)"
  by (induction n) auto

lemma neat_pieces [intro!]:
  "r \<le> 1 \<Longrightarrow> neat r (connection_publish_locks k)"
  "neat 0 (channel_query_locks c)" "neat 0 (channel_change_locks c)" "neat 0 (member_event_locks c ks)"
  "neat 0 (channel_publish_locks c client ksk)" "neat 0 app_query_locks" "neat 0 app_change_locks"
  "r \<le> 1 \<Longrightarrow> neat r (setup_pubsub_locks listening)" "neat 0 (add_channel_locks redis listening)" "neat 0 (remove_channel_locks redis)"
proof -
  show c: "r \<le> 1 \<Longrightarrow> neat r (connection_publish_locks k)" for r k
    unfolding connection_publish_locks_def by (intro neat_locked neat_simple) simp
  show "neat 0 (member_event_locks c ks)" unfolding member_event_locks_def by (intro neat_locked neat_concat c) simp_all
  show "neat 0 (channel_publish_locks c client ksk)" unfolding channel_publish_locks_def
    by (intro neat_locked neat_concat) (auto intro: c split: option.split)
  show s: "r \<le> 1 \<Longrightarrow> neat r (setup_pubsub_locks listening)" for r listening
    unfolding setup_pubsub_locks_def by (intro neat_locked) auto
  show "neat 0 (add_channel_locks redis listening)" unfolding add_channel_locks_def
    by (intro neat_locked neat_append) (auto intro: s)
  show "neat 0 (remove_channel_locks redis)" unfolding remove_channel_locks_def app_change_locks_def
    by (intro neat_append neat_locked neat_simple) (auto intro!: neat_locked neat_simple)
qed (auto simp: channel_query_locks_def channel_change_locks_def app_query_locks_def app_change_locks_def intro!: neat_locked)

lemma neat_functions [intro!]:
  "neat 0 (find_or_create_locks missing redis listening)" "neat 0 (app_connect_locks asks)"
  "neat 0 (app_subscribe_locks asks c k presence decodes others sole)"
  "neat 0 (app_unsubscribe_locks asks redis c found presence others vacant removed)"
  "neat 0 (disconnect_locks asks redis found chans exists)" "neat 0 (app_publish_locks asks c client ks)"
  "neat 0 (pubsub_locks found asks c client ks)"
proof -
  show "neat 0 (find_or_create_locks missing redis listening)" by (auto simp: find_or_create_locks_def)
  show "neat 0 (app_subscribe_locks asks c k presence decodes others sole)"
    by (auto simp: app_subscribe_locks_def channel_subscribe_locks_def)
  show a: "neat 0 (app_unsubscribe_locks asks redis c found presence others vacant removed)" for c found presence others vacant removed
    by (auto simp: app_unsubscribe_locks_def channel_unsubscribe_locks_def)
  show "neat 0 (disconnect_locks asks redis found chans exists)" using a by (auto simp: disconnect_locks_def)
qed (auto simp: app_connect_locks_def app_publish_locks_def pubsub_locks_def)

lemma neat_locks_of: "neat 0 (locks_of op)"
  by (cases op) (auto simp: find_app_locks_def add_app_locks_def intro: neat_locked)

lemma neat_alone: "neat r is \<Longrightarrow> disciplined [] is"
  unfolding neat_def by (drule spec [of _ "[]"], drule spec [of _ "[]"], simp)

lemma disciplined_goroutines: "t \<in> set (goroutines opss) \<Longrightarrow> disciplined (holds t) (todo t)"
  by (auto simp: goroutines_def intro!: neat_alone [of 0] neat_locks_of)

section \<open>Runs\<close>

text \<open>What holds throughout: the discipline, and that nobody else holds a lock somebody writes under.\<close>

definition well_locked :: "thread list \<Rightarrow> bool" where
  "well_locked ts \<longleftrightarrow> (\<forall>t \<in> set ts. disciplined (holds t) (todo t))"

definition exclusive :: "thread list \<Rightarrow> bool" where
  "exclusive ts \<longleftrightarrow> (\<forall>i < length ts. \<forall>j < length ts. \<forall>l m. i \<noteq> j \<longrightarrow> (l, ForWriting) \<in> set (holds (ts ! i))
     \<longrightarrow> (l, m) \<notin> set (holds (ts ! j)))"

text \<open>A step replaces one thread; what it then holds it held before, or it was free to take.\<close>

lemma try_step_cases:
  assumes "try_step stalled i ts = Some ts'" "well_locked ts"
  obtains t' where "i < length ts" "ts' = ts[i := t']" "disciplined (holds t') (todo t')"
    "2 * length (todo t') + (if waits t' then 0 else 1) < 2 * length (todo (ts ! i)) + (if waits (ts ! i) then 0 else (1 :: nat))"
    "\<And>l m. (l, m) \<in> set (holds t') \<Longrightarrow> (l, m) \<in> set (holds (ts ! i)) \<or> free_for ts l m"
proof -
  have i: "i < length ts" using assms(1) by (auto simp: try_step_def split: if_splits)
  then have d: "disciplined (holds (ts ! i)) (todo (ts ! i))" using assms(2) by (simp add: well_locked_def)
  have sub: "(l, m) \<in> set (remove1 x hs) \<Longrightarrow> (l, m) \<in> set hs" for l m x and hs :: "(lock \<times> mode) list"
    using set_remove1_subset by fastforce
  show thesis
  proof (cases "todo (ts ! i)")
    case Nil
    then show thesis using assms(1) i by (simp add: try_step_def)
  next
    case (Cons ins rest)
    then show thesis
      using assms(1) i d by (cases ins) (auto simp: try_step_def Let_def split: if_splits intro!: that dest: sub)
  qed
qed

text \<open>Nobody comes to hold a lock that another thread holds, unless both read under it.\<close>

lemma try_step_apart:
  assumes x: "exclusive ts" and i: "i < length ts"
    and held: "\<And>l m. (l, m) \<in> set (holds t') \<Longrightarrow> (l, m) \<in> set (holds (ts ! i)) \<or> free_for ts l m"
    and j: "j < length ts" "j \<noteq> i" "(l, m) \<in> set (holds (ts ! j))" "m = ForWriting \<or> m' = ForWriting"
  shows "(l, m') \<notin> set (holds t')"
proof
  assume "(l, m') \<in> set (holds t')"
  then consider "(l, m') \<in> set (holds (ts ! i))" | "free_for ts l m'" using held by blast
  then show False
  proof cases
    case 1
    then show False using x i j unfolding exclusive_def by metis
  next
    case 2
    have "ts ! j \<in> set ts" using j(1) by simp
    then show False using 2 j(3,4) by (cases m') (auto simp: list_all_iff, force)
  qed
qed

lemma exclusive_update:
  assumes x: "exclusive ts" and i: "i < length ts"
    and apart: "\<And>j l m m'. j < length ts \<Longrightarrow> j \<noteq> i \<Longrightarrow> (l, m) \<in> set (holds (ts ! j)) \<Longrightarrow> m = ForWriting \<or> m' = ForWriting
      \<Longrightarrow> (l, m') \<notin> set (holds t')"
  shows "exclusive (ts[i := t'])"
  unfolding exclusive_def
proof (intro allI impI)
  fix p q l m
  assume a: "p < length (ts[i := t'])" "q < length (ts[i := t'])" "p \<noteq> q" "(l, ForWriting) \<in> set (holds (ts[i := t'] ! p))"
  have len: "p < length ts" "q < length ts" using a(1,2) by simp_all
  consider "p = i" "q \<noteq> i" | "p \<noteq> i" "q = i" | "p \<noteq> i" "q \<noteq> i" using a(3) by blast
  then show "(l, m) \<notin> set (holds (ts[i := t'] ! q))"
  proof cases
    case 1
    then show ?thesis using apart [OF len(2), of l m ForWriting] a(4) i by auto
  next
    case 2
    then show ?thesis using apart [OF len(1), of l ForWriting m] a(4) i by auto
  next
    case 3
    then show ?thesis using x a(3,4) len unfolding exclusive_def by auto
  qed
qed

lemma try_step_safe:
  assumes step: "try_step stalled i ts = Some ts'" and w: "well_locked ts" and x: "exclusive ts"
  shows "well_locked ts' \<and> exclusive ts'"
proof -
  obtain t' where t': "i < length ts" "ts' = ts[i := t']" "disciplined (holds t') (todo t')"
    and held: "\<And>l m. (l, m) \<in> set (holds t') \<Longrightarrow> (l, m) \<in> set (holds (ts ! i)) \<or> free_for ts l m"
    by (rule try_step_cases [OF step w]) blast
  have "well_locked ts'"
    using w t' set_update_subset_insert [of ts i t'] by (auto simp: well_locked_def)
  moreover have "exclusive ts'"
    unfolding t'(2) by (rule exclusive_update [OF x t'(1)]) (rule try_step_apart [OF x t'(1) held])
  ultimately show ?thesis by blast
qed

text \<open>Somebody can go on: of those that wait, one waits for a lock of the highest rank.\<close>

lemma blocked_holder:
  assumes stuck: "\<And>i. try_step [] i ts = None" and w: "well_locked ts" and t: "t \<in> set ts" "todo t \<noteq> []"
  obtains l m rest t' where "todo t = Acquire l m # rest" "t' \<in> set ts" "l \<in> fst ` set (holds t')"
proof -
  have acquire: "\<exists>l m rest. todo u = Acquire l m # rest \<and> \<not> free_for ts l m \<and> (m = ForWriting \<longrightarrow> waits u)"
    if "u \<in> set ts" "todo u \<noteq> []" for u
  proof -
    obtain i where i: "i < length ts" "ts ! i = u" using \<open>u \<in> set ts\<close> by (auto simp: in_set_conv_nth)
    obtain ins rest where c: "todo u = ins # rest" using \<open>todo u \<noteq> []\<close> by (cases "todo u") auto
    show ?thesis using stuck [of i] i c by (cases ins) (auto simp: try_step_def Let_def split: if_splits)
  qed
  obtain l m rest where a: "todo t = Acquire l m # rest" "\<not> free_for ts l m" using acquire [OF t] by blast
  have "\<exists>t' \<in> set ts. l \<in> fst ` set (holds t')"
  proof (cases "\<exists>u \<in> set ts. awaits u l")
    case True
    then obtain u where u: "u \<in> set ts" "awaits u l" by blast
    then obtain rest' where "todo u = Acquire l ForWriting # rest'"
      by (auto simp: awaits_def split: list.splits instr.splits mode.splits)
    then have "\<not> free_for ts l ForWriting" using acquire [OF u(1)] by simp
    then show ?thesis by (auto simp: list_all_iff)
  next
    case False
    then show ?thesis using a(2) by (cases m) (force simp: list_all_iff)+
  qed
  then show thesis using that a(1) by blast
qed

lemma nobody_stuck:
  assumes w: "well_locked ts" and unfinished: "t \<in> set ts" "todo t \<noteq> []"
  shows "\<exists>i. try_step [] i ts \<noteq> None"
proof (rule ccontr)
  assume "\<not> ?thesis"
  then have stuck: "\<And>i. try_step [] i ts = None" by simp
  have next_rank: "\<exists>l' m' rest' t''. todo t' = Acquire l' m' # rest' \<and> rank l < rank l' \<and> t'' \<in> set ts \<and> l' \<in> fst ` set (holds t'')"
    if t': "t' \<in> set ts" "l \<in> fst ` set (holds t')" for t' l
  proof -
    have d: "disciplined (holds t') (todo t')" using w t'(1) by (simp add: well_locked_def)
    then have "todo t' \<noteq> []" using t'(2) by auto
    then obtain l' m' rest' t'' where a: "todo t' = Acquire l' m' # rest'" "t'' \<in> set ts" "l' \<in> fst ` set (holds t'')"
      using blocked_holder [OF stuck w t'(1)] by metis
    then have "rank l < rank l'" using d t'(2) by (auto simp: list_all_iff)
    with a show ?thesis by blast
  qed
  obtain l m rest t1 where "t1 \<in> set ts" "l \<in> fst ` set (holds t1)" using blocked_holder [OF stuck w unfinished] by metis
  then obtain l' t2 where 2: "t2 \<in> set ts" "l' \<in> fst ` set (holds t2)" "rank l < rank l'" using next_rank by blast
  then obtain l'' where "rank l' < rank l''" using next_rank by blast
  then have "1 < rank l''" using 2(3) by simp
  then show False by (cases l'') simp_all
qed

text \<open>How many steps are left: two for each instruction, one more for a writer that has not announced itself.\<close>

definition steps_left :: "thread list \<Rightarrow> nat" where
  "steps_left ts = sum_list (List.map (\<lambda>t. 2 * length (todo t) + (if waits t then 0 else 1)) ts)"

lemma sum_list_update_less: "i < length xs \<Longrightarrow> y < xs ! i \<Longrightarrow> sum_list (xs[i := y]) < sum_list (xs :: nat list)"
proof (induction xs arbitrary: i)
  case (Cons x xs)
  then show ?case by (cases i) auto
qed simp

lemma try_step_less:
  assumes "try_step stalled i ts = Some ts'" "well_locked ts"
  shows "steps_left ts' < steps_left ts"
  by (rule try_step_cases [OF assms])
     (simp add: steps_left_def map_update sum_list_update_less)

lemma run_safe:
  assumes "run_threads stalled sched ts = Some ts'" "well_locked ts" "exclusive ts"
  shows "well_locked ts' \<and> exclusive ts' \<and> length sched + steps_left ts' \<le> steps_left ts"
  using assms
proof (induction sched arbitrary: ts)
  case (Cons i sched)
  then obtain ts1 where 1: "try_step stalled i ts = Some ts1" "run_threads stalled sched ts1 = Some ts'" by (auto split: option.splits)
  then show ?case
    using Cons.IH [OF 1(2)] try_step_safe [OF 1(1) Cons.prems(2,3)] try_step_less [OF 1(1) Cons.prems(2)] by simp
qed simp

text \<open>
  Claim C10: the locks are in order. Whatever operations any number of goroutines run and however they
  are scheduled, no two ever hold a lock together unless both read under it, no goroutine is through
  with a lock still held, somebody can always go on until all are through, and they all are after a bounded number of
  steps, provided that Redis, the sockets and the web hook endpoint answer.
\<close>

theorem no_deadlock:
  assumes "run_threads [] sched (goroutines opss) = Some ts"
  shows "exclusive ts \<and> (\<forall>t \<in> set ts. todo t = [] \<longrightarrow> holds t = [])
    \<and> ((\<forall>t \<in> set ts. todo t = []) \<or> (\<exists>i. try_step [] i ts \<noteq> None))
    \<and> length sched \<le> sum_list (List.map (\<lambda>ops. 2 * length (concat (List.map locks_of ops)) + 1) opss)"
proof -
  have "well_locked (goroutines opss)" "exclusive (goroutines opss)"
    using disciplined_goroutines by (auto simp: well_locked_def exclusive_def goroutines_def)
  note r = run_safe [OF assms this]
  have "steps_left (goroutines opss) = sum_list (List.map (\<lambda>ops. 2 * length (concat (List.map locks_of ops)) + 1) opss)"
    by (simp add: steps_left_def goroutines_def comp_def)
  moreover have "\<forall>t \<in> set ts. todo t = [] \<longrightarrow> holds t = []" using r by (fastforce simp: well_locked_def)
  ultimately show ?thesis using r nobody_stuck [of ts] by fastforce
qed

text \<open>A channel is created while another goroutine looks a channel up.\<close>

definition demo_lock_users :: "thread list" where
  "demo_lock_users = goroutines [[Find_or_create_channel True True False], [Query_app]]"

theorem no_deadlock_witness:
  "\<exists>ts. run_threads [] [0, 0, 0, 1, 1, 0, 1, 0, 0] demo_lock_users = Some ts \<and> exclusive ts \<and> (\<exists>i. try_step [] i ts \<noteq> None)"
proof -
  let ?run = "run_threads [] [0, 0, 0, 1, 1, 0, 1, 0, 0] demo_lock_users"
  have "case ?run of None \<Rightarrow> False | Some ts \<Rightarrow> list_ex (\<lambda>t. todo t \<noteq> []) ts" by code_simp
  then obtain ts where r: "?run = Some ts" "list_ex (\<lambda>t. todo t \<noteq> []) ts" by (cases ?run) simp_all
  then show ?thesis using no_deadlock [OF r(1) [unfolded demo_lock_users_def]] by (auto simp: list_ex_iff simp del: run_threads.simps)
qed

text \<open>
  The last condition is needed: \<open>AddChannel\<close> asks Redis with the application's lock held, so where Redis
  does not answer one goroutine that creates a channel, no other can even look up a connection.
\<close>

lemma stalled_redis_blocks:
  "\<exists>ts. run_threads [0] [0, 0, 0, 0, 0, 0, 0] demo_lock_users = Some ts \<and> todo (ts ! 1) \<noteq> [] \<and> (\<forall>i. try_step [0] i ts = None)"
proof -
  let ?run = "run_threads [0] [0, 0, 0, 0, 0, 0, 0] demo_lock_users"
  have "case ?run of None \<Rightarrow> False | Some ts \<Rightarrow>
      length ts = 2 \<and> todo (ts ! 1) \<noteq> [] \<and> try_step [0] 0 ts = None \<and> try_step [0] 1 ts = None" by code_simp
  then obtain ts where ts: "?run = Some ts" "length ts = 2" "todo (ts ! 1) \<noteq> []"
    "try_step [0] 0 ts = None" "try_step [0] 1 ts = None" by (cases ?run) simp_all
  have "try_step [0] i ts = None" for i
    by (cases "i = 0 \<or> i = 1") (use ts in \<open>auto simp: try_step_def\<close>)
  with ts show ?thesis by auto
qed

end
