(* ===== verification/Listeners.thy ===== *)
theory Listeners
  imports App_Spec
begin

text \<open>
  The goroutines that \<open>setupChannelPubSub\<close> starts, one for each time a channel is created; \<open>RemoveChannel\<close>
  forgets the channel's entry in \<open>channelSubscribers\<close> but ends none of them, and none has another way
  to end. So they are counted by the history of creations, and a channel that comes and goes has ever
  more of them.
\<close>

section \<open>Who starts and ends a listener\<close>

text \<open>The configuration of an application and its listeners, which most operations leave alone.\<close>

definition wiring :: "application \<Rightarrow> string \<times> redis_client option \<times> string list" where
  "wiring a = (AppID a, redisClient a, pubsubListeners a)"

lemma wiring_simps [simp]:
  "wiring (store_channel c a) = wiring a" "wiring (RemoveChannel c a) = wiring a"
  "wiring (stats_Add n d a) = wiring a" "wiring (a\<lparr>connections := x\<rparr>) = wiring a"
  by (simp_all add: wiring_def)

lemma wiring_Subscribe [simp]: "wiring (fst (snd (app_Subscribe E c conn data a tr))) = wiring a"
  by (simp add: app_Subscribe_app)

lemma wiring_Unsubscribe [simp]: "wiring (fst (snd (app_Unsubscribe E c conn a tr))) = wiring a"
  by (simp add: app_Unsubscribe_app [OF refl])

lemma wiring_Publish [simp]: "wiring (fst (snd (app_Publish E c event ignore a tr))) = wiring a"
  by (simp add: app_Publish_app)

lemma wiring_disconnect_fold: "wiring (fst (fold (disconnect_step E conn) ks s)) = wiring (fst s)"
  by (induction ks arbitrary: s) (auto simp: disconnect_step_def split: option.split)

lemma wiring_Disconnect [simp]: "app_wf a \<Longrightarrow> wiring (fst (app_Disconnect E sid a tr)) = wiring a"
proof (cases "map_of (connections a) sid")
  case None
  then show ?thesis by (simp add: app_Disconnect_def FindConnection_def)
next
  case (Some conn)
  assume "app_wf a"
  then show ?thesis by (simp add: app_Disconnect_app [OF Some _ refl] wiring_disconnect_fold)
qed

lemma wiring_Connect [simp]: "wiring (fst (app_Connect E conn a tr)) = wiring a"
  by (simp add: app_Connect_def Let_def)

text \<open>Redis accepts every \<open>SUBSCRIBE\<close>.\<close>

definition subscribes :: "env \<Rightarrow> bool" where
  "subscribes E \<longleftrightarrow> (\<forall>tr topic. succeeded (E tr (RedisSubscribe topic)))"

lemma wiring_FindOrCreate:
  assumes wf: "app_wf a" and rc: "redisClient a = Some rc" and ok: "subscribes E"
    and r: "FindOrCreateChannelByChannelID E n a tr = (c, a', tr')"
  shows "wiring a' = (AppID a, Some rc, (if roster a n = None then [n] else []) @ pubsubListeners a)"
proof (cases "map_of (channels a) n")
  case None
  then have new: "n \<notin> set (channelSubscribers a)"
    using wf by (auto simp: app_wf_defs map_of_None_keys)
  obtain tr1 where ch: "channel_New E n (app_options E a) tr = (c, tr1)" and add: "AddChannel E c a tr1 = (a', tr')"
    using r None by (auto simp: FindOrCreateChannelByChannelID_def FindChannelByChannelID_def split: prod.splits)
  have "chan_ID c = n" by (rule new_app_channel(1) [OF ch])
  moreover have "fst (SubscribeToChannelEvents E rc appID n tr1) = None" for appID
    using ok by (simp add: subscribes_def SubscribeToChannelEvents_def invoke_def Let_def)
  ultimately have "AppID a' = AppID a \<and> redisClient a' = Some rc \<and> pubsubListeners a' = n # pubsubListeners a"
    using add rc new by (auto simp: AddChannel_def setupChannelPubSub_def Let_def split: prod.splits option.splits) (metis fst_conv option.distinct(1))
  then show ?thesis using None by (simp add: wiring_def roster_def)
next
  case (Some c0)
  then show ?thesis using r rc by (simp add: FindOrCreate_found wiring_def roster_def)
qed

section \<open>Counting creations\<close>

definition creates :: "env \<Rightarrow> string \<Rightarrow> app_op \<Rightarrow> application \<times> trace \<Rightarrow> bool" where
  "creates E cid op s \<longleftrightarrow> roster (fst s) cid = None \<and> roster (fst (run_op E op s)) cid \<noteq> None"

fun creations :: "env \<Rightarrow> string \<Rightarrow> app_op list \<Rightarrow> application \<times> trace \<Rightarrow> nat" where
  "creations E cid [] s = 0"
| "creations E cid (op # ops) s = (if creates E cid op s then 1 else 0) + creations E cid ops (run_op E op s)"

lemma run_op_listeners:
  assumes wf: "app_wf a" and rc: "redisClient a = Some rc" and ok: "subscribes E"
  shows "redisClient (fst (run_op E op (a, tr))) = Some rc
    \<and> count_list (pubsubListeners (fst (run_op E op (a, tr)))) cid
      = count_list (pubsubListeners a) cid + (if creates E cid op (a, tr) then 1 else 0)"
proof -
  have same: ?thesis if "wiring (fst (run_op E op (a, tr))) = wiring a" "\<not> creates E cid op (a, tr)"
    using that rc by (simp add: wiring_def)
  have found: ?thesis if "roster (fst (run_op E op (a, tr))) = roster a" "wiring (fst (run_op E op (a, tr))) = wiring a"
    using that by (intro same) (simp_all only: creates_def fst_conv, blast)
  show ?thesis
  proof (cases op)
    case (OpConnect conn)
    then show ?thesis using roster_run_others(1) [of E conn a tr] by (intro found) simp_all
  next
    case (OpSubscribe n sid data)
    show ?thesis
    proof (cases "FindConnection a sid")
      case (Inl e)
      then show ?thesis using OpSubscribe by (intro found) simp_all
    next
      case (Inr conn)
      then have "sid \<in> live a" by (auto simp: FindConnection_def live_def dest: map_of_some_keys split: option.splits)
      then have cr: "creates E cid op (a, tr) \<longleftrightarrow> roster a cid = None \<and> n = cid"
        using roster_run_subscribe [OF wf, of E n sid data tr] by (auto simp: creates_def OpSubscribe simp del: run_op.simps)
      obtain c a1 tr1 where ch: "FindOrCreateChannelByChannelID E n a tr = (c, a1, tr1)" by (rule prod_cases3)
      have "wiring (fst (run_op E op (a, tr))) = wiring a1" using OpSubscribe Inr ch by simp
      with wiring_FindOrCreate [OF wf rc ok ch] show ?thesis unfolding cr by (auto simp: wiring_def)
    qed
  next
    case (OpUnsubscribe n sid)
    have "wiring (fst (run_op E op (a, tr))) = wiring a" using OpUnsubscribe by (simp split: sum.split)
    moreover have "\<not> creates E cid op (a, tr)"
      using roster_run_unsubscribe [OF wf, of E n sid tr]
      by (cases "roster a n") (auto simp: creates_def OpUnsubscribe leave_def simp del: run_op.simps)
    ultimately show ?thesis by (rule same)
  next
    case (OpDisconnect sid)
    then show ?thesis using wf by (intro same; cases "roster a cid") (auto simp: creates_def roster_Disconnect leave_def)
  next
    case (OpClientEvent n event sid)
    then show ?thesis using roster_run_others(2) [of E n event sid a tr] by (intro found) (simp_all split: sum.split)
  next
    case (OpPost n event ignore)
    have cr: "creates E cid op (a, tr) \<longleftrightarrow> roster a cid = None \<and> n = cid"
      using roster_run_post [of E n event ignore a tr] by (auto simp: creates_def OpPost simp del: run_op.simps)
    obtain c a1 tr1 where ch: "FindOrCreateChannelByChannelID E n a tr = (c, a1, tr1)" by (rule prod_cases3)
    have "wiring (fst (run_op E op (a, tr))) = wiring a1" using OpPost ch by simp
    with wiring_FindOrCreate [OF wf rc ok ch] show ?thesis unfolding cr by (auto simp: wiring_def)
  qed
qed

lemma run_listeners_count:
  assumes "app_wf a" "redisClient a = Some rc" "subscribes E" "legal (List.map op_kind ops) (hub_of a)"
  shows "redisClient (fst (fold (run_op E) ops (a, tr))) = Some rc
    \<and> count_list (pubsubListeners (fst (fold (run_op E) ops (a, tr)))) cid
      = count_list (pubsubListeners a) cid + creations E cid ops (a, tr)"
  using assms
proof (induction ops arbitrary: a tr)
  case (Cons op ops)
  obtain a1 tr1 where r: "run_op E op (a, tr) = (a1, tr1)" by fastforce
  have al: "allowed (op_kind op) (hub_of a)" using Cons.prems(4) by simp
  have n: "app_wf a1" "hub_of a1 = hub_run (op_kind op) (hub_of a)"
    using run_op_refines [OF Cons.prems(1) al, of E tr] r by simp_all
  have l: "redisClient a1 = Some rc" "count_list (pubsubListeners a1) cid
      = count_list (pubsubListeners a) cid + (if creates E cid op (a, tr) then 1 else 0)"
    using run_op_listeners [OF Cons.prems(1-3), of op tr cid] r by simp_all
  have "legal (List.map op_kind ops) (hub_of a1)" using Cons.prems(4) n(2) by simp
  from Cons.IH [OF n(1) l(1) Cons.prems(3) this, of tr1] show ?case using l r by simp
qed simp

text \<open>
  Claim C22: while Redis accepts subscriptions, an application runs one listener for a channel for
  each time the channel was created, also for the times that are over: nothing ends a listener. A
  channel that its last subscriber left and another one joined has two, and so on without bound.
\<close>

theorem listeners_count_creations:
  assumes "app_wf a" "redisClient a = Some rc" "subscribes E" "legal (List.map op_kind ops) (hub_of a)"
  shows "count_list (pubsubListeners (fst (fold (run_op E) ops (a, tr)))) cid
    = count_list (pubsubListeners a) cid + creations E cid ops (a, tr)"
  using run_listeners_count [OF assms] by simp

text \<open>A client that joins and leaves \<open>n\<close> times.\<close>

fun join_leave :: "nat \<Rightarrow> app_op list" where
  "join_leave 0 = []"
| "join_leave (Suc n) = OpSubscribe ''a'' ''1.1'' [] # OpUnsubscribe ''a'' ''1.1'' # join_leave n"

lemma join_leave_legal: "legal (List.map op_kind (join_leave n)) h"
  by (induction n arbitrary: h) simp_all

lemma join_leave_creations:
  assumes "app_wf a" "live a = {''1.1''}" "roster a ''a'' = None"
  shows "creations E ''a'' (join_leave n) (a, tr) = n"
  using assms
proof (induction n arbitrary: a tr)
  case (Suc n)
  obtain a1 tr1 where 1: "run_op E (OpSubscribe ''a'' ''1.1'' []) (a, tr) = (a1, tr1)" by fastforce
  obtain a2 tr2 where 2: "run_op E (OpUnsubscribe ''a'' ''1.1'') (a1, tr1) = (a2, tr2)" by fastforce
  have w1: "app_wf a1" "hub_of a1 = hub_run (HJoin ''a'' ''1.1'') (hub_of a)"
    using run_op_refines [OF Suc.prems(1), of "OpSubscribe ''a'' ''1.1'' []" E tr] 1 by simp_all
  have w2: "app_wf a2" "hub_of a2 = hub_run (HLeave ''a'' ''1.1'') (hub_of a1)"
    using run_op_refines [OF w1(1), of "OpUnsubscribe ''a'' ''1.1''" E tr1] 2 by simp_all
  have "who (hub_of a2) = who (hub_of a)" by (simp add: w1(2) w2(2))
  then have l2: "live a2 = {''1.1''}"
    using Suc.prems(2) hub_of_live [of _ a2] hub_of_live [of _ a] by (auto simp: is_live_def simp del: hub_of_live)
  have r1: "roster a1 ''a'' = Some {''1.1''}"
    using roster_run_subscribe [OF Suc.prems(1), of E "''a''" "''1.1''" "[]" tr] Suc.prems(2,3) 1 by simp
  have r2: "roster a2 ''a'' = None"
    using roster_run_unsubscribe [OF w1(1), of E "''a''" "''1.1''" tr1] 2 r1 by (simp add: leave_def)
  show ?case
    using Suc.IH [OF w2(1) l2 r2, of tr2] Suc.prems(3) r1 r2
    by (simp add: creates_def 1 2 del: run_op.simps)
qed simp

definition joined_app :: "application \<times> trace" where
  "joined_app = run_op demo_env (OpConnect (demo_conn ''1.1'' 1)) (fresh_app False [] (Some \<lparr>instanceID = ''i1'', isCluster = False\<rparr>), [])"

lemma joined_app_ok:
  "app_wf (fst joined_app)" "live (fst joined_app) = {''1.1''}" "roster (fst joined_app) cid = None"
  "redisClient (fst joined_app) = Some \<lparr>instanceID = ''i1'', isCluster = False\<rparr>" "pubsubListeners (fst joined_app) = []"
proof -
  let ?a = "fresh_app False [] (Some \<lparr>instanceID = ''i1'', isCluster = False\<rparr>)"
  have f: "fresh_connection (demo_conn ''1.1'' 1) ?a" by (simp add: fresh_connection_def live_def empty_application_def)
  show "app_wf (fst joined_app)"
    unfolding joined_app_def run_op.simps by (rule app_Connect_wf [OF app_wf_empty f])
  show "live (fst joined_app) = {''1.1''}" "roster (fst joined_app) cid = None"
    by (simp_all add: joined_app_def app_Connect_rel live_def roster_def app_Connect_fields empty_application_def demo_conn_def)
  have "wiring (fst joined_app) = wiring ?a" by (simp add: joined_app_def)
  then show "redisClient (fst joined_app) = Some \<lparr>instanceID = ''i1'', isCluster = False\<rparr>" "pubsubListeners (fst joined_app) = []"
    by (simp_all add: wiring_def empty_application_def)
qed

theorem listeners_count_creations_witness:
  "count_list (pubsubListeners (fst (fold (run_op demo_env) (join_leave 1000) joined_app))) ''a'' = 1000"
proof -
  have "subscribes demo_env" by (simp add: subscribes_def demo_env_def succeeded_def)
  from listeners_count_creations [OF joined_app_ok(1,4) this join_leave_legal, of 1000 "snd joined_app" "''a''"]
  show ?thesis using join_leave_creations [OF joined_app_ok(1-3), of demo_env 1000 "snd joined_app"] by (simp add: joined_app_ok(5))
qed

end
