(* ===== verification/Redis_View.thy ===== *)
theory Redis_View
  imports App_Hooks Listeners Registry
begin

text \<open>
  What the operations of \<open>src/app/app.go\<close> leave in Redis: the set of subscribers of a channel and the
  hash of its presence data. The other instances decide by the set whether to publish an event to
  Redis, so it has to be what this instance's own channels say.
\<close>

section \<open>Members of sets and fields of hashes, read off the calls\<close>

primrec entries :: "trace \<Rightarrow> (string \<times> string) set" where
  "entries [] = {}"
| "entries (x # tr) =
     (if \<not> succeeded (snd x) then entries tr
      else (case fst x of
          RedisSAdd k m \<Rightarrow> insert (k, m) (entries tr)
        | RedisHSet k m v \<Rightarrow> insert (k, m) (entries tr)
        | RedisSRem k m \<Rightarrow> entries tr - {(k, m)}
        | RedisHDel k m \<Rightarrow> entries tr - {(k, m)}
        | RedisDel k \<Rightarrow> {(k', m) \<in> entries tr. k' \<noteq> k}
        | _ \<Rightarrow> entries tr))"

text \<open>The value of a key that was set for a day at least, while nobody has touched the key since.\<close>

primrec lasting :: "trace \<Rightarrow> string \<Rightarrow> string option" where
  "lasting [] k = None"
| "lasting (x # tr) k =
     (case fst x of
        RedisSet k' v ttl \<Rightarrow> if k' = k then (if succeeded (snd x) \<and> day_seconds \<le> ttl then Some v else None) else lasting tr k
      | RedisDel k' \<Rightarrow> if k' = k then None else lasting tr k
      | RedisExpire k' ttl \<Rightarrow> if k' = k then None else lasting tr k
      | _ \<Rightarrow> lasting tr k)"

text \<open>All that the trace says of Redis.\<close>

definition redis_view :: "trace \<Rightarrow> (string \<times> string) set \<times> (string \<Rightarrow> string option)" where
  "redis_view tr = (entries tr, lasting tr)"

definition redis_accepts :: "env \<Rightarrow> bool" where
  "redis_accepts E \<longleftrightarrow> (\<forall>tr k m v ttl. succeeded (E tr (RedisSAdd k m)) \<and> succeeded (E tr (RedisSRem k m))
     \<and> succeeded (E tr (RedisHSet k m v)) \<and> succeeded (E tr (RedisHDel k m)) \<and> succeeded (E tr (RedisSet k v ttl)))"

fun neutral :: "call \<Rightarrow> bool" where
  "neutral (RedisSAdd k m) \<longleftrightarrow> False"
| "neutral (RedisHSet k m v) \<longleftrightarrow> False"
| "neutral (RedisSRem k m) \<longleftrightarrow> False"
| "neutral (RedisHDel k m) \<longleftrightarrow> False"
| "neutral (RedisDel k) \<longleftrightarrow> False"
| "neutral (RedisSet k v ttl) \<longleftrightarrow> False"
| "neutral (RedisExpire k ttl) \<longleftrightarrow> False"
| "neutral c \<longleftrightarrow> True"

lemma view_neutral [simp]: "neutral c \<Longrightarrow> redis_view ((c, r) # tr) = redis_view tr"
  by (cases c) (auto simp: redis_view_def fun_eq_iff)

lemma view_entries: "redis_view tr' = redis_view tr \<Longrightarrow> entries tr' = entries tr"
  by (simp add: redis_view_def)

lemma view_lasting: "redis_view tr' = redis_view tr \<Longrightarrow> lasting tr' = lasting tr"
  by (simp add: redis_view_def)

lemma entries_neutral [simp]: "neutral c \<Longrightarrow> entries ((c, r) # tr) = entries tr"
  by (rule view_entries) simp

lemma lasting_neutral [simp]: "neutral c \<Longrightarrow> lasting ((c, r) # tr) = lasting tr"
  by (rule view_lasting) simp

lemma entries_changes [simp]:
  "succeeded r \<Longrightarrow> entries ((RedisSAdd k m, r) # tr) = insert (k, m) (entries tr)"
  "succeeded r \<Longrightarrow> entries ((RedisHSet k m v, r) # tr) = insert (k, m) (entries tr)"
  "succeeded r \<Longrightarrow> entries ((RedisSRem k m, r) # tr) = entries tr - {(k, m)}"
  "succeeded r \<Longrightarrow> entries ((RedisHDel k m, r) # tr) = entries tr - {(k, m)}"
  "entries ((RedisSet k v ttl, r) # tr) = entries tr"
  "entries ((RedisExpire k ttl, r) # tr) = entries tr"
  by simp_all

lemma lasting_changes [simp]:
  "lasting ((RedisSAdd k m, r) # tr) = lasting tr"
  "lasting ((RedisHSet k m v, r) # tr) = lasting tr"
  "lasting ((RedisSRem k m, r) # tr) = lasting tr"
  "lasting ((RedisHDel k m, r) # tr) = lasting tr"
  "k' \<noteq> k \<Longrightarrow> lasting ((RedisSet k' v ttl, r) # tr) k = lasting tr k"
  "k' \<noteq> k \<Longrightarrow> lasting ((RedisDel k', r) # tr) k = lasting tr k"
  "k' \<noteq> k \<Longrightarrow> lasting ((RedisExpire k' ttl, r) # tr) k = lasting tr k"
  "succeeded r \<Longrightarrow> lasting ((RedisSet k v day_seconds, r) # tr) k = Some v"
  by (simp_all add: fun_eq_iff)

lemma entries_del: "k' \<noteq> k \<Longrightarrow> (k', m) \<in> entries ((RedisDel k, r) # tr) \<longleftrightarrow> (k', m) \<in> entries tr"
  by simp

declare entries.simps(2) [simp del] lasting.simps(2) [simp del]

lemma view_write: "redis_view (snd (writeMessage E h sid m tr)) = redis_view tr"
  by (simp add: write_defs split: reply.split)

lemma view_connection [simp]: "redis_view (snd (connection_Publish E conn m tr)) = redis_view tr"
  by (simp add: connection_Publish_def view_write)

lemma view_trigger [simp]: "redis_view (snd (triggerHook E a event tr)) = redis_view tr"
  by (simp add: triggerHook_def invoke_def time_now_def Let_def split: reply.split)

lemma view_hooks [simp]:
  "redis_view (TriggerChannelOccupiedHook E a cid tr) = redis_view tr"
  "redis_view (TriggerChannelVacatedHook E a cid tr) = redis_view tr"
  "redis_view (TriggerMemberAddedHook E a cid s tr) = redis_view tr"
  "redis_view (TriggerMemberRemovedHook E a cid s tr) = redis_view tr"
  "redis_view (TriggerClientEventHook E a cid s e v tr) = redis_view tr"
  by (simp_all add: trigger_defs Let_def)

lemma view_member_events [simp]:
  "redis_view (PublishMemberAddedEvent E c data sid tr) = redis_view tr"
  "redis_view (PublishMemberRemovedEvent E c s tr) = redis_view tr"
proof -
  have "redis_view (fold (\<lambda>(k, subs) tr. if k \<noteq> sid
             then snd (connection_Publish E (sub_Connection subs) m tr) else tr) xs tr) = redis_view tr" for xs m
    by (induction xs arbitrary: tr) (auto split: if_splits)
  then show "redis_view (PublishMemberAddedEvent E c data sid tr) = redis_view tr" by (simp add: PublishMemberAddedEvent_def)
  have "redis_view (fold (\<lambda>(k, subs) tr. snd (connection_Publish E (sub_Connection subs) m tr)) xs tr) = redis_view tr" for xs m
    by (induction xs arbitrary: tr) auto
  then show "redis_view (PublishMemberRemovedEvent E c s tr) = redis_view tr" by (simp add: PublishMemberRemovedEvent_def)
qed

section \<open>Channels with the hooks of their application leave Redis alone\<close>

lemma view_notify: "hooked E a c \<Longrightarrow> redis_view (notify_occupied c s tr) = redis_view tr"
  by (simp add: notify_occupied_def run_listeners_def hooked_def)

lemma view_channel_Subscribe:
  "hooked E a c \<Longrightarrow> redis_view (snd (snd (channel_Subscribe E c conn data tr))) = redis_view tr"
  using view_notify [of E a "put_subscription _ _ (put_subscription _ _ c)"] view_notify [of E a "put_subscription _ _ c"]
  by (auto simp: channel_Subscribe_def Let_def run_listeners_def hooked_def [of E a c] split: option.split)

lemma view_channel_Unsubscribe:
  "hooked E a c \<Longrightarrow> redis_view (snd (snd (channel_Unsubscribe E c conn tr))) = redis_view tr"
  by (simp add: channel_Unsubscribe_def Let_def run_listeners_def hooked_def split: option.split)

lemma view_channel_Publish:
  assumes "hooked E a c"
  shows "redis_view (snd (channel_Publish E c event ignore tr)) = redis_view tr"
proof -
  have "redis_view (publish_step E c event v ignore ks tr) = redis_view tr" for v ks tr
    using assms by (simp add: publish_step_def Let_def run_client_listeners_def hooked_def)
  then have "redis_view (fold (publish_step E c event v ignore) xs tr) = redis_view tr" for v xs
    by (induction xs arbitrary: tr) simp_all
  then show ?thesis by (simp add: channel_Publish_def split: option.split)
qed

section \<open>The client of Redis\<close>

lemma view_client [simp]:
  "redis_view (snd (GetConnectionInstance E rc x y tr)) = redis_view tr"
  "redis_view (snd (GetChannelSubscriptions E rc x y tr)) = redis_view tr"
  "redis_view (snd (PublishEvent E rc x y ev tr)) = redis_view tr"
  "redis_view (snd (SubscribeToChannelEvents E rc x y tr)) = redis_view tr"
  by (simp_all add: GetConnectionInstance_def GetChannelSubscriptions_def PublishEvent_def
      SubscribeToChannelEvents_def invoke_def time_now_def Let_def)

lemma view_has_remote [simp]: "redis_view (snd (has_remote E rc x sids tr)) = redis_view tr"
proof (induction sids arbitrary: tr)
  case (Cons sid sids)
  obtain r tr1 where g: "GetConnectionInstance E rc x sid tr = (r, tr1)" by fastforce
  have "redis_view tr1 = redis_view tr" using view_client(1) [of E rc x sid tr] g by simp
  then show ?case using Cons g by (auto split: sum.split)
qed simp

lemma view_publish_remote [simp]: "redis_view (publish_remote E rc x cid event ignore tr) = redis_view tr"
proof -
  obtain r tr1 where g: "GetChannelSubscriptions E rc x cid tr = (r, tr1)" by fastforce
  then have 1: "redis_view tr1 = redis_view tr" using view_client(2) [of E rc x cid tr] by simp
  have 2: "redis_view tr2 = redis_view tr" if "has_remote E rc x ids tr1 = (b, tr2)" for ids b tr2
    using view_has_remote [of E rc x ids tr1] 1 that by simp
  show ?thesis using g 1 2 by (auto simp: publish_remote_def split: sum.split prod.split bool.split option.split)
qed


section \<open>Operations of the application that Redis is not told of\<close>

lemma view_FindOrCreate:
  assumes "FindOrCreateChannelByChannelID E n a tr = (c, a1, tr1)"
  shows "redis_view tr1 = redis_view tr"
proof -
  have pubsub: "redis_view (snd (setupChannelPubSub E rc k b tr')) = redis_view tr'" for rc k b tr'
    by (simp add: setupChannelPubSub_def SubscribeToChannelEvents_def invoke_def Let_def)
  have add: "redis_view (snd (AddChannel E c' b tr')) = redis_view tr'" for c' b tr'
    using pubsub [of _ "chan_ID c'" "b\<lparr>channels := AList.update (chan_ID c') c' (channels b)\<rparr>" tr']
    by (simp add: AddChannel_def Let_def split_beta split: option.split)
  have "redis_view (snd (channel_New E n os tr)) = redis_view tr" for os
    by (simp add: channel_New_def time_now_def invoke_def Let_def)
  then have "redis_view (snd (snd (FindOrCreateChannelByChannelID E n a tr))) = redis_view tr"
    by (simp add: FindOrCreateChannelByChannelID_def Let_def split_beta add split: sum.split)
  then show ?thesis using assms by simp
qed

lemma view_app_Publish:
  "hooked E b c \<Longrightarrow> redis_view (snd (snd (app_Publish E c event ignore a tr))) = redis_view tr"
  using view_channel_Publish [of E b c event ignore tr] by (simp add: app_Publish_def Let_def split_beta split: option.split)

end
