(* ===== verification/Redis_Mirror.thy ===== *)
theory Redis_Mirror
  imports Redis_View
begin

text \<open>
  Redis holds what the channels hold: an invariant of every operation of an application, with room for
  what other instances put into the same sets.
\<close>

section \<open>What the client of Redis changes\<close>

lemma entries_register: "entries (snd (RegisterConnection E rc x sid tr)) = entries tr"
  by (simp add: RegisterConnection_def time_now_def invoke_def Let_def)

lemma entries_subscribe:
  "redis_accepts E \<Longrightarrow> entries (snd (SubscribeToChannel E rc x cid sid d tr)) = insert (subscriptions_key x cid, sid) (entries tr)"
  "redis_accepts E \<Longrightarrow> entries (snd (StorePresenceData E rc x cid sid u i tr)) = insert (presence_key x cid, sid) (entries tr)"
  by (simp_all add: SubscribeToChannel_def StorePresenceData_def invoke_def time_now_def Let_def redis_accepts_def)

text \<open>\<open>DEL\<close> of a key of one subscription does not hit the sets and hashes of channels with plain ids.\<close>

lemma deleted_keys:
  assumes "plain_id x" "plain_id cid"
  shows "metadata_key x cid' sid \<noteq> subscriptions_key x cid" "metadata_key x cid' sid \<noteq> presence_key x cid"
    "info_key x cid' sid \<noteq> subscriptions_key x cid" "info_key x cid' sid \<noteq> presence_key x cid"
proof -
  have n: "count_list cid (CHR '':'') = 0" using assms(2) by simp
  have "count_list (channel_key x c suffix) (CHR '':'') = count_list (channel_key x [] []) (CHR '':'') + count_list c (CHR '':'') + count_list suffix (CHR '':'')"
    for c suffix by (simp add: channel_key_def)
  note colons = this [of cid "'':subscriptions''"] this [of cid "'':presence''"]
    this [of cid' "'':subscription:'' @ sid"] this [of cid' "'':presence:'' @ sid @ '':info''"]
  show "metadata_key x cid' sid \<noteq> subscriptions_key x cid" "metadata_key x cid' sid \<noteq> presence_key x cid"
    "info_key x cid' sid \<noteq> subscriptions_key x cid" "info_key x cid' sid \<noteq> presence_key x cid"
    using colons n by (auto dest: arg_cong [where f = "\<lambda>k. count_list k (CHR '':'')"])
qed

section \<open>The operations of an application\<close>

text \<open>The channels with plain ids, whose subscribers Redis holds.\<close>

definition in_redis :: "string \<Rightarrow> trace \<Rightarrow> (string \<times> string) set" where
  "in_redis x tr = {(cid, sid). plain_id cid \<and> (subscriptions_key x cid, sid) \<in> entries tr}"

definition present_in_redis :: "string \<Rightarrow> trace \<Rightarrow> (string \<times> string) set" where
  "present_in_redis x tr = {(cid, sid). plain_id cid \<and> (presence_key x cid, sid) \<in> entries tr}"

text \<open>The subscriptions of the other instances are a parameter.\<close>

definition mirrored :: "(string \<times> string) set \<Rightarrow> application \<Rightarrow> trace \<Rightarrow> bool" where
  "mirrored others a tr \<longleftrightarrow> in_redis (AppID a) tr = {(cid, sid) \<in> subs_rel a \<union> others. plain_id cid}
     \<and> present_in_redis (AppID a) tr = {(cid, sid) \<in> subs_rel a \<union> others. plain_id cid \<and> IsPresenceChannel cid}"

lemma mirrored_same:
  assumes "mirrored R a tr" "entries tr' = entries tr" "subs_rel a' = subs_rel a" "AppID a' = AppID a"
  shows "mirrored R a' tr'"
  using assms by (simp add: mirrored_def in_redis_def present_in_redis_def)

lemma other_keys: "subscriptions_key x c = subscriptions_key x c' \<longleftrightarrow> c = c'" "presence_key x c = presence_key x c' \<longleftrightarrow> c = c'"
  by (simp_all add: channel_key_def)

lemma key_ends: "last (subscriptions_key x c) = CHR ''s''" "last (presence_key x c) = CHR ''e''"
  by (simp_all add: channel_key_def)

lemma key_kinds: "subscriptions_key x c \<noteq> presence_key x c'" "presence_key x c \<noteq> subscriptions_key x c'"
  using key_ends [of x c] key_ends [of x c'] by (auto dest: arg_cong [where f = last])

lemma in_redis_subscribe:
  assumes E: "redis_accepts E" and x: "plain_id x"
  shows "in_redis x (snd (SubscribeToChannel E rc x cid sid d tr)) = {(c, k). plain_id c \<and> ((c, k) = (cid, sid) \<or> (c, k) \<in> in_redis x tr)}"
    "present_in_redis x (snd (SubscribeToChannel E rc x cid sid d tr)) = present_in_redis x tr"
    "in_redis x (snd (StorePresenceData E rc x cid sid u i tr)) = in_redis x tr"
    "present_in_redis x (snd (StorePresenceData E rc x cid sid u i tr)) = {(c, k). plain_id c \<and> ((c, k) = (cid, sid) \<or> (c, k) \<in> present_in_redis x tr)}"
proof -
  show "in_redis x (snd (SubscribeToChannel E rc x cid sid d tr)) = {(c, k). plain_id c \<and> ((c, k) = (cid, sid) \<or> (c, k) \<in> in_redis x tr)}"
    unfolding in_redis_def entries_subscribe [OF E] using other_keys(1) [of x] by blast
  show "present_in_redis x (snd (SubscribeToChannel E rc x cid sid d tr)) = present_in_redis x tr"
    unfolding present_in_redis_def entries_subscribe [OF E] using key_kinds(2) [of x] by blast
  show "in_redis x (snd (StorePresenceData E rc x cid sid u i tr)) = in_redis x tr"
    unfolding in_redis_def entries_subscribe [OF E] using key_kinds(1) [of x] by blast
  show "present_in_redis x (snd (StorePresenceData E rc x cid sid u i tr)) = {(c, k). plain_id c \<and> ((c, k) = (cid, sid) \<or> (c, k) \<in> present_in_redis x tr)}"
    unfolding present_in_redis_def entries_subscribe [OF E] using other_keys(2) [of x] by blast
qed

lemma entries_unsubscribe:
  assumes E: "redis_accepts E"
  shows "k \<noteq> metadata_key x cid sid \<Longrightarrow> (k, m) \<in> entries (snd (UnsubscribeFromChannel E rc x cid sid tr))
      \<longleftrightarrow> (k, m) \<in> entries tr \<and> (k, m) \<noteq> (subscriptions_key x cid, sid)"
    "k \<noteq> info_key x cid sid \<Longrightarrow> (k, m) \<in> entries (snd (RemovePresenceData E rc x cid sid tr))
      \<longleftrightarrow> (k, m) \<in> entries tr \<and> (k, m) \<noteq> (presence_key x cid, sid)"
  using E by (simp_all add: UnsubscribeFromChannel_def RemovePresenceData_def invoke_def Let_def redis_accepts_def entries_del)

lemma in_redis_unsubscribe:
  assumes E: "redis_accepts E" and x: "plain_id x"
  shows "in_redis x (snd (UnsubscribeFromChannel E rc x cid sid tr)) = in_redis x tr - {(cid, sid)}"
    "present_in_redis x (snd (UnsubscribeFromChannel E rc x cid sid tr)) = present_in_redis x tr"
    "in_redis x (snd (RemovePresenceData E rc x cid sid tr)) = in_redis x tr"
    "present_in_redis x (snd (RemovePresenceData E rc x cid sid tr)) = present_in_redis x tr - {(cid, sid)}"
proof -
  note del = deleted_keys [OF x, THEN not_sym]
  note un = entries_unsubscribe(1) [OF E del(1)] entries_unsubscribe(1) [OF E del(2)]
    entries_unsubscribe(2) [OF E del(3)] entries_unsubscribe(2) [OF E del(4)]
  show "in_redis x (snd (UnsubscribeFromChannel E rc x cid sid tr)) = in_redis x tr - {(cid, sid)}"
    unfolding in_redis_def using un(1) other_keys(1) [of x] by blast
  show "present_in_redis x (snd (UnsubscribeFromChannel E rc x cid sid tr)) = present_in_redis x tr"
    unfolding present_in_redis_def using un(2) key_kinds(2) [of x] by blast
  show "in_redis x (snd (RemovePresenceData E rc x cid sid tr)) = in_redis x tr"
    unfolding in_redis_def using un(3) key_kinds(1) [of x] by blast
  show "present_in_redis x (snd (RemovePresenceData E rc x cid sid tr)) = present_in_redis x tr - {(cid, sid)}"
    unfolding present_in_redis_def using un(4) other_keys(2) [of x] by blast
qed

lemma mirrored_Subscribe:
  assumes E: "redis_accepts E" and m: "mirrored R a tr" and x: "plain_id (AppID a)" and rc: "redisClient a = Some rc"
    and h: "hooked E a c" and c: "map_of (channels a) (chan_ID c) = Some c"
    and data: "IsPresenceChannel (chan_ID c) \<Longrightarrow> unmarshal_member data \<noteq> None"
  shows "mirrored R (fst (snd (app_Subscribe E c conn data a tr))) (snd (snd (app_Subscribe E c conn data a tr)))"
proof -
  obtain err c1 tr1 where s: "channel_Subscribe E c conn data tr = (err, c1, tr1)" by (rule prod_cases3)
  have c1: "chan_ID c1 = chan_ID c" using channel_Subscribe_frame [of E c conn data tr] s by simp
  have p: "IsPresence c1 = IsPresenceChannel (chan_ID c)" by (simp add: IsPresence_def c1)
  have err: "err = None" using s data by (auto simp: channel_Subscribe_def Let_def IsPresence_def split: if_splits option.splits)
  have e: "redis_view tr1 = redis_view tr" using view_channel_Subscribe [OF h, of conn data tr] s by simp
  have same: "in_redis (AppID a) tr1 = in_redis (AppID a) tr" "present_in_redis (AppID a) tr1 = present_in_redis (AppID a) tr"
    by (simp_all add: in_redis_def present_in_redis_def view_entries [OF e])
  have a': "AppID (fst (snd (app_Subscribe E c conn data a tr))) = AppID a"
    using arg_cong [OF wiring_Subscribe [of E c conn data a tr], of fst] by (simp add: wiring_def)
  have t: "snd (snd (app_Subscribe E c conn data a tr)) =
    (let tr2 = snd (SubscribeToChannel E rc (AppID a) (chan_ID c) (SocketID conn) data tr1)
     in if IsPresenceChannel (chan_ID c) then (case unmarshal_member data of None \<Rightarrow> tr2
         | Some (userID, userInfo) \<Rightarrow> snd (StorePresenceData E rc (AppID a) (chan_ID c) (SocketID conn) userID
              (case userInfo of None \<Rightarrow> [] | Some i \<Rightarrow> i) tr2)) else tr2)"
    by (simp add: app_Subscribe_def s err rc c1 p Let_def split: option.split)
  show ?thesis
    using m data unfolding mirrored_def a' app_Subscribe_rel(1) [OF c] t Let_def
    by (auto simp: in_redis_subscribe [OF E x] same split: option.splits)
qed

lemma mirrored_Unsubscribe:
  assumes E: "redis_accepts E" and m: "mirrored R a tr" and x: "plain_id (AppID a)" and rc: "redisClient a = Some rc"
    and h: "hooked E a c" and c: "map_of (channels a) (chan_ID c) = Some c" and wf: "app_wf a" and R: "SocketID conn \<notin> snd ` R"
  shows "mirrored R (fst (snd (app_Unsubscribe E c conn a tr))) (snd (snd (app_Unsubscribe E c conn a tr)))"
proof -
  obtain err c1 tr1 where s: "channel_Unsubscribe E c conn tr = (err, c1, tr1)" by (rule prod_cases3)
  have c1: "chan_ID c1 = chan_ID c" using channel_Unsubscribe_frame [of E c conn tr] s by simp
  have p: "IsPresence c1 = IsPresenceChannel (chan_ID c)" by (simp add: IsPresence_def c1)
  have e: "redis_view tr1 = redis_view tr" using view_channel_Unsubscribe [OF h, of conn tr] s by simp
  have same: "in_redis (AppID a) tr1 = in_redis (AppID a) tr" "present_in_redis (AppID a) tr1 = present_in_redis (AppID a) tr"
    by (simp_all add: in_redis_def present_in_redis_def view_entries [OF e])
  have a': "AppID (fst (snd (app_Unsubscribe E c conn a tr))) = AppID a"
    using arg_cong [OF wiring_Unsubscribe [of E c conn a tr], of fst] by (simp add: wiring_def)
  note rel = app_Unsubscribe_rel(1) [OF wf c, of E conn tr]
  show ?thesis
  proof (cases err)
    case None
    then have t: "snd (snd (app_Unsubscribe E c conn a tr)) =
      (let tr2 = snd (UnsubscribeFromChannel E rc (AppID a) (chan_ID c) (SocketID conn) tr1)
       in if IsPresenceChannel (chan_ID c) then snd (RemovePresenceData E rc (AppID a) (chan_ID c) (SocketID conn) tr2) else tr2)"
      by (simp add: app_Unsubscribe_def s rc c1 p Let_def)
    have "(cid, SocketID conn) \<notin> R" for cid using R by force
    then show ?thesis
      using m unfolding mirrored_def a' rel t Let_def by (auto simp: in_redis_unsubscribe [OF E x] same)
  next
    case (Some e0)
    then have "(chan_ID c, SocketID conn) \<notin> subs_rel a"
      using s c by (auto simp: channel_Unsubscribe_def subs_rel_def Let_def map_of_None_keys split: option.splits)
    moreover have "snd (snd (app_Unsubscribe E c conn a tr)) = tr1" using Some by (simp add: app_Unsubscribe_def s)
    ultimately show ?thesis using mirrored_same [OF m view_entries [OF e]] a' rel by simp
  qed
qed

lemma mirrored_FindOrCreate:
  assumes m: "mirrored R a tr" and wf: "app_wf a" and r: "FindOrCreateChannelByChannelID E n a tr = (c, a1, tr1)"
  shows "mirrored R a1 tr1"
  using m view_entries [OF view_FindOrCreate [OF r]]
  by (rule mirrored_same) (simp_all add: FindOrCreate_result [OF wf r])

section \<open>The invariant\<close>

definition linked :: "env \<Rightarrow> (string \<times> string) set \<Rightarrow> redis_client \<Rightarrow> string \<Rightarrow> application \<times> trace \<Rightarrow> bool" where
  "linked E R rc x s \<longleftrightarrow> app_wf (fst s) \<and> hooks_ok E (fst s) \<and> redisClient (fst s) = Some rc \<and> AppID (fst s) = x
     \<and> mirrored R (fst s) (snd s)"

lemma wired: "wiring a = wiring b \<Longrightarrow> redisClient a = redisClient b \<and> AppID a = AppID b"
  by (simp add: wiring_def)

lemma linked_Unsubscribe:
  assumes E: "redis_accepts E" and x: "plain_id x" and l: "linked E R rc x s" and c: "map_of (channels (fst s)) cid = Some c"
    and R: "SocketID conn \<notin> snd ` R"
  shows "linked E R rc x (snd (app_Unsubscribe E c conn (fst s) (snd s)))"
proof -
  have wf: "app_wf (fst s)" and h: "hooks_ok E (fst s)" using l by (simp_all add: linked_def)
  have c': "map_of (channels (fst s)) (chan_ID c) = Some c" using c app_wf_channel(1) [OF wf c] by simp
  have hc: "hooked E (fst s) c" using h c by (simp add: hooks_ok_def)
  show ?thesis
    using l mirrored_Unsubscribe [OF E, of R "fst s" "snd s" rc c conn] R x hc c' wf hooks_Unsubscribe [OF h hc, of conn "snd s"]
      app_Unsubscribe_wf [OF wf c', of E conn "snd s"] wired [OF wiring_Unsubscribe [of E c conn "fst s" "snd s"]]
    by (auto simp: linked_def)
qed

lemma linked_disconnect_fold:
  assumes E: "redis_accepts E" and x: "plain_id x" and l: "linked E R rc x s" and R: "SocketID conn \<notin> snd ` R"
  shows "linked E R rc x (fold (disconnect_step E conn) ks s)"
  using l
proof (induction ks arbitrary: s)
  case (Cons k ks)
  then have "linked E R rc x (disconnect_step E conn k s)"
    using linked_Unsubscribe [OF E x Cons.prems _ R] by (auto simp: disconnect_step_def split: option.split)
  with Cons.IH show ?case by simp
qed simp

lemma mirrored_unregister:
  assumes "plain_id (AppID a)" "mirrored R a tr"
  shows "mirrored R a (snd (UnregisterConnection E rc (AppID a) sid tr))"
proof -
  have "connection_key (AppID a) sid \<noteq> subscriptions_key (AppID a) c" "connection_key (AppID a) sid \<noteq> presence_key (AppID a) c" for c
    using connection_not_channel_key [OF assms(1,1)] by blast+
  then have "(subscriptions_key (AppID a) c, m) \<in> entries (snd (UnregisterConnection E rc (AppID a) sid tr)) \<longleftrightarrow> (subscriptions_key (AppID a) c, m) \<in> entries tr"
    "(presence_key (AppID a) c, m) \<in> entries (snd (UnregisterConnection E rc (AppID a) sid tr)) \<longleftrightarrow> (presence_key (AppID a) c, m) \<in> entries tr" for c m
    unfolding UnregisterConnection_def invoke_def Let_def prod.case snd_conv by (metis entries_del)+
  then show ?thesis using assms(2) unfolding mirrored_def in_redis_def present_in_redis_def by blast
qed

lemma mirrored_Disconnect:
  assumes E: "redis_accepts E" and x: "plain_id x" and l: "linked E R rc x (a, tr)" and R: "snd ` R \<inter> live a = {}"
  shows "mirrored R (fst (app_Disconnect E sid a tr)) (snd (app_Disconnect E sid a tr))"
proof (cases "map_of (connections a) sid")
  case None
  then show ?thesis using l by (simp add: app_Disconnect_def FindConnection_def linked_def)
next
  case (Some conn)
  obtain a1 tr1 where f: "fold (disconnect_step E conn) (keys (channels a)) (a, tr) = (a1, tr1)" by fastforce
  have wf: "app_wf a" using l by (simp add: linked_def)
  have "SocketID conn \<notin> snd ` R"
    using R Some app_wf_connection [OF wf Some] by (auto simp: live_def dest: map_of_some_keys)
  then have l1: "linked E R rc x (a1, tr1)" using linked_disconnect_fold [OF E x l, of conn "keys (channels a)"] f by simp
  then have m: "mirrored R a1 (snd (UnregisterConnection E rc (AppID a1) sid tr1))"
    using x by (intro mirrored_unregister) (simp_all add: linked_def)
  have "redisClient a1 = Some rc" using l1 by (simp add: linked_def)
  then have "snd (app_Disconnect E sid a tr) = snd (UnregisterConnection E rc (AppID a1) sid tr1)"
    by (simp add: app_Disconnect_def FindConnection_def Some f Let_def)
  then show ?thesis
    using m by (simp add: app_Disconnect_app [OF Some wf refl] f mirrored_def in_redis_def present_in_redis_def subs_rel_def stats_Add_def)
qed


fun decodable :: "app_op \<Rightarrow> bool" where
  "decodable (OpSubscribe cid sid data) \<longleftrightarrow> (IsPresenceChannel cid \<longrightarrow> unmarshal_member data \<noteq> None)"
| "decodable op \<longleftrightarrow> True"

lemma mirrored_run:
  assumes E: "redis_accepts E" and x: "plain_id x" and l: "linked E R rc x (a, tr)" and d: "decodable op"
    and R: "snd ` R \<inter> live a = {}"
  shows "mirrored R (fst (run_op E op (a, tr))) (snd (run_op E op (a, tr)))"
proof -
  have wf: "app_wf a" and h: "hooks_ok E a" and m: "mirrored R a tr" and rc: "redisClient a = Some rc" and i: "AppID a = x"
    using l by (simp_all add: linked_def)
  have found: "map_of (channels a) cid = Some c \<and> chan_ID c = cid \<and> hooked E a c" if "FindChannelByChannelID a cid = Inr c" for cid c
    using that h app_wf_channel(1) [OF wf, of cid c] by (auto simp: FindChannelByChannelID_def hooks_ok_def split: option.splits)
  have conn: "SocketID conn \<notin> snd ` R" if "FindConnection a sid = Inr conn" for sid conn
    using that R app_wf_connection [OF wf, of sid conn] by (auto simp: FindConnection_def live_def dest: map_of_some_keys split: option.splits)
  have pub: "mirrored R (fst (snd (app_Publish E c event ig a' tr'))) (snd (snd (app_Publish E c event ig a' tr')))"
    if "mirrored R a' tr'" "hooked E a' c" for c event ig a' tr'
    using that(1) view_entries [OF view_app_Publish [OF that(2)]]
    by (rule mirrored_same) (simp_all add: app_Publish_effect wired [OF wiring_Publish])
  have created: "mirrored R a1 tr1 \<and> hooked E a1 c \<and> AppID a1 = x \<and> redisClient a1 = Some rc \<and> chan_ID c = n
      \<and> map_of (channels a1) n = Some c"
    if r: "FindOrCreateChannelByChannelID E n a tr = (c, a1, tr1)" for n c a1 tr1
    using FindOrCreate_result [OF wf r] mirrored_FindOrCreate [OF m wf r] hooks_FindOrCreate [OF h r] i rc
    by (simp add: hooks_ok_def)
  show ?thesis
  proof (cases op)
    case (OpConnect conn)
    have "entries (snd (app_Connect E conn a tr)) = entries tr" by (simp add: app_Connect_def Let_def rc entries_register)
    then show ?thesis unfolding OpConnect run_op.simps
      by (rule mirrored_same [OF m]) (simp_all add: app_Connect_rel app_Connect_fields)
  next
    case (OpSubscribe n sid data)
    obtain c a1 tr1 where r: "FindOrCreateChannelByChannelID E n a tr = (c, a1, tr1)" by (rule prod_cases3)
    show ?thesis
      using created [OF r] x d m mirrored_Subscribe [OF E, of R a1 tr1 rc c data] by (auto simp: OpSubscribe r split: sum.split)
  next
    case (OpUnsubscribe n sid)
    then show ?thesis
      using m x i rc wf found conn mirrored_Unsubscribe [OF E m _ rc _ _ wf] by (auto split: sum.split)
  next
    case (OpPost n event ig)
    obtain c a1 tr1 where r: "FindOrCreateChannelByChannelID E n a tr = (c, a1, tr1)" by (rule prod_cases3)
    show ?thesis using created [OF r] pub [of a1 tr1 c event ig] by (simp add: OpPost r)
  qed (use m found pub mirrored_Disconnect [OF E x l R] in \<open>auto split: sum.split\<close>)
qed

lemma linked_run:
  assumes "redis_accepts E" "plain_id x" "linked E R rc x (a, tr)" "decodable op" "snd ` R \<inter> live a = {}"
    and al: "allowed (op_kind op) (hub_of a)"
  shows "linked E R rc x (run_op E op (a, tr))"
proof -
  have a: "app_wf a" "hooks_ok E a" "redisClient a = Some rc" "AppID a = x" using assms(3) by (simp_all add: linked_def)
  moreover have "redisClient (fst (run_op E op (a, tr))) = redisClient a \<and> AppID (fst (run_op E op (a, tr))) = AppID a"
  proof (cases op)
    case (OpSubscribe n sid data)
    obtain c a1 tr1 where r: "FindOrCreateChannelByChannelID E n a tr = (c, a1, tr1)" by (rule prod_cases3)
    show ?thesis using FindOrCreate_result(6,7) [OF a(1) r] wired [OF wiring_Subscribe] by (simp add: OpSubscribe r split: sum.split)
  next
    case (OpPost n event ig)
    obtain c a1 tr1 where r: "FindOrCreateChannelByChannelID E n a tr = (c, a1, tr1)" by (rule prod_cases3)
    show ?thesis using FindOrCreate_result(6,7) [OF a(1) r] wired [OF wiring_Publish] by (simp add: OpPost r)
  qed (use a(1) wired [OF wiring_Disconnect] wired [OF wiring_Connect] wired [OF wiring_Unsubscribe] wired [OF wiring_Publish]
      in \<open>auto split: sum.split\<close>)
  ultimately show ?thesis
    using run_op_refines [OF a(1) al] hooks_run [OF a(2,1)] mirrored_run [OF assms(1-5)] by (simp add: linked_def)
qed

lemma linked_runs:
  assumes "redis_accepts E" "plain_id x" "linked E {} rc x s" "\<forall>op \<in> set ops. decodable op" "legal (List.map op_kind ops) (hub_of (fst s))"
  shows "linked E {} rc x (fold (run_op E) ops s)"
  using assms(3-5)
proof (induction ops arbitrary: s)
  case (Cons op ops)
  obtain a tr where s: "s = (a, tr)" by fastforce
  have wf: "app_wf a" and al: "allowed (op_kind op) (hub_of a)" using Cons.prems s by (simp_all add: linked_def)
  have "linked E {} rc x (run_op E op s)" using Cons.prems s by (simp add: linked_run [OF assms(1,2)])
  moreover have "legal (List.map op_kind ops) (hub_of (fst (run_op E op s)))"
    using Cons.prems(3) run_op_refines [OF wf al] by (simp add: s)
  ultimately show ?case using Cons.IH Cons.prems(2) by simp
qed simp

text \<open>
  Claim C11: as long as Redis accepts the commands, after any sequence of operations Redis holds
  exactly what the application's channels hold: the set of a channel has a socket id if and only if
  that connection is subscribed to the channel, and the hash of presence data has it if and only if the
  channel is a presence channel too. The member data of subscriptions to presence channels has to be
  readable (the code registers the others in the channel only), the ids without colons, and the times to
  live of the keys (\<open>EXPIRE\<close>) long enough.
\<close>

theorem redis_mirrors_subscriptions:
  assumes "redis_accepts E" "plain_id i" "plain_id cid"
    and "legal (List.map op_kind ops) empty_hub" "\<forall>op \<in> set ops. decodable op"
    and "fold (run_op E) ops (empty_application n i k s o1 en u w url (Some rc), []) = (a, tr)"
  shows "((subscriptions_key i cid, sid) \<in> entries tr \<longleftrightarrow> (cid, sid) \<in> subs_rel a)
    \<and> ((presence_key i cid, sid) \<in> entries tr \<longleftrightarrow> IsPresenceChannel cid \<and> (cid, sid) \<in> subs_rel a)"
proof -
  let ?s = "(empty_application n i k s o1 en u w url (Some rc), [])"
  have "mirrored {} (fst ?s) (snd ?s)"
    by (simp add: mirrored_def in_redis_def present_in_redis_def subs_rel_def empty_application_def)
  then have "linked E {} rc i ?s"
    by (simp add: linked_def app_wf_empty hooks_empty) (simp add: empty_application_def)
  with linked_runs [OF assms(1,2) this assms(5)] have "mirrored {} a tr" "AppID a = i"
    using assms(4,6) by (simp_all add: hub_of_empty linked_def)
  then show ?thesis using assms(3) unfolding mirrored_def in_redis_def present_in_redis_def by blast
qed


definition mirror_ops :: "app_op list" where
  "mirror_ops = [OpConnect (demo_conn ''1.1'' 1), OpConnect (demo_conn ''2.2'' 2), OpSubscribe ''presence-a'' ''1.1'' ''{}'',
     OpSubscribe ''presence-a'' ''2.2'' ''{}'', OpUnsubscribe ''presence-a'' ''1.1'', OpSubscribe ''b'' ''1.1'' [], OpDisconnect ''1.1'']"

theorem redis_mirrors_subscriptions_witness:
  "let tr = snd (fold (run_op demo_env) mirror_ops (fresh_app False [] (Some demo_redis), []))
   in (presence_key ''1'' ''presence-a'', ''2.2'') \<in> entries tr \<and> (presence_key ''1'' ''presence-a'', ''1.1'') \<notin> entries tr
     \<and> (subscriptions_key ''1'' ''b'', ''1.1'') \<notin> entries tr"
proof -
  have E: "redis_accepts demo_env" by (simp add: redis_accepts_def demo_env_def succeeded_def)
  have l: "legal (List.map op_kind mirror_ops) empty_hub" by (simp add: mirror_ops_def demo_defs empty_hub_def is_live_def)
  have d: "\<forall>op \<in> set mirror_ops. decodable op" by (simp add: mirror_ops_def unmarshal_member_empty IsPresenceChannel_def)
  obtain a tr where r: "fold (run_op demo_env) mirror_ops (fresh_app False [] (Some demo_redis), []) = (a, tr)" by fastforce
  have "subs_rel a = subscribed (hub_of a)" by (simp add: hub_of_def)
  also have "hub_of a = fold hub_run (List.map op_kind mirror_ops) empty_hub"
    using run_from_empty(2) [OF l, of demo_env] r by (metis fst_conv)
  also have "subscribed (fold hub_run (List.map op_kind mirror_ops) empty_hub) = {(''presence-a'', ''2.2'')}"
    by (auto simp: mirror_ops_def demo_conn_def empty_hub_def is_live_def)
  finally have s: "subs_rel a = {(''presence-a'', ''2.2'')}" .
  have i: "plain_id ''1''" "plain_id ''presence-a''" "plain_id ''b''" "IsPresenceChannel ''presence-a''"
    by (simp_all add: IsPresenceChannel_def)
  note holds = redis_mirrors_subscriptions [OF E i(1) _ l d r]
  show ?thesis
    unfolding r Let_def snd_conv holds [OF i(2), THEN conjunct2] holds [OF i(3), THEN conjunct1] by (simp add: s i(4))
qed

end
