(* ===== verification/Cluster.thy ===== *)
theory Cluster
  imports Listeners Registry
begin

text \<open>
  Several instances of the server that share one Redis: \<open>Application.Publish\<close> on one of them, the
  messages Redis hands to the listeners of \<open>setupChannelPubSub\<close> on all of them, and what the clients of
  each instance are sent in the end. The instances are the list of their applications (one
  application of the configuration on every instance), and their calls are one common history.
\<close>

declare utf8_valid.simps [simp del]

section \<open>Redis hands a message to every listener of its topic\<close>

text \<open>
  A running listener of an instance is an entry of \<open>pubsubListeners\<close>; each has a subscription of its
  own to the topic of its channel, and handles the message as \<open>handle_pubsub\<close> says.
\<close>

definition receive :: "env \<Rightarrow> string \<Rightarrow> string \<Rightarrow> application \<Rightarrow> trace \<Rightarrow> trace" where
  "receive E topic payload a tr =
     (case redisClient a of
        None \<Rightarrow> tr
      | Some rc \<Rightarrow> fold (\<lambda>n tr. if events_key (AppID a) n = topic then handle_pubsub E rc n payload a tr else tr)
                     (pubsubListeners a) tr)"

definition spread :: "env \<Rightarrow> application list \<Rightarrow> string \<times> string \<Rightarrow> trace \<Rightarrow> trace" where
  "spread E as m tr = fold (receive E (fst m) (snd m)) as tr"

text \<open>An event published on instance \<open>i\<close>, and everything it publishes on Redis delivered.\<close>

definition cluster_publish ::
  "env \<Rightarrow> nat \<Rightarrow> channel \<Rightarrow> Raw \<Rightarrow> string \<Rightarrow> application list \<Rightarrow> trace \<Rightarrow> application list \<times> trace" where
  "cluster_publish E i c event ignore as tr =
     (let (err, a', tr1) = app_Publish E c event ignore (as ! i) tr;
          as' = as[i := a'];
          sent = drop (length (publications tr)) (publications tr1)
      in (as', fold (spread E as') sent tr1))"

section \<open>One message, one listener\<close>

text \<open>The connection that a listener skips: the one to ignore, if it is registered with this instance.\<close>

definition ignored_by :: "env \<Rightarrow> redis_client \<Rightarrow> application \<Rightarrow> EventMessage \<Rightarrow> trace \<Rightarrow> string" where
  "ignored_by E rc a m tr =
     (if em_IgnoreID m \<noteq> [] \<and> fst (GetConnectionInstance E rc (AppID a) (em_IgnoreID m) tr) = Inr (instanceID rc)
      then em_IgnoreID m else [])"

lemma handle_pubsub_result:
  assumes "unmarshal_event_message payload = Some m" "FindChannelByChannelID a n = Inr c"
  obtains tr1 where "written h tr1 = written h tr"
    "handle_pubsub E rc n payload a tr = snd (channel_Publish E c
       \<lparr>raw_Event = em_Event m, raw_Channel = em_Channel m, raw_Data = Some (marshal (em_Data m))\<rparr> (ignored_by E rc a m tr) tr1)"
proof -
  let ?g = "GetConnectionInstance E rc (AppID a) (em_IgnoreID m) tr"
  let ?tr1 = "if em_IgnoreID m \<noteq> [] then snd ?g else tr"
  have "written h ?tr1 = written h tr"
    using redis_quiet(3) [THEN quietD(3), of h E rc "AppID a" "em_IgnoreID m" tr] by simp
  moreover have "handle_pubsub E rc n payload a tr = snd (channel_Publish E c
       \<lparr>raw_Event = em_Event m, raw_Channel = em_Channel m, raw_Data = Some (marshal (em_Data m))\<rparr> (ignored_by E rc a m tr) ?tr1)"
    using assms by (cases ?g) (auto simp: handle_pubsub_def ignored_by_def Let_def split: sum.split)
  ultimately show ?thesis using that by blast
qed

lemma handle_pubsub_delivers:
  assumes wf: "app_wf a" and ok: "sockets_ok E"
    and m: "unmarshal_event_message payload = Some m" "unmarshal_any (marshal (em_Data m)) = Some (em_Data m)"
    and conn: "FindConnection a k = Inr conn" and k: "k \<noteq> []" "k \<noteq> em_IgnoreID m"
  shows "written (Socket conn) (handle_pubsub E rc n payload a tr) = written (Socket conn) tr
    @ (if (n, k) \<in> subs_rel a then [NewResponse (em_Event m) (em_Channel m) (em_Data m)] else [])"
proof (cases "FindChannelByChannelID a n")
  case (Inl e)
  then have "(n, k) \<notin> subs_rel a" by (auto simp: FindChannelByChannelID_def subs_rel_def split: option.splits)
  then show ?thesis using Inl m(1) by (simp add: handle_pubsub_def)
next
  case (Inr c)
  let ?ev = "\<lparr>raw_Event = em_Event m, raw_Channel = em_Channel m, raw_Data = Some (marshal (em_Data m))\<rparr>"
  obtain tr1 where r: "written (Socket conn) tr1 = written (Socket conn) tr"
    "handle_pubsub E rc n payload a tr = snd (channel_Publish E c ?ev (ignored_by E rc a m tr) tr1)"
    by (rule handle_pubsub_result [OF m(1) Inr])
  have v: "unmarshal_any (raw_marshal (raw_Data ?ev)) = Some (em_Data m)" using m(2) by (simp add: raw_marshal_def)
  have "k \<noteq> ignored_by E rc a m tr" using k by (simp add: ignored_by_def)
  then show ?thesis
    using app_publish_delivers [OF wf ok Inr v conn, of "ignored_by E rc a m tr" tr1] r by (simp add: app_Publish_trace)
qed

text \<open>A socket that is none of the application's is not written to.\<close>

definition sockets_of :: "application \<Rightarrow> nat set" where
  "sockets_of a = (\<lambda>kc. Socket (snd kc)) ` set (connections a)"

lemma sub_sockets:
  assumes wf: "app_wf a" and c: "map_of (channels a) n = Some c"
  shows "set (List.map sub_socket (subscriptions c)) \<subseteq> sockets_of a"
proof
  fix h assume "h \<in> set (List.map sub_socket (subscriptions c))"
  then obtain k s where ks: "(k, s) \<in> set (subscriptions c)" "h = Socket (sub_Connection s)" by auto
  have "(k, sub_Connection s) \<in> set (connections a)" by (rule map_of_SomeD [OF app_wf_channel(3) [OF wf c ks(1)]])
  then show "h \<in> sockets_of a" unfolding sockets_of_def ks(2) by (rule rev_image_eqI) simp
qed

lemma handle_pubsub_others:
  assumes wf: "app_wf a" and ok: "sockets_ok E" and h: "h \<notin> sockets_of a"
  shows "written h (handle_pubsub E rc n payload a tr) = written h tr"
proof (cases "unmarshal_event_message payload")
  case None
  then show ?thesis by (simp add: handle_pubsub_def)
next
  case (Some m)
  show ?thesis
  proof (cases "FindChannelByChannelID a n")
    case (Inl e)
    then show ?thesis using Some by (simp add: handle_pubsub_def)
  next
    case (Inr c)
    let ?ev = "\<lparr>raw_Event = em_Event m, raw_Channel = em_Channel m, raw_Data = Some (marshal (em_Data m))\<rparr>"
    have cm: "map_of (channels a) n = Some c" using Inr by (auto simp: FindChannelByChannelID_def split: option.splits)
    have s: "h \<notin> set (List.map sub_socket (subscriptions c))"
      using h sub_sockets [OF wf cm] by blast
    obtain tr1 where r: "written h tr1 = written h tr"
      "handle_pubsub E rc n payload a tr = snd (channel_Publish E c ?ev (ignored_by E rc a m tr) tr1)"
      by (rule handle_pubsub_result [OF Some Inr])
    show ?thesis
    proof (cases "unmarshal_any (raw_marshal (raw_Data ?ev))")
      case None
      then show ?thesis using r by (simp add: channel_Publish_def)
    next
      case v: (Some v)
      show ?thesis
        using channel_delivers_once [OF app_wf_channel(2) [OF wf cm] ok app_wf_sockets [OF wf cm] v, of "ignored_by E rc a m tr" tr1] s r
        by simp
    qed
  qed
qed

section \<open>One message, all instances\<close>

lemma fold_listeners:
  assumes step: "\<And>tr n. written h (f n tr) = written h tr @ (if n = cid then x else [])"
    and p: "\<And>n. n \<in> set ns \<Longrightarrow> P n \<longleftrightarrow> n = cid"
  shows "written h (fold (\<lambda>n tr. if P n then f n tr else tr) ns tr)
    = written h tr @ concat (replicate (count_list ns cid) x)"
  using p
proof (induction ns arbitrary: tr)
  case (Cons n ns)
  have IH: "written h (fold (\<lambda>n tr. if P n then f n tr else tr) ns tr')
    = written h tr' @ concat (replicate (count_list ns cid) x)" for tr'
    using Cons by simp
  show ?case using Cons.prems [of n] by (auto simp: IH step)
qed simp

text \<open>What holds of the instances of one application.\<close>

definition instance_ok :: "string \<Rightarrow> application \<Rightarrow> bool" where
  "instance_ok appID a \<longleftrightarrow> app_wf a \<and> AppID a = appID \<and> redisClient a \<noteq> None \<and> (\<forall>n \<in> set (pubsubListeners a). plain_id n)"

lemma receive_written:
  assumes a: "instance_ok appID a" and ok: "sockets_ok E" and ids: "plain_id appID" "plain_id cid"
    and m: "unmarshal_event_message payload = Some m" "unmarshal_any (marshal (em_Data m)) = Some (em_Data m)"
    and k: "k \<noteq> []" "k \<noteq> em_IgnoreID m"
  shows "FindConnection a k = Inr conn \<Longrightarrow>
      written (Socket conn) (receive E (events_key appID cid) payload a tr) = written (Socket conn) tr
      @ concat (replicate (count_list (pubsubListeners a) cid)
          (if (cid, k) \<in> subs_rel a then [NewResponse (em_Event m) (em_Channel m) (em_Data m)] else []))"
    "h \<notin> sockets_of a \<Longrightarrow> written h (receive E topic payload a tr) = written h tr"
proof -
  obtain rc where rc: "redisClient a = Some rc" using a by (auto simp: instance_ok_def)
  have wf: "app_wf a" using a by (simp add: instance_ok_def)
  have p: "n \<in> set (pubsubListeners a) \<Longrightarrow> events_key (AppID a) n = events_key appID cid \<longleftrightarrow> n = cid" for n
    using a ids by (simp add: instance_ok_def channel_key_eq)
  { assume conn: "FindConnection a k = Inr conn"
    have step: "written (Socket conn) (if n = cid then handle_pubsub E rc n payload a tr else tr) = written (Socket conn) tr
      @ (if n = cid then (if (cid, k) \<in> subs_rel a then [NewResponse (em_Event m) (em_Channel m) (em_Data m)] else []) else [])" for n tr
      using handle_pubsub_delivers [OF wf ok m conn k] by simp
    have "receive E (events_key appID cid) payload a tr =
      fold (\<lambda>n tr. if n = cid then (\<lambda>n tr. if n = cid then handle_pubsub E rc n payload a tr else tr) n tr else tr) (pubsubListeners a) tr"
      unfolding receive_def rc using p by (auto intro!: fold_cong)
    then show "written (Socket conn) (receive E (events_key appID cid) payload a tr) = written (Socket conn) tr
      @ concat (replicate (count_list (pubsubListeners a) cid)
          (if (cid, k) \<in> subs_rel a then [NewResponse (em_Event m) (em_Channel m) (em_Data m)] else []))"
      by (simp only: fold_listeners [where P = "\<lambda>n. n = cid", OF step refl]) }
  assume h: "h \<notin> sockets_of a"
  have "written h (fold (\<lambda>n tr. if events_key (AppID a) n = topic then handle_pubsub E rc n payload a tr else tr) ns tr) = written h tr" for ns
    by (induction ns arbitrary: tr) (simp_all add: handle_pubsub_others [OF wf ok h])
  then show "written h (receive E topic payload a tr) = written h tr" by (simp add: receive_def rc)
qed

lemma fold_receive_others:
  assumes "\<forall>a \<in> set as. instance_ok appID a \<and> h \<notin> sockets_of a" and ok: "sockets_ok E"
  shows "written h (fold (receive E topic payload) as tr) = written h tr"
  using assms(1)
proof (induction as arbitrary: tr)
  case (Cons a as)
  then obtain rc where rc: "redisClient a = Some rc" and wf: "app_wf a" and h: "h \<notin> sockets_of a"
    by (auto simp: instance_ok_def)
  have "written h (fold (\<lambda>n tr. if events_key (AppID a) n = topic then handle_pubsub E rc n payload a tr else tr) ns tr) = written h tr" for ns
    by (induction ns arbitrary: tr) (simp_all add: handle_pubsub_others [OF wf ok h])
  then have "written h (receive E topic payload a tr) = written h tr" by (simp add: receive_def rc)
  then show ?case using Cons by simp
qed simp

definition disjoint_sockets :: "application list \<Rightarrow> bool" where
  "disjoint_sockets as \<longleftrightarrow>
     (\<forall>i < length as. \<forall>j < length as. i \<noteq> j \<longrightarrow> sockets_of (as ! i) \<inter> sockets_of (as ! j) = {})"

lemma FindConnection_socket: "FindConnection a k = Inr conn \<Longrightarrow> Socket conn \<in> sockets_of a"
  by (force simp: FindConnection_def sockets_of_def split: option.splits dest: map_of_SomeD)

lemma spread_written:
  assumes as: "\<forall>a \<in> set as. instance_ok appID a" "disjoint_sockets as" and ok: "sockets_ok E"
    and ids: "plain_id appID" "plain_id cid"
    and m: "unmarshal_event_message payload = Some m" "unmarshal_any (marshal (em_Data m)) = Some (em_Data m)"
    and j: "j < length as" and conn: "FindConnection (as ! j) k = Inr conn" and k: "k \<noteq> []" "k \<noteq> em_IgnoreID m"
  shows "written (Socket conn) (spread E as (events_key appID cid, payload) tr) = written (Socket conn) tr
      @ concat (replicate (count_list (pubsubListeners (as ! j)) cid)
          (if (cid, k) \<in> subs_rel (as ! j) then [NewResponse (em_Event m) (em_Channel m) (em_Data m)] else []))"
proof -
  let ?f = "receive E (events_key appID cid) payload"
  have other: "Socket conn \<notin> sockets_of (as ! i)" if "i < length as" "i \<noteq> j" for i
    using as(2) that j FindConnection_socket [OF conn] by (auto simp: disjoint_sockets_def)
  have good: "instance_ok appID (as ! i) \<and> Socket conn \<notin> sockets_of (as ! i)" if "i < length as" "i \<noteq> j" for i
    using as(1) other [OF that] that(1) by simp
  have before: "\<forall>a \<in> set (take j as). instance_ok appID a \<and> Socket conn \<notin> sockets_of a"
    using good j by (auto simp: nth_image [symmetric])
  have after: "\<forall>a \<in> set (drop (Suc j) as). instance_ok appID a \<and> Socket conn \<notin> sockets_of a"
  proof
    fix a assume "a \<in> set (drop (Suc j) as)"
    then obtain i where "i < length as - Suc j" "a = as ! (Suc j + i)" by (auto simp: in_set_conv_nth)
    then show "instance_ok appID a \<and> Socket conn \<notin> sockets_of a" using good [of "Suc j + i"] by simp
  qed
  have "fold ?f as tr = fold ?f (drop (Suc j) as) (?f (as ! j) (fold ?f (take j as) tr))"
    by (subst id_take_nth_drop [OF j]) (simp only: fold_append fold.simps comp_apply)
  moreover have a: "instance_ok appID (as ! j)" using as(1) j by simp
  ultimately show ?thesis
    using receive_written(1) [OF a ok ids m k conn] fold_receive_others [OF before ok] fold_receive_others [OF after ok]
    by (simp add: spread_def)
qed

section \<open>What publishing puts on Redis\<close>

lemma publish_remote_publications:
  assumes "unmarshal_any (raw_marshal (raw_Data event)) = Some v"
  shows "publications (publish_remote E rc appID cid event ignore tr) = publications tr \<or>
    publications (publish_remote E rc appID cid event ignore tr) = publications tr
      @ [(events_key appID cid, marshal_event_message \<lparr>em_Event = raw_Event event, em_Channel = raw_Channel event,
            em_Data = v, em_SocketID = [], em_IgnoreID = ignore\<rparr>)]"
proof -
  obtain x tr1 where g: "GetChannelSubscriptions E rc appID cid tr = (x, tr1)" by fastforce
  have g': "publications tr1 = publications tr"
    using redis_quiet(6) [THEN quietD(2), of E rc appID cid tr] g by simp
  show ?thesis
  proof (cases x)
    case (Inl e)
    then show ?thesis using g g' by (simp add: publish_remote_def)
  next
    case (Inr all)
    obtain b tr2 where h: "has_remote E rc appID all tr1 = (b, tr2)" by fastforce
    have h': "publications tr2 = publications tr"
      using has_remote_quiet [THEN quietD(2), of E rc appID all tr1] h g' by simp
    show ?thesis
      using g Inr h h' assms by (auto simp: publish_remote_def PublishEvent_def invoke_def Let_def publications_simps split: bool.split)
  qed
qed

lemma app_Publish_publications:
  assumes "chan_wf c" "unmarshal_any (raw_marshal (raw_Data event)) = Some v"
  shows "publications (snd (snd (app_Publish E c event ignore a tr))) = publications tr \<or>
    publications (snd (snd (app_Publish E c event ignore a tr))) = publications tr
      @ [(events_key (AppID a) (chan_ID c), marshal_event_message \<lparr>em_Event = raw_Event event, em_Channel = raw_Channel event,
            em_Data = v, em_SocketID = [], em_IgnoreID = ignore\<rparr>)]"
  using publish_remote_publications [OF assms(2)] channel_Publish_publications [OF assms(1), of E event ignore tr]
  by (auto simp: app_Publish_def Let_def split: prod.split option.split) (metis snd_conv)+

section \<open>What the clients are sent in the end\<close>

lemma instance_ok_published:
  assumes as: "\<forall>a \<in> set as. instance_ok appID a" "disjoint_sockets as" and i: "i < length as"
    and as': "as' = as[i := stats_Add ''TotalUniqueMessages'' 1 (as ! i)]"
  shows "\<forall>a \<in> set as'. instance_ok appID a" "disjoint_sockets as'"
proof -
  have "app_wf a \<Longrightarrow> app_wf (stats_Add ''TotalUniqueMessages'' 1 a)" for a
    using app_Publish_effect(1) [of a] by (simp add: app_Publish_app)
  then have "instance_ok appID (stats_Add ''TotalUniqueMessages'' 1 (as ! i))"
    using as(1) i by (auto simp: instance_ok_def dest: nth_mem)
  then show "\<forall>a \<in> set as'. instance_ok appID a"
    using as(1) set_update_subset_insert [of as i "stats_Add ''TotalUniqueMessages'' 1 (as ! i)"] by (auto simp: as')
  have "sockets_of (as' ! x) = sockets_of (as ! x)" if "x < length as" for x
    using that i by (cases "x = i") (simp_all add: as' sockets_of_def)
  then show "disjoint_sockets as'" using as(2) by (simp add: disjoint_sockets_def as')
qed

text \<open>Whether the publishing instance finds a subscriber elsewhere and Redis takes the message.\<close>

definition passed_on :: "env \<Rightarrow> channel \<Rightarrow> Raw \<Rightarrow> string \<Rightarrow> application \<Rightarrow> trace \<Rightarrow> bool" where
  "passed_on E c event ignore a tr \<longleftrightarrow> publications (snd (snd (app_Publish E c event ignore a tr))) \<noteq> publications tr"

definition copies :: "bool \<Rightarrow> bool \<Rightarrow> string \<Rightarrow> application \<Rightarrow> nat" where
  "copies here passed cid a = (if here then 1 else 0) + (if passed then count_list (pubsubListeners a) cid else 0)"

text \<open>
  What one event sends to a client of any instance: once if the client is a subscriber of the
  publishing instance, and once for each listener of its instance if the event is passed on.
\<close>

lemma cluster_copies:
  assumes as: "\<forall>a \<in> set as. instance_ok appID a" "disjoint_sockets as" and ok: "sockets_ok E"
    and ids: "plain_id appID" "plain_id cid" and ij: "i < length as" "j < length as"
    and c: "FindChannelByChannelID (as ! i) cid = Inr c" and v: "unmarshal_any (raw_marshal (raw_Data event)) = Some v"
    and enc: "utf8_valid (raw_Event event)" "utf8_valid (raw_Channel event)" "utf8_valid ignore" "gval_ok v" "int (gdepth v) < 10000"
    and conn: "FindConnection (as ! j) k = Inr conn" and k: "k \<noteq> []" "k \<noteq> ignore"
  shows "written (Socket conn) (snd (cluster_publish E i c event ignore as tr)) = written (Socket conn) tr
    @ (if (cid, k) \<in> subs_rel (as ! j)
       then replicate (copies (j = i) (passed_on E c event ignore (as ! i) tr) cid (as ! j))
              (NewResponse (raw_Event event) (raw_Channel event) v)
       else [])"
proof -
  let ?p = "app_Publish E c event ignore (as ! i) tr"
  let ?m = "\<lparr>em_Event = raw_Event event, em_Channel = raw_Channel event, em_Data = v, em_SocketID = [], em_IgnoreID = ignore\<rparr>"
  let ?pub = "(events_key appID cid, marshal_event_message ?m)"
  let ?resp = "NewResponse (raw_Event event) (raw_Channel event) v"
  define as' where "as' = as[i := stats_Add ''TotalUniqueMessages'' 1 (as ! i)]"
  define tr1 where "tr1 = snd (snd ?p)"
  have a: "app_wf (as ! i)" "AppID (as ! i) = appID" using as(1) ij(1) by (simp_all add: instance_ok_def)
  have cm: "map_of (channels (as ! i)) cid = Some c" using c by (auto simp: FindChannelByChannelID_def split: option.splits)
  have cp: "cluster_publish E i c event ignore as tr = (as', fold (spread E as') (drop (length (publications tr)) (publications tr1)) tr1)"
    using app_Publish_app [of E c event ignore "as ! i" tr] by (cases ?p) (simp add: cluster_publish_def as'_def tr1_def Let_def)
  have here: "written (Socket conn) tr1 = written (Socket conn) tr @ (if j = i \<and> (cid, k) \<in> subs_rel (as ! j) then [?resp] else [])"
  proof (cases "j = i")
    case True
    then show ?thesis using app_publish_delivers [OF a(1) ok c v, of k conn ignore tr] conn k by (simp add: tr1_def)
  next
    case False
    then have "Socket conn \<notin> sockets_of (as ! i)"
      using as(2) ij FindConnection_socket [OF conn] by (auto simp: disjoint_sockets_def)
    then have "Socket conn \<notin> set (List.map sub_socket (subscriptions c))" using sub_sockets [OF a(1) cm] by blast
    then show ?thesis
      using False channel_delivers_once [OF app_wf_channel(2) [OF a(1) cm] ok app_wf_sockets [OF a(1) cm] v, of ignore tr]
      by (simp add: tr1_def app_Publish_trace)
  qed
  have j': "j < length as'" "FindConnection (as' ! j) k = Inr conn" "subs_rel (as' ! j) = subs_rel (as ! j)"
    "pubsubListeners (as' ! j) = pubsubListeners (as ! j)"
    using ij conn by (cases "j = i"; simp add: as'_def FindConnection_def subs_rel_def)+
  have m: "unmarshal_event_message (marshal_event_message ?m) = Some ?m"
    using enc by (intro event_message_back) (simp_all add: utf8_valid.simps)
  have data: "unmarshal_any (marshal (em_Data ?m)) = Some (em_Data ?m)" using enc by (simp add: marshal_roundtrip)
  note sp = spread_written [OF instance_ok_published [OF as ij(1) as'_def] ok ids m data j'(1,2) k(1), of tr1]
  have "publications tr1 = publications tr @ (if passed_on E c event ignore (as ! i) tr then [?pub] else [])"
    using app_Publish_publications [OF app_wf_channel(2) [OF a(1) cm] v, of E ignore "as ! i" tr] a(2) app_wf_channel(1) [OF a(1) cm]
    by (auto simp: passed_on_def tr1_def)
  then show ?thesis
    using sp k here j' by (simp add: cp copies_def concat_replicate_trivial replicate_app_Cons_same)
qed

end
