(* ===== verification/Shared_Redis.thy ===== *)
theory Shared_Redis
  imports Redis_Mirror Cluster
begin

text \<open>
  Several instances of the server on one Redis, each running operations of its own in any order. What
  \<open>Application.Publish\<close> finds in Redis about the other instances is true, so it passes an event on
  exactly when another instance has a subscriber.
\<close>

section \<open>Who holds a connection, by Redis\<close>

definition holder :: "string \<Rightarrow> trace \<Rightarrow> string \<Rightarrow> string option" where
  "holder x tr sid = (case lasting tr (connection_key x sid) of None \<Rightarrow> None
     | Some v \<Rightarrow> map_option cm_InstanceID (unmarshal_connection_metadata v))"

lemma holder_view: "redis_view tr' = redis_view tr \<Longrightarrow> holder x tr' sid = holder x tr sid"
  unfolding holder_def by (drule view_lasting) simp

lemma holder_channels:
  assumes "plain_id x"
  shows "holder x (snd (SubscribeToChannel E rc x cid k d tr)) sid = holder x tr sid"
    "holder x (snd (UnsubscribeFromChannel E rc x cid k tr)) sid = holder x tr sid"
    "holder x (snd (StorePresenceData E rc x cid k u i tr)) sid = holder x tr sid"
    "holder x (snd (RemovePresenceData E rc x cid k tr)) sid = holder x tr sid"
proof -
  note keys = connection_not_channel_key [OF assms assms, THEN not_sym]
  show "holder x (snd (SubscribeToChannel E rc x cid k d tr)) sid = holder x tr sid"
    "holder x (snd (UnsubscribeFromChannel E rc x cid k tr)) sid = holder x tr sid"
    "holder x (snd (StorePresenceData E rc x cid k u i tr)) sid = holder x tr sid"
    "holder x (snd (RemovePresenceData E rc x cid k tr)) sid = holder x tr sid"
    by (simp_all add: holder_def SubscribeToChannel_def UnsubscribeFromChannel_def StorePresenceData_def RemovePresenceData_def
        invoke_def time_now_def Let_def keys)
qed

lemma connection_keys: "connection_key x sid = connection_key x k \<longleftrightarrow> sid = k"
  by (simp add: connection_key_def)

lemma holder_register:
  assumes E: "redis_accepts E" "clock_ok E" and u: "utf8_valid (instanceID rc)" "utf8_valid k" "utf8_valid x"
  shows "holder x (snd (RegisterConnection E rc x k tr)) sid = (if sid = k then Some (instanceID rc) else holder x tr sid)"
proof -
  let ?m = "\<lparr>cm_InstanceID = instanceID rc, cm_SocketID = k, cm_AppID = x, cm_CreatedAt = rfc3339 (fst (time_now E tr))\<rparr>"
  have "unmarshal_connection_metadata (marshal_connection_metadata ?m) = Some ?m"
    using u time_now_plain [OF E(2)] by (intro connection_metadata_roundtrip) simp_all
  moreover have "\<exists>r. succeeded r \<and> snd (RegisterConnection E rc x k tr)
      = (RedisSet (connection_key x k) (marshal_connection_metadata ?m) day_seconds, r) # (TimeNow, E tr TimeNow) # tr"
    using E(1) by (auto simp: RegisterConnection_def invoke_def time_now_def Let_def redis_accepts_def)
  ultimately show ?thesis
    by (cases "sid = k") (auto simp: holder_def connection_keys)
qed

lemma holder_unregister:
  "sid \<noteq> k \<Longrightarrow> holder x (snd (UnregisterConnection E rc x k tr)) sid = holder x tr sid"
  by (simp add: holder_def UnregisterConnection_def invoke_def Let_def connection_keys)

section \<open>The operations of an application and the registrations\<close>

lemma holder_Subscribe:
  assumes "plain_id (AppID a)" "hooked E b c"
  shows "holder (AppID a) (snd (snd (app_Subscribe E c conn data a tr))) sid = holder (AppID a) tr sid"
proof -
  obtain err c1 tr1 where s: "channel_Subscribe E c conn data tr = (err, c1, tr1)" by (rule prod_cases3)
  then have "holder (AppID a) tr1 sid = holder (AppID a) tr sid"
    using view_channel_Subscribe [OF assms(2), of conn data tr] by (intro holder_view) simp
  then show ?thesis
    by (simp add: app_Subscribe_def s Let_def holder_channels [OF assms(1)] split: option.split)
qed

lemma holder_Unsubscribe:
  assumes "plain_id (AppID a)" "hooked E b c"
  shows "holder (AppID a) (snd (snd (app_Unsubscribe E c conn a tr))) sid = holder (AppID a) tr sid"
proof -
  obtain err c1 tr1 where s: "channel_Unsubscribe E c conn tr = (err, c1, tr1)" by (rule prod_cases3)
  then have "holder (AppID a) tr1 sid = holder (AppID a) tr sid"
    using view_channel_Unsubscribe [OF assms(2), of conn tr] by (intro holder_view) simp
  then show ?thesis
    by (simp add: app_Unsubscribe_def s Let_def holder_channels [OF assms(1)] split: option.split)
qed

lemma app_ID_disconnect_step: "AppID (fst (disconnect_step E conn k s)) = AppID (fst s)"
  using wired [OF wiring_disconnect_fold [of E conn "[k]" s]] by simp

lemma holder_disconnect_fold:
  assumes "plain_id x"
  shows "hooks_ok E (fst s) \<Longrightarrow> AppID (fst s) = x \<Longrightarrow> holder x (snd (fold (disconnect_step E conn) ks s)) sid = holder x (snd s) sid"
proof (induction ks arbitrary: s)
  case (Cons k ks)
  have "hooks_ok E (fst (disconnect_step E conn k s))"
    using hooks_disconnect_fold [OF Cons.prems(1), of conn "[k]"] by simp
  moreover have "holder x (snd (disconnect_step E conn k s)) sid = holder x (snd s) sid"
    using Cons.prems assms holder_Unsubscribe [of "fst s" E "fst s" _ conn "snd s" sid]
    by (auto simp: disconnect_step_def hooks_ok_def split: option.split)
  ultimately show ?case using Cons.IH Cons.prems(2) by (simp add: app_ID_disconnect_step)
qed simp

lemma holder_Disconnect:
  assumes x: "plain_id (AppID a)" and h: "hooks_ok E a" and other: "k \<in> live a \<Longrightarrow> sid \<noteq> k"
  shows "holder (AppID a) (snd (app_Disconnect E k a tr)) sid = holder (AppID a) tr sid"
proof (cases "map_of (connections a) k")
  case None
  then show ?thesis by (simp add: app_Disconnect_def FindConnection_def)
next
  case (Some conn)
  then have ne: "sid \<noteq> k" using other by (auto simp: live_def dest: map_of_some_keys)
  obtain a1 tr1 where f: "fold (disconnect_step E conn) (keys (channels a)) (a, tr) = (a1, tr1)" by fastforce
  have i: "AppID a1 = AppID a" using wired [OF wiring_disconnect_fold [of E conn "keys (channels a)" "(a, tr)"]] f by simp
  have 1: "holder (AppID a) tr1 sid = holder (AppID a) tr sid"
    using holder_disconnect_fold [OF x, of E "(a, tr)" conn "keys (channels a)"] h f by simp
  have "holder (AppID a) (case redisClient a1 of None \<Rightarrow> tr1 | Some rc \<Rightarrow> snd (UnregisterConnection E rc (AppID a1) k tr1)) sid
      = holder (AppID a) tr sid"
    using 1 ne by (simp add: i holder_unregister split: option.split)
  then show ?thesis by (simp add: app_Disconnect_def FindConnection_def Some f Let_def)
qed

lemma holder_run:
  assumes E: "redis_accepts E" "clock_ok E" and u: "utf8_valid (instanceID rc)" "utf8_valid (AppID a)" and x: "plain_id (AppID a)"
    and a: "hooks_ok E a" "app_wf a" "redisClient a = Some rc"
    and op: "\<And>conn. op = OpConnect conn \<Longrightarrow> utf8_valid (SocketID conn)" "\<And>k. op = OpDisconnect k \<Longrightarrow> k \<in> live a \<Longrightarrow> sid \<noteq> k"
  shows "holder (AppID a) (snd (run_op E op (a, tr))) sid =
    (if \<exists>conn. op = OpConnect conn \<and> SocketID conn = sid then Some (instanceID rc) else holder (AppID a) tr sid)"
proof -
  have found: "hooked E a c" if "FindChannelByChannelID a cid = Inr c" for cid c
    using that a(1) by (auto simp: FindChannelByChannelID_def hooks_ok_def split: option.splits)
  have created: "hooked E a1 c \<and> AppID a1 = AppID a \<and> holder (AppID a) tr1 sid = holder (AppID a) tr sid"
    if r: "FindOrCreateChannelByChannelID E n a tr = (c, a1, tr1)" for n c a1 tr1
    using FindOrCreate_result [OF a(2) r] hooks_FindOrCreate [OF a(1) r] holder_view [OF view_FindOrCreate [OF r]]
    by (simp add: hooks_ok_def)
  show ?thesis
  proof (cases op)
    case (OpConnect conn)
    then show ?thesis
      using holder_register [OF E u(1) op(1) u(2)] by (auto simp: app_Connect_def Let_def a(3))
  next
    case (OpSubscribe n k data)
    obtain c a1 tr1 where r: "FindOrCreateChannelByChannelID E n a tr = (c, a1, tr1)" by (rule prod_cases3)
    show ?thesis using created [OF r] x holder_Subscribe [of a1 E a1 c] by (simp add: OpSubscribe r split: sum.split)
  next
    case (OpUnsubscribe n k)
    then show ?thesis using found holder_Unsubscribe [OF x, of E a] by (auto split: sum.split)
  next
    case (OpDisconnect k)
    then show ?thesis using holder_Disconnect [OF x a(1)] op(2) by simp
  next
    case (OpClientEvent n event k)
    then show ?thesis using found holder_view [OF view_app_Publish [of E a]] by (auto split: sum.split)
  next
    case (OpPost n event ig)
    obtain c a1 tr1 where r: "FindOrCreateChannelByChannelID E n a tr = (c, a1, tr1)" by (rule prod_cases3)
    show ?thesis using created [OF r] holder_view [OF view_app_Publish [of E a1 c event ig a1 tr1]] by (simp add: OpPost r)
  qed
qed


section \<open>The instances together\<close>

text \<open>
  A step of the cluster is an operation of one instance, or Redis handing a message (any message) to
  all listeners.
\<close>

datatype cluster_op = InstanceOp nat app_op | RedisMessage string string

fun cluster_run :: "env \<Rightarrow> cluster_op \<Rightarrow> application list \<times> trace \<Rightarrow> application list \<times> trace" where
  "cluster_run E (InstanceOp i op) (as, tr) = (let (a, tr1) = run_op E op (as ! i, tr) in (as[i := a], tr1))"
| "cluster_run E (RedisMessage topic payload) (as, tr) = (as, spread E as (topic, payload) tr)"

text \<open>
  Socket ids are random: no two connections of the cluster have the same. The names of channels hold
  no colon.
\<close>

fun plain_op :: "app_op \<Rightarrow> bool" where
  "plain_op (OpSubscribe cid sid data) \<longleftrightarrow> plain_id cid"
| "plain_op (OpPost cid event ignore) \<longleftrightarrow> plain_id cid"
| "plain_op op \<longleftrightarrow> True"

fun cluster_allowed :: "cluster_op \<Rightarrow> application list \<Rightarrow> bool" where
  "cluster_allowed (InstanceOp i op) as \<longleftrightarrow> i < length as \<and> decodable op \<and> plain_op op
     \<and> (case op of OpConnect conn \<Rightarrow> utf8_valid (SocketID conn) \<and> (\<forall>a \<in> set as. fresh_connection conn a) | _ \<Rightarrow> True)"
| "cluster_allowed (RedisMessage topic payload) as \<longleftrightarrow> True"

inductive cluster_reachable :: "env \<Rightarrow> application list \<Rightarrow> application list \<times> trace \<Rightarrow> bool"
  for E :: env and as0 :: "application list" where
  start: "cluster_reachable E as0 (as0, [])"
| step: "cluster_reachable E as0 s \<Longrightarrow> cluster_allowed op (fst s) \<Longrightarrow> cluster_reachable E as0 (cluster_run E op s)"

text \<open>What the instances of an application share: the settings of the configuration file.\<close>

record app_settings =
  as_Name :: string
  as_Key :: string
  as_Secret :: string
  as_OnlySSL :: bool
  as_Enabled :: bool
  as_UserEvents :: bool
  as_WebHooks :: bool
  as_URL :: string

definition plain_settings :: app_settings where
  "plain_settings = \<lparr>as_Name = ''app'', as_Key = ''key'', as_Secret = ''secret'', as_OnlySSL = False, as_Enabled = True,
     as_UserEvents = True, as_WebHooks = False, as_URL = []\<rparr>"

definition fresh_cluster :: "app_settings \<Rightarrow> string \<Rightarrow> redis_client list \<Rightarrow> application list" where
  "fresh_cluster cf x rcs = List.map (\<lambda>rc. empty_application (as_Name cf) x (as_Key cf) (as_Secret cf) (as_OnlySSL cf)
     (as_Enabled cf) (as_UserEvents cf) (as_WebHooks cf) (as_URL cf) (Some rc)) rcs"

definition all_subs :: "application list \<Rightarrow> (string \<times> string) set" where
  "all_subs as = (\<Union>a \<in> set as. subs_rel a)"

definition subs_elsewhere :: "application list \<Rightarrow> nat \<Rightarrow> (string \<times> string) set" where
  "subs_elsewhere as i = (\<Union>j \<in> {..<length as} - {i}. subs_rel (as ! j))"

definition sound_instance :: "env \<Rightarrow> string \<Rightarrow> redis_client \<Rightarrow> application \<Rightarrow> trace \<Rightarrow> bool" where
  "sound_instance E x rc a tr \<longleftrightarrow> app_wf a \<and> hooks_ok E a \<and> redisClient a = Some rc \<and> AppID a = x
     \<and> (\<forall>sid \<in> live a. holder x tr sid = Some (instanceID rc))"

definition cluster_inv :: "env \<Rightarrow> string \<Rightarrow> redis_client list \<Rightarrow> application list \<times> trace \<Rightarrow> bool" where
  "cluster_inv E x rcs s \<longleftrightarrow> length (fst s) = length rcs
     \<and> (\<forall>i < length rcs. sound_instance E x (rcs ! i) (fst s ! i) (snd s))
     \<and> (\<forall>i < length rcs. \<forall>j < length rcs. i \<noteq> j \<longrightarrow> live (fst s ! i) \<inter> live (fst s ! j) = {})
     \<and> in_redis x (snd s) = {(cid, sid) \<in> all_subs (fst s). plain_id cid}
     \<and> present_in_redis x (snd s) = {(cid, sid) \<in> all_subs (fst s). plain_id cid \<and> IsPresenceChannel cid}"

lemma all_subs_at: "i < length as \<Longrightarrow> all_subs as = subs_rel (as ! i) \<union> subs_elsewhere as i"
  unfolding all_subs_def subs_elsewhere_def by (fastforce simp: in_set_conv_nth)

lemma all_subs_update: "i < length as \<Longrightarrow> all_subs (as[i := a]) = subs_rel a \<union> subs_elsewhere as i"
  using all_subs_at [of i "as[i := a]"] by (auto simp: subs_elsewhere_def)

lemma live_run:
  assumes "app_wf a" "allowed (op_kind op) (hub_of a)"
  shows "live (fst (run_op E op (a, tr))) = (case op of OpConnect conn \<Rightarrow> insert (SocketID conn) (live a)
    | OpDisconnect k \<Rightarrow> live a - {k} | _ \<Rightarrow> live a)"
proof -
  have "sid \<in> live (fst (run_op E op (a, tr))) \<longleftrightarrow> is_live sid (hub_run (op_kind op) (hub_of a))" for sid
    using run_op_refines [OF assms, of E tr] hub_of_live by metis
  moreover have "is_live sid (hub_run (op_kind op) (hub_of a)) \<longleftrightarrow> sid \<in> (case op of OpConnect conn \<Rightarrow> insert (SocketID conn) (live a)
    | OpDisconnect k \<Rightarrow> live a - {k} | _ \<Rightarrow> live a)" for sid
  proof -
    have w: "is_live k h \<longleftrightarrow> (\<exists>b. (k, b) \<in> who h)" for k h by (force simp: is_live_def)
    then have "(\<exists>b. (k, b) \<in> who (hub_of a)) \<longleftrightarrow> k \<in> live a" for k using hub_of_live [of k a] by blast
    then show ?thesis by (cases op) (auto simp: w)
  qed
  ultimately show ?thesis by blast
qed

section \<open>Messages from Redis change nothing in it\<close>

lemma view_handle_pubsub:
  assumes "hooks_ok E a"
  shows "redis_view (handle_pubsub E rc n payload a tr) = redis_view tr"
proof -
  have g: "redis_view tr1 = redis_view tr" if "GetConnectionInstance E rc y k tr = (r, tr1)" for y k r tr1
    using view_client(1) [of E rc y k tr] that by simp
  have "hooked E a c" if "FindChannelByChannelID a n = Inr c" for c
    using that assms by (auto simp: FindChannelByChannelID_def hooks_ok_def split: option.splits)
  then have p: "redis_view (snd (channel_Publish E c ev ig tr1)) = redis_view tr1" if "FindChannelByChannelID a n = Inr c" for c ev ig tr1
    using that view_channel_Publish by blast
  show ?thesis
    using g p by (auto simp: handle_pubsub_def Let_def split: option.split sum.split prod.split)
qed

lemma view_receive:
  assumes "hooks_ok E a"
  shows "redis_view (receive E topic payload a tr) = redis_view tr"
proof (cases "redisClient a")
  case (Some rc)
  have "redis_view (fold (\<lambda>n tr. if events_key (AppID a) n = topic then handle_pubsub E rc n payload a tr else tr) ns tr)
      = redis_view tr" for ns
    by (induction ns arbitrary: tr) (simp_all add: view_handle_pubsub [OF assms])
  then show ?thesis by (simp add: receive_def Some)
qed (simp add: receive_def)

lemma view_spread:
  "\<forall>a \<in> set as. hooks_ok E a \<Longrightarrow> redis_view (spread E as m tr) = redis_view tr"
  unfolding spread_def by (induction as arbitrary: tr) (simp_all add: view_receive)


section \<open>The invariant of the cluster\<close>

lemma elsewhere_disjoint:
  assumes "cluster_inv E x rcs (as, tr)" "i < length as"
  shows "snd ` subs_elsewhere as i \<inter> live (as ! i) = {}"
proof -
  have "sid \<notin> live (as ! i)" if "j < length as" "j \<noteq> i" "(cid, sid) \<in> subs_rel (as ! j)" for j cid sid
  proof -
    have "app_wf (as ! j)" using assms(1) that(1) by (simp add: cluster_inv_def sound_instance_def)
    from subs_live [OF this that(3)] show ?thesis using assms that(1,2) by (auto simp: cluster_inv_def)
  qed
  then show ?thesis by (force simp: subs_elsewhere_def)
qed

lemma instance_linked:
  assumes "cluster_inv E x rcs (as, tr)" "i < length as"
  shows "linked E (subs_elsewhere as i) (rcs ! i) x (as ! i, tr)"
  using assms all_subs_at [OF assms(2)] by (simp add: cluster_inv_def linked_def sound_instance_def mirrored_def)

lemma instance_allowed:
  "cluster_allowed (InstanceOp i op) as \<Longrightarrow> allowed (op_kind op) (hub_of (as ! i))"
  by (cases op) (simp_all add: allowed_connect del: allowed.simps(1))

lemma connections_held:
  assumes E: "redis_accepts E" "clock_ok E" and x: "plain_id x" "utf8_valid x" and u: "utf8_valid (instanceID rc)"
    and a: "sound_instance E x rc a tr" and ok: "allowed (op_kind op) (hub_of a)"
    and conn: "\<And>conn. op = OpConnect conn \<Longrightarrow> utf8_valid (SocketID conn)"
    and r: "run_op E op (a, tr) = (a1, tr1)"
  shows "sid \<in> live a1 \<Longrightarrow> holder x tr1 sid = Some (instanceID rc)"
    "sid \<notin> live a \<Longrightarrow> (\<And>conn. op = OpConnect conn \<Longrightarrow> SocketID conn \<noteq> sid) \<Longrightarrow> holder x tr1 sid = holder x tr sid"
proof -
  have a: "app_wf a" "hooks_ok E a" "redisClient a = Some rc" "AppID a = x" "\<And>k. k \<in> live a \<Longrightarrow> holder x tr k = Some (instanceID rc)"
    using a by (simp_all add: sound_instance_def)
  have live: "live a1 = (case op of OpConnect conn \<Rightarrow> insert (SocketID conn) (live a) | OpDisconnect k \<Rightarrow> live a - {k} | _ \<Rightarrow> live a)"
    using live_run [OF a(1) ok, of E tr] r by simp
  have held: "holder x tr1 sid = (if \<exists>conn. op = OpConnect conn \<and> SocketID conn = sid then Some (instanceID rc) else holder x tr sid)"
    if "\<And>k. op = OpDisconnect k \<Longrightarrow> k \<in> live a \<Longrightarrow> sid \<noteq> k"
    using holder_run [OF E, of rc a op sid tr, unfolded a(4) r snd_conv] that a x u conn by simp
  show "holder x tr1 sid = Some (instanceID rc)" if "sid \<in> live a1"
    using that a(5) held unfolding live by (cases op) auto
  show "holder x tr1 sid = holder x tr sid" if "sid \<notin> live a" "\<And>conn. op = OpConnect conn \<Longrightarrow> SocketID conn \<noteq> sid"
    using that by (subst held) auto
qed

lemma cluster_inv_op:
  assumes E: "redis_accepts E" "clock_ok E" and x: "plain_id x" "utf8_valid x" and u: "\<forall>rc \<in> set rcs. utf8_valid (instanceID rc)"
    and inv: "cluster_inv E x rcs (as, tr)" and al: "cluster_allowed (InstanceOp i op) as"
  shows "cluster_inv E x rcs (cluster_run E (InstanceOp i op) (as, tr))"
proof -
  obtain a1 tr1 where r: "run_op E op (as ! i, tr) = (a1, tr1)" by fastforce
  have len: "length as = length rcs" and i: "i < length as" "decodable op"
    and inst: "\<And>j. j < length as \<Longrightarrow> sound_instance E x (rcs ! j) (as ! j) tr"
    and dis: "\<And>j k. j < length as \<Longrightarrow> k < length as \<Longrightarrow> j \<noteq> k \<Longrightarrow> live (as ! j) \<inter> live (as ! k) = {}"
    using inv al by (simp_all add: cluster_inv_def)
  have conn: "utf8_valid (SocketID conn)" "\<And>j. j < length as \<Longrightarrow> SocketID conn \<notin> live (as ! j)" if "op = OpConnect conn" for conn
    using al that by (auto simp: fresh_connection_def)
  note ok = instance_allowed [OF al]
  have l1: "linked E (subs_elsewhere as i) (rcs ! i) x (a1, tr1)"
    using linked_run [OF E(1) x(1) instance_linked [OF inv i(1)] i(2) elsewhere_disjoint [OF inv i(1)] ok] r by simp
  have m: "AppID a1 = x" "mirrored (subs_elsewhere as i) a1 tr1" using l1 by (simp_all add: linked_def)
  have "utf8_valid (instanceID (rcs ! i))" using u i(1) len by simp
  note held = connections_held [OF E x this inst [OF i(1)] ok conn(1) r]
  have "sound_instance E x (rcs ! i) a1 tr1"
    using l1 held(1) by (simp add: sound_instance_def linked_def)
  moreover have "sound_instance E x (rcs ! j) (as ! j) tr1" if j: "j < length as" "j \<noteq> i" for j
  proof -
    have "holder x tr1 sid = holder x tr sid" if "sid \<in> live (as ! j)" for sid
      using held(2) [of sid] dis [OF j(1) i(1) j(2)] that conn(2) [OF _ j(1)] by blast
    then show ?thesis using inst [OF j(1)] by (simp add: sound_instance_def)
  qed
  moreover have "live a1 \<inter> live (as ! j) = {}" if j: "j < length as" "j \<noteq> i" for j
    using live_run [of "as ! i" op E tr] inst [OF i(1)] ok r dis [OF i(1) j(1)] j conn(2)
    by (cases op) (auto simp: sound_instance_def)
  moreover have "in_redis x tr1 = {(cid, sid) \<in> subs_rel a1 \<union> subs_elsewhere as i. plain_id cid}"
    "present_in_redis x tr1 = {(cid, sid) \<in> subs_rel a1 \<union> subs_elsewhere as i. plain_id cid \<and> IsPresenceChannel cid}"
    using m(2) unfolding mirrored_def m(1) by blast+
  ultimately show ?thesis
    using len i(1) dis by (simp add: cluster_inv_def r all_subs_update nth_list_update Int_commute)
qed

lemma cluster_inv_message:
  assumes inv: "cluster_inv E x rcs (as, tr)"
  shows "cluster_inv E x rcs (cluster_run E (RedisMessage topic payload) (as, tr))"
proof -
  have "\<forall>a \<in> set as. hooks_ok E a" using inv by (auto simp: cluster_inv_def sound_instance_def in_set_conv_nth)
  then have v: "redis_view (spread E as (topic, payload) tr) = redis_view tr" by (rule view_spread)
  then show ?thesis
    using inv by (simp add: cluster_inv_def sound_instance_def in_redis_def present_in_redis_def view_entries [OF v] holder_view [OF v])
qed

lemma cluster_inv_start: "cluster_inv E x rcs (fresh_cluster cf x rcs, [])"
  by (auto simp: cluster_inv_def fresh_cluster_def sound_instance_def app_wf_empty hooks_empty all_subs_def in_redis_def
      present_in_redis_def subs_rel_def live_def) (simp_all add: empty_application_def)

lemma cluster_invariant:
  assumes E: "redis_accepts E" "clock_ok E" and x: "plain_id x" "utf8_valid x" and u: "\<forall>rc \<in> set rcs. utf8_valid (instanceID rc)"
    and r: "cluster_reachable E (fresh_cluster cf x rcs) s"
  shows "cluster_inv E x rcs s"
  using r
proof (induction rule: cluster_reachable.induct)
  case start
  show ?case by (rule cluster_inv_start)
next
  case (step s op)
  obtain as tr where s: "s = (as, tr)" by fastforce
  show ?case
    using step cluster_inv_op [OF E x u] cluster_inv_message unfolding s by (cases op) auto
qed


section \<open>Histories of the cluster, seen as hubs\<close>

text \<open>Each instance implements a hub of its own, so what a history leads to is read off the operations.\<close>

fun hubs_run :: "cluster_op \<Rightarrow> hub list \<Rightarrow> hub list" where
  "hubs_run (InstanceOp i op) hs = hs[i := hub_run (op_kind op) (hs ! i)]"
| "hubs_run (RedisMessage topic payload) hs = hs"

fun hubs_allow :: "cluster_op \<Rightarrow> hub list \<Rightarrow> bool" where
  "hubs_allow (InstanceOp i op) hs \<longleftrightarrow> i < length hs \<and> decodable op \<and> plain_op op
     \<and> (case op of OpConnect conn \<Rightarrow> utf8_valid (SocketID conn) \<and> (\<forall>h \<in> set hs. allowed (op_kind op) h) | _ \<Rightarrow> True)"
| "hubs_allow (RedisMessage topic payload) hs \<longleftrightarrow> True"

fun hubs_legal :: "cluster_op list \<Rightarrow> hub list \<Rightarrow> bool" where
  "hubs_legal [] hs \<longleftrightarrow> True"
| "hubs_legal (op # ops) hs \<longleftrightarrow> hubs_allow op hs \<and> hubs_legal ops (hubs_run op hs)"

lemma hubs_allow_cluster: "hubs_allow op (List.map hub_of as) \<longleftrightarrow> cluster_allowed op as"
proof (cases op)
  case (InstanceOp i o1)
  then show ?thesis by (cases o1) (simp_all add: allowed_connect del: allowed.simps(1))
qed simp

lemma hubs_of_run:
  assumes "cluster_inv E x rcs (as, tr)" "cluster_allowed op as"
  shows "List.map hub_of (fst (cluster_run E op (as, tr))) = hubs_run op (List.map hub_of as)"
proof (cases op)
  case (InstanceOp i o1)
  obtain a1 tr1 where r: "run_op E o1 (as ! i, tr) = (a1, tr1)" by fastforce
  have i: "i < length as" and wf: "app_wf (as ! i)"
    using assms by (simp_all add: InstanceOp cluster_inv_def sound_instance_def)
  have "hub_of a1 = hub_run (op_kind o1) (hub_of (as ! i))"
    using run_op_refines [OF wf, of o1 E tr] instance_allowed [of i o1 as] assms(2) r by (simp add: InstanceOp)
  then show ?thesis using i by (simp add: InstanceOp r map_update)
qed simp

lemma cluster_runs:
  assumes E: "redis_accepts E" "clock_ok E" and x: "plain_id x" "utf8_valid x" and u: "\<forall>rc \<in> set rcs. utf8_valid (instanceID rc)"
    and "cluster_reachable E (fresh_cluster cf x rcs) s" "hubs_legal ops (List.map hub_of (fst s))"
  shows "cluster_reachable E (fresh_cluster cf x rcs) (fold (cluster_run E) ops s)
    \<and> List.map hub_of (fst (fold (cluster_run E) ops s)) = fold hubs_run ops (List.map hub_of (fst s))"
  using assms(6,7)
proof (induction ops arbitrary: s)
  case (Cons op ops)
  obtain as tr where s: "s = (as, tr)" by fastforce
  have al: "cluster_allowed op as" using Cons.prems(2) by (simp add: s hubs_allow_cluster)
  have r: "cluster_reachable E (fresh_cluster cf x rcs) (cluster_run E op s)"
    using Cons.prems(1) al by (intro cluster_reachable.step) (simp_all add: s)
  have "List.map hub_of (fst (cluster_run E op s)) = hubs_run op (List.map hub_of (fst s))"
    using hubs_of_run [OF _ al] cluster_invariant [OF E x u Cons.prems(1)] by (simp add: s)
  then show ?case using Cons.IH [OF r] Cons.prems(2) by simp
qed simp

lemma hubs_fresh: "List.map hub_of (fresh_cluster cf x rcs) = replicate (length rcs) empty_hub"
  by (simp add: fresh_cluster_def hub_of_empty map_replicate_const comp_def)

section \<open>What an instance finds out about the others\<close>

text \<open>
  Redis answers from what it holds: \<open>GET\<close> by \<open>redis_law\<close>, \<open>SMEMBERS\<close> the members of the set in some
  order; it accepts \<open>PUBLISH\<close>, and its clock is in the first day of the cluster, so nothing has
  expired.
\<close>

definition redis_serves :: "(trace \<Rightarrow> int) \<Rightarrow> env \<Rightarrow> bool" where
  "redis_serves clk E \<longleftrightarrow> redis_law clk E \<and> (\<forall>tr. 0 \<le> clk tr \<and> clk tr < day_seconds)
     \<and> (\<forall>tr k. \<exists>ids. E tr (RedisSMembers k) = RList ids \<and> set ids = {m. (k, m) \<in> entries tr})
     \<and> (\<forall>tr topic payload. succeeded (E tr (RedisPublish topic payload)))"

lemma lasting_kv:
  assumes "\<And>tr. 0 \<le> clk tr"
  shows "lasting tr k = Some v \<Longrightarrow> \<exists>t. kv_entry clk tr k = Some (v, t) \<and> day_seconds \<le> t"
proof (induction tr)
  case (Cons c tr)
  have "day_seconds \<le> clk tr + ttl" if "day_seconds \<le> ttl" for ttl using that assms [of tr] by simp
  with Cons show ?case by (auto simp: lasting.simps(2) split: call.splits if_splits)
qed simp

lemma holder_found:
  assumes r: "redis_serves clk E" and h: "holder x tr sid = Some inst"
  shows "fst (GetConnectionInstance E rc x sid tr) = Inr inst"
proof -
  obtain v m where v: "lasting tr (connection_key x sid) = Some v" "unmarshal_connection_metadata v = Some m" "cm_InstanceID m = inst"
    using h by (auto simp: holder_def split: option.splits)
  have day: "0 \<le> clk tr" "clk tr < day_seconds" and law: "redis_law clk E" for tr using r by (simp_all add: redis_serves_def)
  obtain t where "kv_entry clk tr (connection_key x sid) = Some (v, t)" "day_seconds \<le> t"
    using lasting_kv [of clk, OF day(1) v(1)] by blast
  then have "kv_value clk tr (connection_key x sid) = Some v" using day(2) [of tr] by (simp add: kv_value_def)
  then show ?thesis by (simp add: GetConnectionInstance_law [OF law] v)
qed

lemma has_remote_finds:
  assumes r: "redis_serves clk E"
  shows "\<forall>sid \<in> set sids. \<exists>inst. holder x tr sid = Some inst \<Longrightarrow>
    fst (has_remote E rc x sids tr) \<longleftrightarrow> (\<exists>sid \<in> set sids. holder x tr sid \<noteq> Some (instanceID rc))"
proof (induction sids arbitrary: tr)
  case (Cons sid sids)
  obtain inst where h: "holder x tr sid = Some inst" using Cons.prems by auto
  obtain tr1 where g: "GetConnectionInstance E rc x sid tr = (Inr inst, tr1)"
    using holder_found [OF r h, of rc] by (metis prod.collapse)
  have v: "holder x tr1 k = holder x tr k" for k
    by (rule holder_view) (use view_client(1) [of E rc x sid tr] g in simp)
  have "fst (has_remote E rc x sids tr1) \<longleftrightarrow> (\<exists>k \<in> set sids. holder x tr k \<noteq> Some (instanceID rc))"
    using Cons.IH [of tr1] Cons.prems by (simp add: v)
  then show ?case using h by (auto simp: g)
qed simp

lemma passed_on_iff:
  assumes r: "redis_serves clk E" and c: "chan_wf c" "hooked E b c" and rc: "redisClient a = Some rc"
    and v: "unmarshal_any (raw_marshal (raw_Data event)) = Some w"
    and h: "\<And>sid. (subscriptions_key (AppID a) (chan_ID c), sid) \<in> entries tr \<Longrightarrow> \<exists>inst. holder (AppID a) tr sid = Some inst"
  shows "passed_on E c event ignore a tr \<longleftrightarrow>
    (\<exists>sid. (subscriptions_key (AppID a) (chan_ID c), sid) \<in> entries tr \<and> holder (AppID a) tr sid \<noteq> Some (instanceID rc))"
proof -
  let ?k = "subscriptions_key (AppID a) (chan_ID c)"
  obtain err tr0 where p: "channel_Publish E c event ignore tr = (err, tr0)" by fastforce
  have v0: "redis_view tr0 = redis_view tr" using view_channel_Publish [OF c(2), of event ignore tr] p by simp
  obtain ids where ids: "E tr0 (RedisSMembers ?k) = RList ids" "set ids = {m. (?k, m) \<in> entries tr}"
    using r view_entries [OF v0] unfolding redis_serves_def by metis
  obtain tr1 where s: "GetChannelSubscriptions E rc (AppID a) (chan_ID c) tr0 = (Inr ids, tr1)"
    using ids(1) by (simp add: GetChannelSubscriptions_def invoke_def Let_def)
  have v1: "redis_view tr1 = redis_view tr" using view_client(2) [of E rc "AppID a" "chan_ID c" tr0] s v0 by simp
  obtain b tr2 where g: "has_remote E rc (AppID a) ids tr1 = (b, tr2)" by fastforce
  have b: "b \<longleftrightarrow> (\<exists>sid \<in> set ids. holder (AppID a) tr sid \<noteq> Some (instanceID rc))"
    using has_remote_finds [OF r, of ids "AppID a" tr1 rc] g h ids(2) by (simp add: holder_view [OF v1])
  have q: "publications tr0 = publications tr" "publications tr1 = publications tr0" "publications tr2 = publications tr1"
    using channel_Publish_publications [OF c(1), of E event ignore tr] p
      redis_quiet(6) [THEN quietD(2), of E rc "AppID a" "chan_ID c" tr0] s
      has_remote_quiet [THEN quietD(2), of E rc "AppID a" ids tr1] g by simp_all
  have "succeeded (E h (RedisPublish y z))" for h y z using r by (simp add: redis_serves_def)
  then have "passed_on E c event ignore a tr \<longleftrightarrow> b"
    using p s g q rc v
    by (cases b) (simp_all add: passed_on_def app_Publish_def Let_def publish_remote_def PublishEvent_def invoke_def publications_simps)
  then show ?thesis using b ids(2) by auto
qed

lemma passes_on:
  assumes E: "redis_accepts E" "clock_ok E" "redis_serves clk E"
    and ids: "plain_id x" "plain_id cid" "utf8_valid x" "\<forall>rc \<in> set rcs. utf8_valid (instanceID rc)" "distinct (List.map instanceID rcs)"
    and reach: "cluster_reachable E (fresh_cluster cf x rcs) (as, tr)"
    and i: "i < length as" "FindChannelByChannelID (as ! i) cid = Inr c"
    and v: "unmarshal_any (raw_marshal (raw_Data event)) = Some w"
  shows "passed_on E c event ignore (as ! i) tr \<longleftrightarrow> (\<exists>j < length as. j \<noteq> i \<and> (\<exists>sid. (cid, sid) \<in> subs_rel (as ! j)))"
proof -
  note inv = cluster_invariant [OF E(1,2) ids(1,3,4) reach]
  have len: "length as = length rcs" using inv by (simp add: cluster_inv_def)
  have inst: "app_wf (as ! j)" "hooks_ok E (as ! j)" "redisClient (as ! j) = Some (rcs ! j)" "AppID (as ! j) = x"
    "\<And>sid. sid \<in> live (as ! j) \<Longrightarrow> holder x tr sid = Some (instanceID (rcs ! j))" if "j < length as" for j
    using inv that by (simp_all add: cluster_inv_def sound_instance_def)
  have cm: "map_of (channels (as ! i)) cid = Some c" using i(2) by (auto simp: FindChannelByChannelID_def split: option.splits)
  have c: "chan_ID c = cid" "chan_wf c" "hooked E (as ! i) c"
    using app_wf_channel [OF inst(1) [OF i(1)] cm] inst(2) [OF i(1)] cm by (simp_all add: hooks_ok_def)
  have members: "(subscriptions_key x cid, sid) \<in> entries tr \<longleftrightarrow> (\<exists>j < length as. (cid, sid) \<in> subs_rel (as ! j))" for sid
  proof -
    have "in_redis x tr = {(cid, sid) \<in> all_subs as. plain_id cid}" using inv by (simp add: cluster_inv_def)
    moreover have "(cid, sid) \<in> in_redis x tr \<longleftrightarrow> (subscriptions_key x cid, sid) \<in> entries tr"
      using ids(2) unfolding in_redis_def by blast
    moreover have "(cid, sid) \<in> all_subs as \<longleftrightarrow> (\<exists>j < length as. (cid, sid) \<in> subs_rel (as ! j))"
      unfolding all_subs_def by (auto simp: set_conv_nth)
    ultimately show ?thesis using ids(2) by blast
  qed
  have held: "holder x tr sid = Some (instanceID (rcs ! j))" if "j < length as" "(cid, sid) \<in> subs_rel (as ! j)" for j sid
    using inst(5) [OF that(1)] subs_live [OF inst(1) [OF that(1)] that(2)] .
  have some: "\<exists>inst. holder x tr sid = Some inst" if "(subscriptions_key x cid, sid) \<in> entries tr" for sid
    using held members that by blast
  note p = passed_on_iff [OF E(3) c(2,3) inst(3) [OF i(1)] v, of tr ignore, unfolded inst(4) [OF i(1)] c(1)]
  have "passed_on E c event ignore (as ! i) tr \<longleftrightarrow>
      (\<exists>sid. (subscriptions_key x cid, sid) \<in> entries tr \<and> holder x tr sid \<noteq> Some (instanceID (rcs ! i)))"
    by (rule p [OF some])
  also have "\<dots> \<longleftrightarrow> (\<exists>sid. (\<exists>j < length as. (cid, sid) \<in> subs_rel (as ! j)) \<and> holder x tr sid \<noteq> Some (instanceID (rcs ! i)))"
    unfolding members ..
  also have "\<dots> \<longleftrightarrow> (\<exists>sid. \<exists>j < length as. (cid, sid) \<in> subs_rel (as ! j) \<and> instanceID (rcs ! j) \<noteq> instanceID (rcs ! i))"
    using held by fastforce
  also have "\<dots> \<longleftrightarrow> (\<exists>j < length as. j \<noteq> i \<and> (\<exists>sid. (cid, sid) \<in> subs_rel (as ! j)))"
    using nth_eq_iff_index_eq [OF ids(5)] i(1) by (auto simp: len)
  finally show ?thesis .
qed


text \<open>
  Claim C5: on its first day, a cluster whose Redis does what it is asked passes an event on through
  Redis exactly when it has to: whatever operations the instances ran, in whatever order, the instance
  that publishes an event publishes it on Redis as well if and only if some other instance has a
  subscriber of the channel. Connections and instances have distinct ids, ids hold no colon, and the
  member data of subscriptions to presence channels is readable (\<open>cluster_allowed\<close>).
\<close>

theorem passed_on_when_needed:
  assumes E: "redis_accepts E" "clock_ok E" "redis_serves clk E"
    and ids: "plain_id x" "plain_id cid" "utf8_valid x" "\<forall>rc \<in> set rcs. utf8_valid (instanceID rc)" "distinct (List.map instanceID rcs)"
    and reach: "cluster_reachable E (fresh_cluster cf x rcs) (as, tr)"
    and i: "i < length as" "FindChannelByChannelID (as ! i) cid = Inr c"
    and v: "unmarshal_any (raw_marshal (raw_Data event)) = Some w"
  shows "passed_on E c event ignore (as ! i) tr \<longleftrightarrow> (\<exists>j < length as. j \<noteq> i \<and> (\<exists>sid. (cid, sid) \<in> subs_rel (as ! j)))"
  by (rule passes_on [OF E ids reach i v])

text \<open>A Redis that keeps sets, on top of one that keeps keys.\<close>

primrec members :: "trace \<Rightarrow> string \<Rightarrow> string list" where
  "members [] k = []"
| "members (x # tr) k =
     (if \<not> succeeded (snd x) then members tr k
      else (case fst x of
          RedisSAdd k' m \<Rightarrow> if k' = k then List.insert m (members tr k) else members tr k
        | RedisHSet k' m v \<Rightarrow> if k' = k then List.insert m (members tr k) else members tr k
        | RedisSRem k' m \<Rightarrow> if k' = k then removeAll m (members tr k) else members tr k
        | RedisHDel k' m \<Rightarrow> if k' = k then removeAll m (members tr k) else members tr k
        | RedisDel k' \<Rightarrow> if k' = k then [] else members tr k
        | _ \<Rightarrow> members tr k))"

lemma set_members: "set (members tr k) = {m. (k, m) \<in> entries tr}"
  by (induction tr) (auto simp: entries.simps(2) split: call.split)

definition shared_env :: env where
  "shared_env tr c = (case c of RedisSMembers k \<Rightarrow> RList (members tr k) | _ \<Rightarrow> redis_env (\<lambda>_. 0) demo_answers tr c)"

lemma shared_env_ok: "redis_accepts shared_env" "clock_ok shared_env" "redis_serves (\<lambda>_. 0) shared_env"
proof -
  show "clock_ok shared_env"
    using demo_env_ok [of "\<lambda>_. 0"] by (simp add: clock_ok_def shared_env_def)
  show "redis_accepts shared_env"
    by (simp add: redis_accepts_def shared_env_def redis_env_def demo_answers_def succeeded_def)
  show "redis_serves (\<lambda>_. 0) shared_env"
    by (simp add: redis_serves_def redis_law_def shared_env_def redis_env_def demo_answers_def succeeded_def set_members day_seconds_def)
qed

definition two_instances :: "application list" where
  "two_instances = fresh_cluster plain_settings ''1'' [\<lparr>instanceID = ''i1'', isCluster = False\<rparr>, \<lparr>instanceID = ''i2'', isCluster = False\<rparr>]"

definition two_ops :: "cluster_op list" where
  "two_ops = [InstanceOp 0 (OpConnect (demo_conn ''1.1'' 1)), InstanceOp 1 (OpConnect (demo_conn ''2.2'' 2)),
     InstanceOp 1 (OpSubscribe ''a'' ''2.2'' []), InstanceOp 0 (OpSubscribe ''a'' ''1.1'' [])]"

lemma two_ids: "plain_id ''1''" "plain_id ''a''" "utf8_valid ''1''"
    "\<forall>rc \<in> set [\<lparr>instanceID = ''i1'', isCluster = False\<rparr>, \<lparr>instanceID = ''i2'', isCluster = False\<rparr>]. utf8_valid (instanceID rc)"
    "distinct (List.map instanceID [\<lparr>instanceID = ''i1'', isCluster = False\<rparr>, \<lparr>instanceID = ''i2'', isCluster = False\<rparr>])"
  by (simp_all add: utf8_valid.simps is_ascii_def)

lemma two_reached:
  obtains as tr c where "fold (cluster_run shared_env) two_ops (two_instances, []) = (as, tr)"
    and "cluster_reachable shared_env (fresh_cluster plain_settings ''1'' [\<lparr>instanceID = ''i1'', isCluster = False\<rparr>, \<lparr>instanceID = ''i2'', isCluster = False\<rparr>]) (as, tr)"
    and "length as = 2" "subs_rel (as ! 0) = {(''a'', ''1.1'')}" "subs_rel (as ! 1) = {(''a'', ''2.2'')}"
    and "FindChannelByChannelID (as ! 0) ''a'' = Inr c"
proof -
  let ?rcs = "[\<lparr>instanceID = ''i1'', isCluster = False\<rparr>, \<lparr>instanceID = ''i2'', isCluster = False\<rparr>]"
  obtain as tr where r: "fold (cluster_run shared_env) two_ops (two_instances, []) = (as, tr)" by fastforce
  have h0: "List.map hub_of two_instances = [empty_hub, empty_hub]"
    by (simp add: two_instances_def hubs_fresh numeral_2_eq_2)
  have "hubs_legal two_ops [empty_hub, empty_hub]"
    by (simp add: two_ops_def empty_hub_def is_live_def demo_conn_def utf8_valid.simps is_ascii_def IsPresenceChannel_def)
  then have "hubs_legal two_ops (List.map hub_of (fst (fresh_cluster plain_settings ''1'' ?rcs, [])))" using h0 by (simp add: two_instances_def)
  from cluster_runs [OF shared_env_ok(1,2) two_ids(1,3,4) cluster_reachable.start this]
  have reach: "cluster_reachable shared_env (fresh_cluster plain_settings ''1'' ?rcs) (as, tr)"
    and hubs: "List.map hub_of as = fold hubs_run two_ops [empty_hub, empty_hub]"
    using r h0 by (simp_all add: two_instances_def)
  have "List.map subscribed (List.map hub_of as) = [{(''a'', ''1.1'')}, {(''a'', ''2.2'')}]"
    unfolding hubs by (simp add: two_ops_def empty_hub_def is_live_def demo_conn_def)
  then have subs: "List.map subs_rel as = [{(''a'', ''1.1'')}, {(''a'', ''2.2'')}]" by (simp add: hub_of_def comp_def)
  then have len: "length as = 2" "subs_rel (as ! 0) = {(''a'', ''1.1'')}" "subs_rel (as ! 1) = {(''a'', ''2.2'')}"
    by (auto simp: map_eq_Cons_conv)
  then have "(''a'', ''1.1'') \<in> subs_rel (as ! 0)" by simp
  then obtain c where "map_of (channels (as ! 0)) ''a'' = Some c" unfolding subs_rel_def by blast
  then have "FindChannelByChannelID (as ! 0) ''a'' = Inr c" by (simp add: FindChannelByChannelID_def)
  then show ?thesis using that [OF r reach len] by blast
qed

theorem passed_on_when_needed_witness:
  "\<exists>c. let (as, tr) = fold (cluster_run shared_env) two_ops (two_instances, [])
    in FindChannelByChannelID (as ! 0) ''a'' = Inr c \<and> passed_on shared_env c demo_event [] (as ! 0) tr"
proof (rule two_reached)
  fix as tr c
  assume r: "fold (cluster_run shared_env) two_ops (two_instances, []) = (as, tr)"
    and reach: "cluster_reachable shared_env (fresh_cluster plain_settings ''1'' [\<lparr>instanceID = ''i1'', isCluster = False\<rparr>, \<lparr>instanceID = ''i2'', isCluster = False\<rparr>]) (as, tr)"
    and len: "length as = 2" "subs_rel (as ! 0) = {(''a'', ''1.1'')}" "subs_rel (as ! 1) = {(''a'', ''2.2'')}"
    and c: "FindChannelByChannelID (as ! 0) ''a'' = Inr c"
  have v: "unmarshal_any (raw_marshal (raw_Data demo_event)) = Some GNil" by (simp add: demo_event_def) code_simp
  have "\<exists>j < length as. j \<noteq> 0 \<and> (\<exists>sid. (''a'', sid) \<in> subs_rel (as ! j))" using len by (intro exI [of _ 1]) simp
  then have "passed_on shared_env c demo_event [] (as ! 0) tr"
    using passed_on_when_needed [OF shared_env_ok two_ids reach _ c v, of "[]"] len(1) by simp
  then show ?thesis using c by (simp add: r)
qed

end
