(* ===== verification/Cluster_Spec.thy ===== *)
theory Cluster_Spec
  imports Shared_Redis
begin

text \<open>
  What a client can rely on in a cluster, whatever the instances did before: an event published on any
  instance reaches every subscriber on every instance.
\<close>

section \<open>Every channel has a listener\<close>

definition listening :: "application \<Rightarrow> bool" where
  "listening a \<longleftrightarrow> (\<forall>cid. roster a cid \<noteq> None \<longrightarrow> cid \<in> set (pubsubListeners a)) \<and> (\<forall>n \<in> set (pubsubListeners a). plain_id n)"

lemma creates_plain:
  assumes wf: "app_wf a" and c: "creates E cid op (a, tr)" and p: "plain_op op"
  shows "plain_id cid"
proof -
  have new: "roster a cid = None" "roster (fst (run_op E op (a, tr))) cid \<noteq> None" using c by (simp_all add: creates_def)
  show ?thesis
  proof (cases op)
    case (OpSubscribe n sid data)
    then show ?thesis using new p roster_run_subscribe [OF wf, of E n sid data tr] by (auto split: if_splits simp del: run_op.simps)
  next
    case (OpPost n event ig)
    then show ?thesis using new p roster_run_post [of E n event ig a tr] by (auto split: if_splits simp del: run_op.simps)
  next
    case (OpUnsubscribe n sid)
    then show ?thesis
      using new roster_run_unsubscribe [OF wf, of E n sid tr] by (cases "n = cid") (auto simp: leave_def simp del: run_op.simps)
  next
    case (OpDisconnect sid)
    then show ?thesis using new roster_Disconnect [OF wf, of E sid tr] by (auto simp: leave_def)
  qed (use new roster_run_others [of E] in \<open>simp_all del: run_op.simps\<close>)
qed

lemma member_count: "n \<in> set xs \<longleftrightarrow> 0 < count_list xs n"
  using count_list_0_iff [of xs n] by auto

lemma listening_run:
  assumes wf: "app_wf a" and rc: "redisClient a = Some rc" and ok: "subscribes E" and p: "plain_op op" and l: "listening a"
  shows "listening (fst (run_op E op (a, tr)))"
proof -
  let ?a1 = "fst (run_op E op (a, tr))"
  have m: "n \<in> set (pubsubListeners ?a1) \<longleftrightarrow> n \<in> set (pubsubListeners a) \<or> creates E n op (a, tr)" for n
  proof -
    have "count_list (pubsubListeners ?a1) n = count_list (pubsubListeners a) n + (if creates E n op (a, tr) then 1 else 0)"
      using run_op_listeners [OF wf rc ok] by blast
    then show ?thesis unfolding member_count by (simp del: run_op.simps)
  qed
  have "n \<in> set (pubsubListeners ?a1)" if "roster ?a1 n \<noteq> None" for n
    using that l unfolding m by (auto simp: listening_def creates_def)
  moreover have "plain_id n" if "n \<in> set (pubsubListeners ?a1)" for n
    using that l creates_plain [OF wf _ p] unfolding m by (auto simp: listening_def)
  ultimately show ?thesis by (simp add: listening_def)
qed

section \<open>No two instances share a socket\<close>

lemma sockets_of_hub: "sockets_of a = snd ` who (hub_of a)"
  by (force simp: sockets_of_def hub_of_def)

lemma sockets_run:
  assumes "app_wf a" "allowed (op_kind op) (hub_of a)"
  shows "sockets_of (fst (run_op E op (a, tr))) \<subseteq> sockets_of a \<union> (case op of OpConnect conn \<Rightarrow> {Socket conn} | _ \<Rightarrow> {})"
proof -
  have "hub_of (fst (run_op E op (a, tr))) = hub_run (op_kind op) (hub_of a)" using run_op_refines [OF assms] by blast
  then show ?thesis by (cases op) (auto simp: sockets_of_hub)
qed

definition cluster_open :: "application list \<Rightarrow> bool" where
  "cluster_open as \<longleftrightarrow> disjoint_sockets as \<and> (\<forall>a \<in> set as. listening a)"

lemma cluster_open_op:
  assumes inv: "cluster_inv E x rcs (as, tr)" and ok: "subscribes E" and al: "cluster_allowed (InstanceOp i op) as" and o: "cluster_open as"
  shows "cluster_open (fst (cluster_run E (InstanceOp i op) (as, tr)))"
proof -
  obtain a1 tr1 where r: "run_op E op (as ! i, tr) = (a1, tr1)" by fastforce
  have i: "i < length as" and p: "plain_op op" and wf: "app_wf (as ! i)" and rc: "redisClient (as ! i) = Some (rcs ! i)"
    using inv al by (simp_all add: cluster_inv_def sound_instance_def)
  have "listening a1" using listening_run [OF wf rc ok p, of tr] o i r by (simp add: cluster_open_def)
  moreover have "sockets_of a1 \<inter> sockets_of (as ! j) = {}" if j: "j < length as" "j \<noteq> i" for j
  proof -
    have "sockets_of a1 \<subseteq> sockets_of (as ! i) \<union> (case op of OpConnect conn \<Rightarrow> {Socket conn} | _ \<Rightarrow> {})"
      using sockets_run [OF wf instance_allowed [OF al], of E tr] r by simp
    moreover have "sockets_of (as ! i) \<inter> sockets_of (as ! j) = {}" using o i j by (auto simp: cluster_open_def disjoint_sockets_def)
    moreover have "Socket conn \<notin> sockets_of (as ! j)" if "op = OpConnect conn" for conn
      using al j(1) that by (auto simp: fresh_connection_def sockets_of_def)
    ultimately show ?thesis by (cases op) auto
  qed
  ultimately show ?thesis
    using o i set_update_subset_insert [of as i a1]
    by (auto simp: cluster_open_def r disjoint_sockets_def nth_list_update Int_commute)
qed


lemma cluster_stays_open:
  assumes E: "redis_accepts E" "clock_ok E" "subscribes E" and x: "plain_id x" "utf8_valid x"
    and u: "\<forall>rc \<in> set rcs. utf8_valid (instanceID rc)" and r: "cluster_reachable E (fresh_cluster cf x rcs) s"
  shows "cluster_open (fst s)"
  using r
proof (induction rule: cluster_reachable.induct)
  case start
  show ?case
    by (auto simp: cluster_open_def fresh_cluster_def disjoint_sockets_def sockets_of_def listening_def roster_def)
      (simp_all add: empty_application_def)
next
  case (step s op)
  obtain as tr where s: "s = (as, tr)" by fastforce
  have "cluster_inv E x rcs (as, tr)" using cluster_invariant [OF E(1,2) x u] step.hyps s by blast
  then show ?case using step cluster_open_op [OF _ E(3)] unfolding s by (cases op) auto
qed

section \<open>Delivery\<close>

text \<open>
  Claim C4: whatever the instances of a cluster did before, an event published on one of them
  reaches every subscriber of the channel on every instance, and nobody else. A subscriber of another
  instance is sent it once for each listener its instance runs for the channel, which is at least
  once (and once, if the channel was created once). A subscriber of the publishing instance is sent it
  once if no other instance has a subscriber; but if one has, the publishing instance hears its own
  message as well and sends the event again, once for each of its listeners. Redis does what it is
  asked and nothing has expired; the operations are those of \<open>cluster_allowed\<close>.
\<close>

theorem cluster_delivery:
  assumes E: "redis_accepts E" "clock_ok E" "redis_serves clk E" "subscribes E" "sockets_ok E"
    and ids: "plain_id x" "plain_id cid" "utf8_valid x" "\<forall>rc \<in> set rcs. utf8_valid (instanceID rc)" "distinct (List.map instanceID rcs)"
    and reach: "cluster_reachable E (fresh_cluster cf x rcs) (as, tr)"
    and ij: "i < length as" "j < length as"
    and c: "FindChannelByChannelID (as ! i) cid = Inr c" and v: "unmarshal_any (raw_marshal (raw_Data event)) = Some v"
    and enc: "utf8_valid (raw_Event event)" "utf8_valid (raw_Channel event)" "utf8_valid ignore" "gval_ok v" "int (gdepth v) < 10000"
    and conn: "FindConnection (as ! j) k = Inr conn" and k: "k \<noteq> []" "k \<noteq> ignore"
  shows "written (Socket conn) (snd (cluster_publish E i c event ignore as tr)) = written (Socket conn) tr
      @ (if (cid, k) \<in> subs_rel (as ! j)
         then replicate (copies (j = i) (\<exists>l < length as. l \<noteq> i \<and> (\<exists>sid. (cid, sid) \<in> subs_rel (as ! l))) cid (as ! j))
                (NewResponse (raw_Event event) (raw_Channel event) v)
         else [])
    \<and> ((cid, k) \<in> subs_rel (as ! j) \<longrightarrow> 1 \<le> count_list (pubsubListeners (as ! j)) cid)"
proof -
  note inv = cluster_invariant [OF E(1,2) ids(1,3,4) reach]
  have o: "cluster_open as" using cluster_stays_open [OF E(1,2,4) ids(1,3,4) reach] by simp
  have "instance_ok x a" if "a \<in> set as" for a
    using that inv o by (auto simp: instance_ok_def cluster_inv_def sound_instance_def cluster_open_def listening_def in_set_conv_nth)
  moreover have "disjoint_sockets as" using o by (simp add: cluster_open_def)
  moreover have "1 \<le> count_list (pubsubListeners (as ! j)) cid" if "(cid, k) \<in> subs_rel (as ! j)"
  proof -
    have "roster (as ! j) cid \<noteq> None" using that by (auto simp: roster_def subs_rel_def)
    then have "cid \<in> set (pubsubListeners (as ! j))" using o ij(2) by (simp add: cluster_open_def listening_def)
    then show ?thesis by (simp add: member_count)
  qed
  ultimately show ?thesis
    using cluster_copies [OF _ _ E(5) ids(1,2) ij c v enc conn k, of tr] passes_on [OF E(1-3) ids reach ij(1) c v, of ignore] by simp
qed

lemma shared_env_open: "subscribes shared_env" "sockets_ok shared_env"
  by (simp_all add: subscribes_def sockets_ok_def shared_env_def redis_env_def demo_answers_def succeeded_def)


theorem cluster_delivery_witness:
  "\<exists>c conn n. let (as, tr) = fold (cluster_run shared_env) two_ops (two_instances, [])
    in FindConnection (as ! 1) ''2.2'' = Inr conn \<and> FindChannelByChannelID (as ! 0) ''a'' = Inr c \<and> 1 \<le> n
      \<and> written (Socket conn) (snd (cluster_publish shared_env 0 c demo_event [] as tr))
          = written (Socket conn) tr @ replicate n (NewResponse ''client-a'' ''presence-a'' GNil)"
proof (rule two_reached)
  fix as tr c
  assume r: "fold (cluster_run shared_env) two_ops (two_instances, []) = (as, tr)"
    and reach: "cluster_reachable shared_env (fresh_cluster plain_settings ''1'' [\<lparr>instanceID = ''i1'', isCluster = False\<rparr>, \<lparr>instanceID = ''i2'', isCluster = False\<rparr>]) (as, tr)"
    and len: "length as = 2" "subs_rel (as ! 0) = {(''a'', ''1.1'')}" "subs_rel (as ! 1) = {(''a'', ''2.2'')}"
    and c: "FindChannelByChannelID (as ! 0) ''a'' = Inr c"
  have "app_wf (as ! 1)"
    using cluster_invariant [OF shared_env_ok(1,2) two_ids(1,3,4) reach] len(1) by (simp add: cluster_inv_def sound_instance_def)
  then have "''2.2'' \<in> live (as ! 1)" using subs_live [of "as ! 1" "''a''"] len(3) by simp
  then obtain conn where conn: "FindConnection (as ! 1) ''2.2'' = Inr conn"
    unfolding FindConnection_def live_def by (cases "map_of (connections (as ! 1)) ''2.2''") (auto simp: map_of_None_keys)
  have v: "unmarshal_any (raw_marshal (raw_Data demo_event)) = Some GNil" by (simp add: demo_event_def) code_simp
  have enc: "utf8_valid (raw_Event demo_event)" "utf8_valid (raw_Channel demo_event)" "utf8_valid []" "gval_ok GNil" "int (gdepth GNil) < 10000"
    by (simp_all add: demo_event_def utf8_valid.simps is_ascii_def)
  have "\<exists>l < length as. l \<noteq> 0 \<and> (\<exists>sid. (''a'', sid) \<in> subs_rel (as ! l))" using len by (intro exI [of _ 1]) simp
  then have "1 \<le> count_list (pubsubListeners (as ! 1)) ''a''"
    "written (Socket conn) (snd (cluster_publish shared_env 0 c demo_event [] as tr)) = written (Socket conn) tr
      @ replicate (count_list (pubsubListeners (as ! 1)) ''a'') (NewResponse ''client-a'' ''presence-a'' GNil)"
    using cluster_delivery [OF shared_env_ok shared_env_open two_ids reach, of 0 1 c demo_event GNil "[]" "''2.2''" conn, OF _ _ c v enc conn] len
    by (simp_all add: copies_def demo_event_def)
  then show ?thesis using conn c by (simp add: r)
qed

end
