(* ===== verification/Wire_Frames.thy ===== *)
theory Wire_Frames
  imports Wire
begin

text \<open>
  What a peer reads: every frame the server sends (\<open>src/events/events.go\<close>) decodes to the event, the
  channel and the data it was made of, and so does the text inside the data.
\<close>

section \<open>Decimal numerals are numbers\<close>

lemma udec_head: "0 < n \<Longrightarrow> hd (udec n) \<noteq> CHR ''0''"
proof (induction n rule: udec.induct)
  case (1 n)
  show ?case
  proof (cases "n < 10")
    case True
    then have "n \<in> {1, 2, 3, 4, 5, 6, 7, 8, 9}" using 1(2) by auto
    then show ?thesis using True by (auto simp: udec.simps [of n] digit_char_def)
  next
    case False
    then show ?thesis using 1 by (simp add: udec.simps [of n])
  qed
qed

lemma udec_no_leading_zero: "0 \<le> n \<Longrightarrow> length (udec n) > 1 \<Longrightarrow> hd (udec n) \<noteq> CHR ''0''"
  using udec_head [of n] by (cases "n = 0") (simp_all add: udec.simps)

lemma json_number_udec:
  assumes "0 \<le> n"
  shows "json_number (udec n) \<noteq> None" "json_number (CHR ''-'' # udec n) \<noteq> None"
proof -
  have d: "takeWhile is_digit (udec n) = udec n" "dropWhile is_digit (udec n) = []"
    using udec_digits [OF assms] by (auto simp: takeWhile_eq_all_conv dropWhile_eq_Nil_conv)
  obtain c cs where u: "udec n = c # cs" by (cases "udec n") simp_all
  have "is_digit c" using udec_digits [of n c] u assms by simp
  then have m: "c \<noteq> CHR ''-''" by (auto simp: is_digit_def)
  have z: "\<not> (length (udec n) > 1 \<and> hd (udec n) = CHR ''0'')" using udec_no_leading_zero [OF assms] by blast
  have "(case udec n of c # t \<Rightarrow> if c = CHR ''-'' then (True, t) else (False, udec n) | [] \<Rightarrow> (False, [])) = (False, udec n)"
    using u m by simp
  then show "json_number (udec n) \<noteq> None" using z by (auto simp: json_number_def d)
  show "json_number (CHR ''-'' # udec n) \<noteq> None" using z by (auto simp: json_number_def d)
qed

lemma json_number_int_dec: "json_number (int_dec n) \<noteq> None"
  using json_number_udec [of n] json_number_udec [of "- n"] by (simp add: int_dec_def)

lemma reads_int [simp]: "reads d (int_dec n) (JNum (int_dec n))"
  using reads_mono [OF reads_number [OF json_number_int_dec [of n]], of d] by simp

lemma atoi_int_dec:
  assumes "- (2 ^ 63) \<le> n" "n < 2 ^ 63"
  shows "strconv_atoi (int_dec n) = Some n"
proof (cases "n < 0")
  case True
  have "list_all is_digit (udec (- n))" using True udec_digits [of "- n"] by (auto simp: list_all_iff)
  then show ?thesis using True assms by (simp add: strconv_atoi_def int_dec_def)
next
  case False
  then show ?thesis using strconv_atoi_udec [of n] assms by (simp add: int_dec_def)
qed

section \<open>What a peer decodes\<close>

fun decode_int :: "int \<Rightarrow> json \<Rightarrow> int option" where
  "decode_int old (JNum t) = strconv_atoi t"
| "decode_int old JNull = Some old"
| "decode_int old j = None"

text \<open>A field \<open>*int\<close>: \<open>null\<close> is the nil pointer.\<close>

fun decode_int_pointer :: "json \<Rightarrow> int option option" where
  "decode_int_pointer JNull = Some None"
| "decode_int_pointer (JNum t) = map_option Some (strconv_atoi t)"
| "decode_int_pointer j = None"

definition int_field :: "string \<Rightarrow> (string \<times> string \<times> json) list \<Rightarrow> int \<Rightarrow> int option" where
  "int_field name = decode_field name (\<lambda>old raw j. decode_int old j)"

definition unmarshal_string :: "string \<Rightarrow> string option" where
  "unmarshal_string t = (case json_parse t of None \<Rightarrow> None | Some j \<Rightarrow> decode_string [] j)"

definition unmarshal_error_data :: "string \<Rightarrow> (int option \<times> string) option" where
  "unmarshal_error_data t =
     (case unmarshal_members t of None \<Rightarrow> None
      | Some ms \<Rightarrow>
          (case (decode_field ''code'' (\<lambda>old raw j. decode_int_pointer j) ms None, string_field ''message'' ms []) of
             (Some c, Some m) \<Rightarrow> Some (c, m) | _ \<Rightarrow> None))"

text \<open>The data of \<open>connection_established\<close>, \<open>member_removed\<close> and a subscription that succeeded.\<close>

definition unmarshal_established :: "string \<Rightarrow> (string \<times> int) option" where
  "unmarshal_established t =
     (case unmarshal_members t of None \<Rightarrow> None
      | Some ms \<Rightarrow> (case (string_field ''socket_id'' ms [], int_field ''activity_timeout'' ms 0) of
                      (Some s, Some n) \<Rightarrow> Some (s, n) | _ \<Rightarrow> None))"

definition unmarshal_removed :: "string \<Rightarrow> string option" where
  "unmarshal_removed t = (case unmarshal_members t of None \<Rightarrow> None | Some ms \<Rightarrow> string_field ''user_id'' ms [])"

fun decode_strings :: "json list \<Rightarrow> string list option" where
  "decode_strings [] = Some []"
| "decode_strings (j # js) = (case (decode_string [] j, decode_strings js) of (Some s, Some ss) \<Rightarrow> Some (s # ss) | _ \<Rightarrow> None)"

fun decode_ids :: "json \<Rightarrow> string list option" where
  "decode_ids JNull = Some []"
| "decode_ids (JArr js) = decode_strings js"
| "decode_ids j = None"

fun decode_hash :: "json \<Rightarrow> (string \<times> gval) list option" where
  "decode_hash JNull = Some []"
| "decode_hash (JObj ms) = gmembers_of ms []"
| "decode_hash j = None"

definition decode_presence :: "json \<Rightarrow> SubscriptionSucceededPresenceData option" where
  "decode_presence j =
     (case struct_members j of None \<Rightarrow> None
      | Some ms \<Rightarrow>
          (case (decode_field ''ids'' (\<lambda>old raw j. decode_ids j) ms [], decode_field ''hash'' (\<lambda>old raw j. decode_hash j) ms [],
                 int_field ''count'' ms 0) of
             (Some i, Some h, Some n) \<Rightarrow> Some \<lparr>pd_IDs = i, pd_Hash = h, pd_Count = n\<rparr>
           | _ \<Rightarrow> None))"

definition unmarshal_presence :: "string \<Rightarrow> SubscriptionSucceededPresenceData option" where
  "unmarshal_presence t =
     (case unmarshal_members t of None \<Rightarrow> None
      | Some ms \<Rightarrow> decode_field ''presence'' (\<lambda>old raw j. decode_presence j) ms \<lparr>pd_IDs = [], pd_Hash = [], pd_Count = 0\<rparr>)"

section \<open>Frames\<close>

fun message_event :: "message \<Rightarrow> string" where
  "message_event (SubscriptionSucceeded e c d) = e"
| "message_event (Pong e d) = e"
| "message_event (Ping e d) = e"
| "message_event (ErrorEvent e code m) = e"
| "message_event (ConnectionEstablished e d) = e"
| "message_event (MemberAdded e c d) = e"
| "message_event (MemberRemoved e c d) = e"
| "message_event (Response e c d) = e"

text \<open>Frames of a channel name it; for the others the field of a peer stays empty.\<close>

fun message_channel :: "message \<Rightarrow> string" where
  "message_channel (SubscriptionSucceeded e c d) = c"
| "message_channel (MemberAdded e c d) = c"
| "message_channel (MemberRemoved e c d) = c"
| "message_channel (Response e c d) = c"
| "message_channel m = []"

text \<open>How the data reads: as a string, as the data of an error, or as any value.\<close>

fun carries :: "message \<Rightarrow> string \<Rightarrow> bool" where
  "carries (ErrorEvent e code m) t \<longleftrightarrow> unmarshal_error_data t = Some (code, m)"
| "carries (Response e c d) t \<longleftrightarrow> unmarshal_any t = Some d"
| "carries (SubscriptionSucceeded e c d) t \<longleftrightarrow> unmarshal_string t = Some d"
| "carries (Pong e d) t \<longleftrightarrow> unmarshal_string t = Some d"
| "carries (Ping e d) t \<longleftrightarrow> unmarshal_string t = Some d"
| "carries (ConnectionEstablished e d) t \<longleftrightarrow> unmarshal_string t = Some d"
| "carries (MemberAdded e c d) t \<longleftrightarrow> unmarshal_string t = Some d"
| "carries (MemberRemoved e c d) t \<longleftrightarrow> unmarshal_string t = Some d"

definition int64 :: "int \<Rightarrow> bool" where
  "int64 n \<longleftrightarrow> - (2 ^ 63) \<le> n \<and> n < 2 ^ 63"

text \<open>The texts are UTF-8, codes fit a Go \<open>int\<close>, and the value of a response is not nested too deep for the decoder.\<close>

fun payload_ok :: "message \<Rightarrow> bool" where
  "payload_ok (ErrorEvent e code m) \<longleftrightarrow> utf8_valid m \<and> (case code of None \<Rightarrow> True | Some c \<Rightarrow> int64 c)"
| "payload_ok (Response e c d) \<longleftrightarrow> gval_ok d \<and> int (gdepth d) < 10000"
| "payload_ok (SubscriptionSucceeded e c d) \<longleftrightarrow> utf8_valid d"
| "payload_ok (Pong e d) \<longleftrightarrow> utf8_valid d"
| "payload_ok (Ping e d) \<longleftrightarrow> utf8_valid d"
| "payload_ok (ConnectionEstablished e d) \<longleftrightarrow> utf8_valid d"
| "payload_ok (MemberAdded e c d) \<longleftrightarrow> utf8_valid d"
| "payload_ok (MemberRemoved e c d) \<longleftrightarrow> utf8_valid d"

definition message_ok :: "message \<Rightarrow> bool" where
  "message_ok m \<longleftrightarrow> utf8_valid (message_event m) \<and> utf8_valid (message_channel m) \<and> payload_ok m"

lemma reads_quote_at [simp]: "utf8_valid s \<Longrightarrow> reads d (json_quote s) (JStr s)"
  using reads_mono [OF reads_quote, of s d] by simp

lemma raw_field_simps [wire_simps]:
  "raw_field n [] old = Some old"
  "raw_field n ((k, raw, j) # ms) old = (if field_matches n k then raw_field n ms (Some raw) else raw_field n ms old)"
  by (simp_all add: raw_field_def)

lemma int_field_simps [wire_simps]:
  "int_field n [] old = Some old"
  "int_field n ((k, raw, j) # ms) old =
     (if field_matches n k then (case decode_int old j of None \<Rightarrow> None | Some v \<Rightarrow> int_field n ms v)
      else int_field n ms old)"
  by (cases "decode_int old j"; simp add: int_field_def)+

lemma raw_without_channel:
  assumes "utf8_valid e" "reads d t j" "int d < 10000"
  shows "unmarshal_raw (json_object [(''event'', json_quote e), (''data'', t)])
    = Some \<lparr>raw_Event = e, raw_Channel = [], raw_Data = Some t\<rparr>"
proof -
  have "list_all2 (field_reads d) [(''event'', json_quote e), (''data'', t)] [JStr e, j]" using assms by simp
  from object_members(1) [OF this assms(3)] show ?thesis by (simp add: unmarshal_raw_def wire_simps)
qed

lemma raw_with_channel:
  assumes "utf8_valid e" "utf8_valid c" "reads d t j" "int d < 10000"
  shows "unmarshal_raw (json_object [(''event'', json_quote e), (''channel'', json_quote c), (''data'', t)])
    = Some \<lparr>raw_Event = e, raw_Channel = c, raw_Data = Some t\<rparr>"
proof -
  have "list_all2 (field_reads d) [(''event'', json_quote e), (''channel'', json_quote c), (''data'', t)] [JStr e, JStr c, j]"
    using assms by simp
  from object_members(1) [OF this assms(4)] show ?thesis by (simp add: unmarshal_raw_def wire_simps)
qed

lemma string_payload: "utf8_valid d \<Longrightarrow> unmarshal_string (json_quote d) = Some d"
  using reads_parse [OF reads_quote, of d] by (simp add: unmarshal_string_def)

definition code_value :: "int option \<Rightarrow> json" where
  "code_value code = (case code of None \<Rightarrow> JNull | Some c \<Rightarrow> JNum (int_dec c))"

lemma code_reads: "reads 0 (case code of None \<Rightarrow> ''null'' | Some c \<Rightarrow> int_dec c) (code_value code)"
  by (simp add: code_value_def reads_null split: option.split)

lemma code_back:
  "(case code of None \<Rightarrow> True | Some c \<Rightarrow> int64 c) \<Longrightarrow> decode_int_pointer (code_value code) = Some code"
  by (auto simp: code_value_def int64_def atoi_int_dec split: option.splits)

lemma error_payload:
  assumes "utf8_valid m" "case code of None \<Rightarrow> True | Some c \<Rightarrow> int64 c"
  shows "unmarshal_error_data (marshal_error_data code m) = Some (code, m)"
    "\<exists>j. reads 1 (marshal_error_data code m) j"
proof -
  let ?fs = "[(''code'', case code of None \<Rightarrow> ''null'' | Some c \<Rightarrow> int_dec c), (''message'', json_quote m)]"
  have r: "list_all2 (field_reads 0) ?fs [code_value code, JStr m]" using code_reads [of code] assms(1) by simp
  from object_members(1) [OF r] show "unmarshal_error_data (marshal_error_data code m) = Some (code, m)"
    using code_back [OF assms(2)] by (simp add: unmarshal_error_data_def marshal_error_data_def wire_simps)
  show "\<exists>j. reads 1 (marshal_error_data code m) j"
    using object_members(2) [OF r] by (auto simp: marshal_error_data_def)
qed

lemma frame_readable:
  assumes "message_ok m"
  shows "\<exists>t. unmarshal_raw (marshal_message m)
      = Some \<lparr>raw_Event = message_event m, raw_Channel = message_channel m, raw_Data = Some t\<rparr> \<and> carries m t"
proof (cases m)
  case (ErrorEvent e code msg)
  then have ok: "utf8_valid msg" "case code of None \<Rightarrow> True | Some c \<Rightarrow> int64 c" "utf8_valid e"
    using assms by (simp_all add: message_ok_def)
  obtain j where j: "reads 1 (marshal_error_data code msg) j" using error_payload(2) [OF ok(1,2)] by blast
  show ?thesis
    using raw_without_channel [OF ok(3) j] error_payload(1) [OF ok(1,2)]
    by (simp add: ErrorEvent marshal_message_defs)
next
  case (Response e c d)
  then have ok: "gval_ok d" "int (gdepth d) < 10000" "utf8_valid e" "utf8_valid c"
    using assms by (simp_all add: message_ok_def)
  have "unmarshal_any (marshal d) = Some d"
    using reads_parse [OF marshal_reads [OF ok(1)]] gval_of_json_of [OF ok(1)] ok(2) by (simp add: unmarshal_any_def)
  then show ?thesis
    using raw_with_channel [OF ok(3,4) marshal_reads [OF ok(1)] ok(2)] by (simp add: Response marshal_message_defs)
qed (use assms in \<open>simp_all add: message_ok_def marshal_message_defs string_payload
       raw_with_channel [OF _ _ reads_quote] raw_without_channel [OF _ reads_quote]\<close>)

section \<open>The text inside the data\<close>

lemma established_back:
  assumes "utf8_valid sid"
  shows "unmarshal_established (json_object [(''socket_id'', json_quote sid), (''activity_timeout'', int_dec 120)]) = Some (sid, 120)"
proof -
  have "list_all2 (field_reads 0) [(''socket_id'', json_quote sid), (''activity_timeout'', int_dec 120)] [JStr sid, JNum (int_dec 120)]"
    using assms by simp
  from object_members(1) [OF this] show ?thesis by (simp add: unmarshal_established_def wire_simps atoi_int_dec)
qed

lemma removed_back:
  assumes "utf8_valid uid"
  shows "unmarshal_removed (json_object [(''user_id'', json_quote uid)]) = Some uid"
proof -
  have "list_all2 (field_reads 0) [(''user_id'', json_quote uid)] [JStr uid]" using assms by simp
  from object_members(1) [OF this] show ?thesis by (simp add: unmarshal_removed_def wire_simps)
qed

text \<open>The roster of a presence channel.\<close>

definition presence_ok :: "SubscriptionSucceededPresenceData \<Rightarrow> bool" where
  "presence_ok p \<longleftrightarrow> list_all utf8_valid (pd_IDs p) \<and> gval_ok (GMap (pd_Hash p)) \<and> int64 (pd_Count p)
     \<and> int (gdepth (GMap (pd_Hash p))) < 9999"

definition ids_value :: "string list \<Rightarrow> json" where
  "ids_value ids = (if ids = [] then JNull else JArr (List.map JStr ids))"

lemma decode_strings_map [simp]: "decode_strings (List.map JStr ids) = Some ids"
  by (induction ids) simp_all

lemma decode_ids_value [simp]: "decode_ids (ids_value ids) = Some ids"
  by (simp add: ids_value_def)

lemma ids_read:
  assumes "list_all utf8_valid ids" "1 \<le> d"
  shows "reads d (if ids = [] then ''null'' else json_array (List.map json_quote ids)) (ids_value ids)"
proof -
  have "list_all2 (reads 0) (List.map json_quote ids) (List.map JStr ids)"
    using assms(1) by (simp add: list_all2_conv_all_nth list_all_length)
  from reads_array [OF this] have "reads d (json_array (List.map json_quote ids)) (JArr (List.map JStr ids))"
    using assms(2) by (simp add: reads_mono)
  then show ?thesis using reads_mono [OF reads_null] by (simp add: ids_value_def)
qed

lemma hash_back:
  assumes "gval_ok (GMap h)"
  shows "decode_hash (json_of (GMap h)) = Some h"
  using gval_of_json_of [OF assms] by simp

lemma presence_back:
  assumes "presence_ok p"
  shows "unmarshal_presence (marshal_presence p) = Some p"
proof -
  let ?h = "GMap (pd_Hash p)"
  let ?d = "gdepth ?h"
  let ?fs = "[(''ids'', if pd_IDs p = [] then ''null'' else json_array (List.map json_quote (pd_IDs p))),
    (''hash'', marshal ?h), (''count'', int_dec (pd_Count p))]"
  let ?js = "[ids_value (pd_IDs p), json_of ?h, JNum (int_dec (pd_Count p))]"
  note ok = assms [unfolded presence_ok_def]
  have c: "strconv_atoi (int_dec (pd_Count p)) = Some (pd_Count p)" using ok atoi_int_dec by (simp add: int64_def)
  have "list_all2 (field_reads ?d) ?fs ?js"
    using ok ids_read [of "pd_IDs p" ?d] marshal_reads [of ?h] by (simp del: marshal.simps json_of.simps)
  note inner = object_members(2) [OF this]
  have in_d: "decode_presence (JObj (members ?fs ?js)) = Some p"
    using ok hash_back [of "pd_Hash p"] c
    by (simp add: decode_presence_def wire_simps del: marshal.simps json_of.simps gval_ok.simps)
  have "list_all2 (field_reads (Suc ?d)) [(''presence'', json_object ?fs)] [JObj (members ?fs ?js)]"
    using inner ok by simp
  from object_members(1) [OF this] show ?thesis
    using in_d ok by (simp add: unmarshal_presence_def marshal_presence_def wire_simps del: marshal.simps json_of.simps)
qed

text \<open>
  Claim C26: a peer can read every frame the server sends: decoded into the struct \<open>Raw\<close> it has the
  event and the channel it was made of (no channel for frames that belong to none), and its data
  decodes in turn to the text, the error code and message (\<open>null\<close> where there is no code) or the
  value that was put into the frame. The text inside the data decodes as well: the greeting gives the
  socket id and an activity timeout of 120, \<open>member_removed\<close> the user id, and the roster of a presence
  channel its ids, the user infos and the count.
\<close>

theorem server_frames_readable:
  assumes "message_ok m" "utf8_valid sid" "utf8_valid uid" "presence_ok p"
  shows "(\<exists>t. unmarshal_raw (marshal_message m)
        = Some \<lparr>raw_Event = message_event m, raw_Channel = message_channel m, raw_Data = Some t\<rparr> \<and> carries m t)
    \<and> (\<exists>t. NewConnectionEstablished sid = ConnectionEstablished ''pusher:connection_established'' t
         \<and> unmarshal_established t = Some (sid, 120))
    \<and> (\<exists>t. NewMemberRemoved c uid = MemberRemoved ''pusher_internal:member_removed'' c t \<and> unmarshal_removed t = Some uid)
    \<and> unmarshal_presence (marshal_presence p) = Some p"
  using frame_readable [OF assms(1)] established_back [OF assms(2)] removed_back [OF assms(3)] presence_back [OF assms(4)]
  by (simp add: NewConnectionEstablished_def NewMemberRemoved_def)

definition demo_roster :: SubscriptionSucceededPresenceData where
  "demo_roster = \<lparr>pd_IDs = [''u1''], pd_Hash = [(''u1'', GMap [(''name'', GStr ''Ann'')])], pd_Count = 1\<rparr>"

theorem server_frames_readable_witness:
  "(\<exists>t. unmarshal_raw (marshal_message (NewError 0 ''x''))
      = Some \<lparr>raw_Event = message_event (NewError 0 ''x''), raw_Channel = message_channel (NewError 0 ''x''), raw_Data = Some t\<rparr>
      \<and> carries (NewError 0 ''x'') t)
    \<and> (\<exists>t. NewConnectionEstablished ''1.1'' = ConnectionEstablished ''pusher:connection_established'' t
            \<and> unmarshal_established t = Some (''1.1'', 120))
    \<and> (\<exists>t. NewMemberRemoved ''presence-a'' ''u1'' = MemberRemoved ''pusher_internal:member_removed'' ''presence-a'' t
          \<and> unmarshal_removed t = Some ''u1'')
    \<and> unmarshal_presence (marshal_presence demo_roster) = Some demo_roster"
  by (rule server_frames_readable)
     (simp_all add: message_ok_def NewError_def presence_ok_def demo_roster_def int64_def is_ascii_def utf8_valid.simps)

end
