(* ===== verification/Subscribing.thy ===== *)
theory Subscribing
  imports Api_Spec Wire_Frames
begin

text \<open>
  A client that wants in: the frame it sends, encoded by \<open>events\<close>, signed as the protocol asks, read by
  the loop, handled, and answered.
\<close>

declare utf8_valid.simps [simp del]

section \<open>Names survive\<close>

lemma strip_one_name:
  assumes "\<forall>p \<in> set ps. p \<noteq> [] \<and> \<not> channel_name_char (hd p)" "list_all channel_name_char s"
  shows "strip_one ps s = None"
  using assms
proof (induction ps)
  case (Cons p ps)
  have "\<not> has_prefix s p"
  proof
    assume "has_prefix s p"
    then obtain t where "s = p @ t" by (auto simp: has_prefix_iff)
    then show False using Cons.prems by (cases p) auto
  qed
  then show ?case using Cons by simp
qed simp

lemma trim_left_name:
  assumes "\<forall>p \<in> set ps. p \<noteq> [] \<and> \<not> channel_name_char (hd p)" "list_all channel_name_char s"
  shows "trim_left_runes ps s = s"
  using strip_one_name [OF assms] by (simp add: trim_left_runes.simps)

lemma space_runes_first: "\<forall>p \<in> set space_runes. p \<noteq> [] \<and> \<not> channel_name_char (hd p)"
  by (simp add: space_runes_def channel_name_char_def is_lower_def is_upper_def is_digit_def)

lemma space_runes_last: "\<forall>p \<in> set (List.map rev space_runes). p \<noteq> [] \<and> \<not> channel_name_char (hd p)"
  by (simp add: space_runes_def channel_name_char_def is_lower_def is_upper_def is_digit_def)

lemma trim_valid_name: "IsChannelNameValid n \<Longrightarrow> strings_trim_space n = n"
  using trim_left_name [OF space_runes_first, of n] trim_left_name [OF space_runes_last, of "rev n"]
  by (simp add: IsChannelNameValid_def strings_trim_space_def list_all_rev)

section \<open>What the newcomer is sent\<close>

lemma written_app_Subscribe:
  "fst (app_Subscribe E c conn data a tr) = fst (channel_Subscribe E c conn data tr)"
  "written h (snd (snd (app_Subscribe E c conn data a tr))) = written h (snd (snd (channel_Subscribe E c conn data tr)))"
  by (simp_all add: app_Subscribe_def Let_def redis_quiet_simps split: prod.split option.split)

text \<open>The socket of a connection is its own.\<close>

lemma socket_owner:
  assumes wf: "app_wf a" and c: "map_of (channels a) cid = Some c" and conn: "map_of (connections a) sid = Some conn"
    and s: "(k, s) \<in> set (subscriptions c)" "Socket (sub_Connection s) = Socket conn"
  shows "k = sid"
proof -
  have i: "inj_on (\<lambda>kc. Socket (snd kc)) (set (connections a))" using wf by (simp add: app_wf_defs distinct_map)
  have "(k, sub_Connection s) \<in> set (connections a)" using app_wf_channel(3) [OF wf c s(1)] by (rule map_of_SomeD)
  from inj_onD [OF i _ this map_of_SomeD [OF conn]] s(2) show ?thesis by simp
qed

text \<open>The confirmation: on a presence channel with the roster.\<close>

definition confirmation :: "channel \<Rightarrow> message" where
  "confirmation c = NewSubscriptionSucceeded (chan_ID c)
     (if IsPresence c then marshal_presence (NewSubscriptionSucceedPresenceData (subscriptions c)) else ''{}'')"

lemma newcomer_confirmed:
  assumes wf: "chan_wf c" and ok: "sockets_ok E"
    and own: "\<And>k s. (k, s) \<in> set (subscriptions c) \<Longrightarrow> Socket (sub_Connection s) = Socket conn \<Longrightarrow> k = SocketID conn"
    and data: "IsPresence c \<Longrightarrow> unmarshal_member data \<noteq> None"
  shows "fst (channel_Subscribe E c conn data tr) = None
    \<and> written (Socket conn) (snd (snd (channel_Subscribe E c conn data tr)))
        = written (Socket conn) tr @ [confirmation (fst (snd (channel_Subscribe E c conn data tr)))]"
proof (cases "IsPresence c")
  case True
  then obtain uid info where m: "unmarshal_member data = Some (uid, info)" using data by auto
  define s where "s = \<lparr>sub_Connection = conn, sub_ID = uid, sub_Data = raw_marshal info\<rparr>"
  have q: "listeners_quiet c" "listeners_quiet (put_subscription (SocketID conn) s c)"
    using wf by (simp_all add: chan_wf_def listeners_quiet_def)
  have none: "List.filter (\<lambda>ks. sub_socket ks = Socket conn) (List.filter (\<lambda>(k, s). k \<noteq> SocketID conn) (subscriptions c)) = []"
    using own by (force simp: filter_empty_conv)
  have p: "IsPresence (put_subscription (SocketID conn) s c)" using True by (simp add: IsPresence_def)
  show ?thesis
    unfolding channel_Subscribe_member [OF True m s_def refl]
    using p q ok none by (simp add: notify_occupied_obs connection_Publish_obs quiet_simps member_added_others [OF ok] confirmation_def)
next
  case False
  have q: "listeners_quiet (put_subscription (SocketID conn) (subscription_New conn data) c)"
    using wf by (simp add: chan_wf_def listeners_quiet_def)
  have "\<not> IsPresence (put_subscription (SocketID conn) (subscription_New conn data) c)" using False by (simp add: IsPresence_def)
  then show ?thesis
    using q ok by (simp add: channel_Subscribe_def Let_def notify_occupied_obs connection_Publish_obs confirmation_def)
qed

section \<open>From the frame to the answer\<close>

lemma valid_name_utf8:
  assumes "IsChannelNameValid n"
  shows "utf8_valid n"
proof (rule ascii_valid)
  have "is_ascii c" if "channel_name_char c" for c
    using that by (auto simp: channel_name_char_def is_ascii_def is_upper_def is_lower_def is_digit_def)
  then show "list_all is_ascii n" using assms by (auto simp: IsChannelNameValid_def list_all_iff)
qed

lemma subscribe_event:
  assumes "utf8_valid ev" "utf8_valid c" "utf8_valid a" "utf8_valid d"
  shows "unmarshal_event old (marshal_subscribe \<lparr>sub_Event = ev, sub_EvData = \<lparr>sd_Channel = c, sd_Auth = a, sd_ChannelData = d\<rparr>\<rparr>) = Some ev"
proof -
  let ?fs = "(''channel'', json_quote c) # omitempty ''auth'' a @ omitempty ''channel_data'' d"
  let ?js = "JStr c # omitted ''auth'' a @ omitted ''channel_data'' d"
  have "list_all2 (field_reads 1) [(''event'', json_quote ev), (''data'', json_object ?fs)] [JStr ev, JObj (members ?fs ?js)]"
    using assms subscribe_data_reads [OF assms(2,3,4)] reads_mono [OF reads_quote, of ev 1] by simp
  from object_members(1) [OF this] show ?thesis
    by (simp add: unmarshal_event_def marshal_subscribe_def wire_simps)
qed

definition needs_auth :: "string \<Rightarrow> bool" where
  "needs_auth n \<longleftrightarrow> IsPresenceChannel n \<or> IsPrivateChannel n"

text \<open>What the owner of the application gives a client to present.\<close>

definition auth_for :: "string \<Rightarrow> string \<Rightarrow> string \<Rightarrow> string \<Rightarrow> string \<Rightarrow> string" where
  "auth_for key secret sid n data = key @ '':'' @
     HashMAC (strings_join ([sid, n] @ (if IsPresenceChannel n \<or> data \<noteq> [] then [data] else [])) '':'') secret"

abbreviation client_auth :: "application \<Rightarrow> string \<Rightarrow> string \<Rightarrow> string \<Rightarrow> string" where
  "client_auth a \<equiv> auth_for (app_Key a) (app_Secret a)"

lemma subscribe_frame_read:
  assumes "IsChannelNameValid n" "utf8_valid auth" "utf8_valid data"
  shows "unmarshal_event old (marshal_subscribe (NewSubscribe n auth data)) = Some ''pusher:subscribe''"
    "unmarshal_subscribe (marshal_subscribe (NewSubscribe n auth data)) = Some (NewSubscribe n auth data)"
proof -
  have u: "utf8_valid ''pusher:subscribe''" by (simp add: utf8_valid.simps is_ascii_def)
  show "unmarshal_event old (marshal_subscribe (NewSubscribe n auth data)) = Some ''pusher:subscribe''"
    unfolding NewSubscribe_def by (rule subscribe_event [OF u valid_name_utf8 [OF assms(1)] assms(2,3)])
  show "unmarshal_subscribe (marshal_subscribe (NewSubscribe n auth data)) = Some (NewSubscribe n auth data)"
    unfolding NewSubscribe_def by (rule subscribe_roundtrip [OF u valid_name_utf8 [OF assms(1)] assms(2,3)])
qed

lemma subscribe_handled:
  assumes name: "IsChannelNameValid n" and utf8: "utf8_valid auth" "utf8_valid data" and conn: "FindConnection a sid = Inr conn"
    and sid: "SocketID conn = sid"
  shows "handleSubscribe E conn sid (marshal_subscribe (NewSubscribe n auth data)) a tr =
    (if needs_auth n \<and> auth \<noteq> client_auth a sid n data
     then (a, emitPeerError E (peer_message (''Auth value for subscription to '' @ n @ '' is invalid'')) conn tr)
     else let (c, a1, tr1) = FindOrCreateChannelByChannelID E n a tr
          in (case app_Subscribe E c conn data a1 tr1 of
                (Some e, a2, tr2) \<Rightarrow> (a2, emitPeerError E reconnectImmediately conn tr2)
              | (None, a2, tr2) \<Rightarrow> (a2, tr2)))"
proof -
  have "(case strings_to_sign conn n data of None \<Rightarrow> False | Some toSign \<Rightarrow> \<not> validateAuthKey auth toSign a)
      = (needs_auth n \<and> auth \<noteq> client_auth a sid n data)"
    by (simp add: strings_to_sign_def needs_auth_def auth_for_def validateAuthKey_def sid Let_def)
  then show ?thesis
    unfolding handleSubscribe_def subscribe_frame_read(2) [OF name utf8]
    by (simp add: conn NewSubscribe_def trim_valid_name [OF name] name Let_def)
qed

lemma joined_and_confirmed:
  assumes wf: "app_wf a" and ok: "sockets_ok E" and conn: "FindConnection a sid = Inr conn"
    and data: "IsPresenceChannel n \<Longrightarrow> unmarshal_member data \<noteq> None"
    and ch: "FindOrCreateChannelByChannelID E n a tr = (c, a1, tr1)"
    and sub: "app_Subscribe E c conn data a1 tr1 = (err, a', tr')"
  shows "err = None \<and> app_wf a' \<and> connections a' = connections a \<and> subs_rel a' = insert (n, sid) (subs_rel a)
    \<and> (\<exists>c'. map_of (channels a') n = Some c' \<and> written (Socket conn) tr' = written (Socket conn) tr @ [confirmation c'])"
proof -
  have m: "map_of (connections a) sid = Some conn" using conn by (auto simp: FindConnection_def split: option.splits)
  have sid: "SocketID conn = sid" by (rule app_wf_connection [OF wf m])
  note f = FindOrCreate_result [OF wf ch]
  have c: "map_of (channels a1) (chan_ID c) = Some c" using f(2,3) by simp
  have m1: "map_of (connections a1) (SocketID conn) = Some conn" using f(4) m sid by simp
  have pres: "IsPresence c = IsPresenceChannel n" using f(3) by (simp add: IsPresence_def)
  note new = newcomer_confirmed [OF app_wf_channel(2) [OF f(1) c] ok socket_owner [OF f(1) c m1] data [folded pres], where tr = tr1]
  let ?c = "fst (snd (channel_Subscribe E c conn data tr1))"
  have a': "a' = store_channel ?c a1" using app_Subscribe_app [of E c conn data a1 tr1] sub by simp
  have "map_of (channels a') n = Some ?c"
    by (simp add: a' store_channel_def map_of_update frame_simps f(2,3))
  moreover have "written (Socket conn) tr' = written (Socket conn) tr @ [confirmation ?c]"
    using new written_app_Subscribe(2) [of "Socket conn" E c conn data a1 tr1] sub FindOrCreate_written [OF ch] by simp
  moreover have "err = None" using new written_app_Subscribe(1) [of E c conn data a1 tr1] sub by simp
  ultimately show ?thesis
    using app_Subscribe_rel [OF c, of E conn data tr1] app_Subscribe_wf [OF f(1) c m1, of E data tr1] sub f(3,4,5) sid
    by auto
qed

lemma subscription_result:
  assumes wf: "app_wf a" and ok: "sockets_ok E" and conn: "FindConnection a sid = Inr conn"
    and name: "IsChannelNameValid n" and utf8: "utf8_valid auth" "utf8_valid data"
    and data: "IsPresenceChannel n \<Longrightarrow> unmarshal_member data \<noteq> None"
    and event: "unmarshal_event old (marshal_subscribe (NewSubscribe n auth data)) = Some ev"
    and run: "dispatch E conn sid ev (marshal_subscribe (NewSubscribe n auth data)) a tr = (a', tr')"
  shows "if needs_auth n \<and> auth \<noteq> client_auth a sid n data
    then a' = a \<and> written (Socket conn) tr' = written (Socket conn) tr
           @ [NewError 0 (''Auth value for subscription to '' @ n @ '' is invalid'')]
    else app_wf a' \<and> connections a' = connections a \<and> subs_rel a' = insert (n, sid) (subs_rel a)
      \<and> (\<exists>c. map_of (channels a') n = Some c \<and> written (Socket conn) tr' = written (Socket conn) tr @ [confirmation c])"
proof -
  have m: "map_of (connections a) sid = Some conn" using conn by (auto simp: FindConnection_def split: option.splits)
  have sid: "SocketID conn = sid" by (rule app_wf_connection [OF wf m])
  have ev: "ev = ''pusher:subscribe''" using event subscribe_frame_read(1) [OF name utf8, of old] by simp
  note h = subscribe_handled [OF name utf8 conn sid, of E tr]
  have d: "handleSubscribe E conn sid (marshal_subscribe (NewSubscribe n auth data)) a tr = (a', tr')"
    using run by (simp add: ev dispatch_def)
  show ?thesis
  proof (cases "needs_auth n \<and> auth \<noteq> client_auth a sid n data")
    case True
    then show ?thesis
      using d h by (auto simp: emitPeerError_def peer_message_def connection_Publish_obs(5) [OF ok])
  next
    case False
    obtain c a1 tr1 where ch: "FindOrCreateChannelByChannelID E n a tr = (c, a1, tr1)" by (rule prod_cases3)
    obtain err a2 tr2 where s: "app_Subscribe E c conn data a1 tr1 = (err, a2, tr2)" by (rule prod_cases3)
    note j = joined_and_confirmed [OF wf ok conn data ch s]
    have "a' = a2" "tr' = tr2" using d h False ch s j by auto
    then show ?thesis using j unfolding if_not_P [OF False] by blast
  qed
qed

text \<open>
  Claim C13: a client that presents what it must gets in. The frame it sends (as the events package
  encodes it) is read as a subscription whatever was read before; on a private or presence channel
  with any other auth key than the one signed for its socket id, the channel and the data, it is told
  so and nothing changes; otherwise exactly its subscription is added and it is sent exactly one
  frame, the confirmation, on a presence channel with the roster it is now in.
\<close>

theorem signed_subscription_accepted:
  assumes wf: "app_wf a" and ok: "sockets_ok E" and conn: "FindConnection a sid = Inr conn"
    and name: "IsChannelNameValid n" and utf8: "utf8_valid auth" "utf8_valid data"
    and data: "IsPresenceChannel n \<Longrightarrow> unmarshal_member data \<noteq> None"
    and event: "unmarshal_event old (marshal_subscribe (NewSubscribe n auth data)) = Some ev"
    and run: "dispatch E conn sid ev (marshal_subscribe (NewSubscribe n auth data)) a tr = (a', tr')"
  shows "if needs_auth n \<and> auth \<noteq> client_auth a sid n data
    then a' = a \<and> written (Socket conn) tr' = written (Socket conn) tr
           @ [NewError 0 (''Auth value for subscription to '' @ n @ '' is invalid'')]
    else app_wf a' \<and> live a' = live a \<and> subs_rel a' = insert (n, sid) (subs_rel a)
      \<and> (\<exists>c. map_of (channels a') n = Some c \<and> written (Socket conn) tr' = written (Socket conn) tr @ [confirmation c])"
  using subscription_result [OF assms] unfolding live_def by (auto split: if_splits)

lemma client_auth_utf8: "list_all is_ascii key \<Longrightarrow> utf8_valid (auth_for key secret sid n data)"
  using HashMAC_utf8 [of "key @ '':''"] by (simp add: auth_for_def is_ascii_def)

theorem signed_subscription_accepted_witness:
  "\<exists>a conn a' tr'. dispatch demo_env conn ''1.1'' ''pusher:subscribe''
       (marshal_subscribe (NewSubscribe ''private-a'' (client_auth a ''1.1'' ''private-a'' []) [])) a [] = (a', tr')
     \<and> (''private-a'', ''1.1'') \<notin> subs_rel a \<and> (''private-a'', ''1.1'') \<in> subs_rel a' \<and> length (written (Socket conn) tr') = 1"
proof -
  obtain a tr where a: "app_wf a" "config_of a = config_of demo_app" "hub_of a = \<lparr>who = {(''1.1'', 1)}, subscribed = {}\<rparr>"
    by (rule demo_session)
  have "''1.1'' \<in> live a" unfolding hub_of_live [symmetric] a(3) by (simp add: is_live_def)
  then obtain conn where conn: "FindConnection a ''1.1'' = Inr conn"
    by (auto simp: live_def FindConnection_def dest: in_keysD)
  let ?auth = "client_auth a ''1.1'' ''private-a'' []"
  have "app_Key a = ''key''" using a(2) by (simp add: config_of_def demo_app_def empty_application_def)
  then have u: "utf8_valid ?auth" "utf8_valid []" by (simp_all add: client_auth_utf8 is_ascii_def utf8_valid.simps)
  obtain a' tr' where d: "dispatch demo_env conn ''1.1'' ''pusher:subscribe'' (marshal_subscribe (NewSubscribe ''private-a'' ?auth [])) a [] = (a', tr')"
    by fastforce
  have "\<not> IsPresenceChannel ''private-a''" by (simp add: IsPresenceChannel_def)
  then have "subs_rel a' = insert (''private-a'', ''1.1'') (subs_rel a)" "length (written (Socket conn) tr') = 1"
    using signed_subscription_accepted [OF a(1) demo_wf(2) conn demo_private_name(2) u _ subscribe_frame_read(1) [OF demo_private_name(2) u] d]
    by (auto simp: written_simps)
  moreover have "(''private-a'', ''1.1'') \<notin> subs_rel a" using a(3) by (simp add: hub_of_def)
  ultimately show ?thesis using d by blast
qed

end
