(* ===== verification/Server_Spec.thy ===== *)
theory Server_Spec
  imports Server App_Hub
begin

text \<open>What \<open>Start\<close> of \<open>src/ipe.go\<close> makes of a configuration.\<close>

section \<open>The applications of a configuration\<close>

definition configured :: "redis_client \<Rightarrow> config_application \<Rightarrow> application" where
  "configured rc c = empty_application (ca_Name c) (ca_AppID c) (ca_Key c) (ca_Secret c) (ca_OnlySSL c) (ca_Enabled c)
     (ca_UserEvents c) (cw_Enabled (ca_WebHooks c)) (cw_URL (ca_WebHooks c)) (Some rc)"

definition stats_names :: "config_application list \<Rightarrow> string list" where
  "stats_names cs = List.map (\<lambda>c. stats_name (ca_Name c) (ca_AppID c)) cs"

lemma stats_names_simps [simp]:
  "stats_names [] = []" "stats_names (c # cs) = stats_name (ca_Name c) (ca_AppID c) # stats_names cs"
  by (simp_all add: stats_names_def)

lemma add_apps_result:
  "add_apps rc cs published db =
     (if distinct (stats_names cs) \<and> set (stats_names cs) \<inter> set published = {}
      then Some \<lparr>Apps = Apps db @ List.map (configured rc) cs\<rparr> else None)"
  by (induction rc cs published db rule: add_apps.induct)
     (auto simp: NewApplication_def AddApp_def configured_def split: option.split)

lemma configured_fresh: "app_wf (configured rc c)" "hub_of (configured rc c) = empty_hub"
  by (simp_all add: configured_def app_wf_empty hub_of_empty)

lemma configured_fields [simp]:
  "AppID (configured rc c) = ca_AppID c" "app_Key (configured rc c) = ca_Key c" "app_Secret (configured rc c) = ca_Secret c"
  "app_Enabled (configured rc c) = ca_Enabled c" "redisClient (configured rc c) = Some rc"
  by (simp_all add: configured_def empty_application_def)

lemma find_map: "List.find p (List.map f xs) = map_option f (List.find (p \<circ> f) xs)"
  by (induction xs) auto

lemma configured_found:
  "GetAppByAppID \<lparr>Apps = List.map (configured rc) cs\<rparr> appID =
     (case List.find (\<lambda>c. ca_AppID c = appID) cs of None \<Rightarrow> Inl ErrAppNotFound | Some c \<Rightarrow> Inr (configured rc c))"
  "GetAppByKey \<lparr>Apps = List.map (configured rc) cs\<rparr> key =
     (case List.find (\<lambda>c. ca_Key c = key) cs of None \<Rightarrow> Inl ErrAppNotFound | Some c \<Rightarrow> Inr (configured rc c))"
  by (simp_all add: GetAppByAppID_def GetAppByKey_def find_app_def find_map comp_def split: option.split)

section \<open>Starting the server\<close>

text \<open>The environment is in order: what \<open>Start\<close> found on its way to making the applications.\<close>

definition ready :: "env \<Rightarrow> (string \<Rightarrow> string) \<Rightarrow> (string \<Rightarrow> config_file option) \<Rightarrow> bool \<Rightarrow> string option \<Rightarrow> trace
    \<Rightarrow> config_file \<Rightarrow> redis_client \<Rightarrow> trace \<Rightarrow> bool" where
  "ready E vars yaml logger_ok content tr conf rc tr1 \<longleftrightarrow> logger_ok
     \<and> (case content of None \<Rightarrow> False | Some data \<Rightarrow> yaml (os_Expand vars data) = Some conf)
     \<and> redis_NewClient E vars tr = (Inr rc, tr1)"

definition started :: "config_file \<Rightarrow> redis_client \<Rightarrow> server" where
  "started conf rc = \<lparr>srv_Storage = \<lparr>Apps = List.map (configured rc) (cf_Apps conf)\<rparr>, srv_HTTPS = (if cs_Enabled (cf_SSL conf)
     then Some (cs_Host (cf_SSL conf), cs_CertFile (cf_SSL conf), cs_KeyFile (cf_SSL conf)) else None), srv_HTTP = cf_Host conf\<rparr>"

lemma start_ready:
  "ready E vars yaml logger_ok content tr conf rc tr1 \<Longrightarrow> Start E vars yaml logger_ok content tr =
    (if distinct (stats_names (cf_Apps conf)) then Serving (started conf rc) else StartPanic, tr1)"
  by (auto simp: ready_def Start_def started_def add_apps_result NewInMemory_def split: option.splits)

lemma start_not_ready:
  "\<forall>conf rc tr1. \<not> ready E vars yaml logger_ok content tr conf rc tr1 \<Longrightarrow>
    fst (Start E vars yaml logger_ok content tr) = (if logger_ok
      then StartReturned (case content of None \<Rightarrow> ''Failed to read config file'' | Some data \<Rightarrow>
        if yaml (os_Expand vars data) = None then ''Failed to parse config file'' else ''Failed to initialize Redis client'')
      else StartPanic)"
  by (cases "redis_NewClient E vars tr"; cases "fst (redis_NewClient E vars tr)")
     (auto simp: ready_def Start_def split: option.split)

lemma started_facts:
  "srv_HTTP (started conf rc) = cf_Host conf" "srv_HTTPS (started conf rc) \<noteq> None \<longleftrightarrow> cs_Enabled (cf_SSL conf)"
  "GetAppByAppID (srv_Storage (started conf rc)) appID = (case List.find (\<lambda>c. ca_AppID c = appID) (cf_Apps conf) of
     None \<Rightarrow> Inl ErrAppNotFound | Some c \<Rightarrow> Inr (configured rc c))"
  "GetAppByKey (srv_Storage (started conf rc)) key = (case List.find (\<lambda>c. ca_Key c = key) (cf_Apps conf) of
     None \<Rightarrow> Inl ErrAppNotFound | Some c \<Rightarrow> Inr (configured rc c))"
  "a \<in> set (Apps (srv_Storage (started conf rc))) \<Longrightarrow> app_wf a \<and> hub_of a = empty_hub"
  by (auto simp: started_def configured_found configured_fresh)

lemma start_outcome:
  "(case Start E vars yaml logger_ok content tr of
      (Serving sv, tr') \<Rightarrow> \<exists>conf rc. ready E vars yaml logger_ok content tr conf rc tr' \<and> distinct (stats_names (cf_Apps conf)) \<and> sv = started conf rc
    | (StartPanic, tr') \<Rightarrow> \<not> logger_ok \<or> (\<exists>conf rc. ready E vars yaml logger_ok content tr conf rc tr' \<and> \<not> distinct (stats_names (cf_Apps conf)))
    | (StartReturned msg, tr') \<Rightarrow> logger_ok \<and> (\<forall>conf rc tr1. \<not> ready E vars yaml logger_ok content tr conf rc tr1))"
proof (cases "\<exists>conf rc tr1. ready E vars yaml logger_ok content tr conf rc tr1")
  case True
  then obtain conf rc tr1 where r: "ready E vars yaml logger_ok content tr conf rc tr1" by blast
  show ?thesis
  proof (cases "distinct (stats_names (cf_Apps conf))")
    case True
    with r show ?thesis by (auto simp: start_ready [OF r])
  next
    case False
    then have "\<exists>conf rc. ready E vars yaml logger_ok content tr conf rc tr1 \<and> \<not> distinct (stats_names (cf_Apps conf))" using r by blast
    with False r show ?thesis unfolding start_ready [OF r] by (simp add: ready_def)
  qed
next
  case False
  then show ?thesis
    using start_not_ready [where E = E and vars = vars and yaml = yaml and logger_ok = logger_ok and content = content and tr = tr]
    by (cases "Start E vars yaml logger_ok content tr") (auto split: if_splits)
qed

text \<open>
  Claim C34: the server serves exactly if the logger could be built, the file read and its expanded text
  parsed, Redis answered, and no two applications have the same published statistics name (name and
  id in one string); with two that have, or without a logger, it panics, and otherwise it returns with a
  message. When it serves, it holds the applications of the file in order, none with a connection or a
  channel; of two that share an id or a key only the first is ever found; and it listens to HTTPS only if
  that is enabled.
\<close>

theorem server_starts:
  "case Start E vars yaml logger_ok content tr of
     (Serving sv, tr') \<Rightarrow> (\<exists>conf rc. ready E vars yaml logger_ok content tr conf rc tr' \<and> distinct (stats_names (cf_Apps conf))
       \<and> srv_HTTP sv = cf_Host conf \<and> (srv_HTTPS sv \<noteq> None \<longleftrightarrow> cs_Enabled (cf_SSL conf))
       \<and> Apps (srv_Storage sv) = List.map (configured rc) (cf_Apps conf)
       \<and> (\<forall>appID. GetAppByAppID (srv_Storage sv) appID = (case List.find (\<lambda>c. ca_AppID c = appID) (cf_Apps conf) of
            None \<Rightarrow> Inl ErrAppNotFound | Some c \<Rightarrow> Inr (configured rc c)))
       \<and> (\<forall>key. GetAppByKey (srv_Storage sv) key = (case List.find (\<lambda>c. ca_Key c = key) (cf_Apps conf) of
            None \<Rightarrow> Inl ErrAppNotFound | Some c \<Rightarrow> Inr (configured rc c)))
       \<and> (\<forall>a \<in> set (Apps (srv_Storage sv)). app_wf a \<and> hub_of a = empty_hub))
   | (StartPanic, tr') \<Rightarrow> \<not> logger_ok \<or> (\<exists>conf rc. ready E vars yaml logger_ok content tr conf rc tr' \<and> \<not> distinct (stats_names (cf_Apps conf)))
   | (StartReturned msg, tr') \<Rightarrow> logger_ok \<and> (\<forall>conf rc tr1. \<not> ready E vars yaml logger_ok content tr conf rc tr1)"
proof (cases "\<exists>sv tr'. Start E vars yaml logger_ok content tr = (Serving sv, tr')")
  case True
  then obtain sv tr' where s: "Start E vars yaml logger_ok content tr = (Serving sv, tr')" by blast
  then obtain conf rc where r: "ready E vars yaml logger_ok content tr conf rc tr'" "distinct (stats_names (cf_Apps conf))" "sv = started conf rc"
    using start_outcome [where E = E and vars = vars and yaml = yaml and logger_ok = logger_ok and content = content and tr = tr] by auto
  have "Apps (srv_Storage (started conf rc)) = List.map (configured rc) (cf_Apps conf)" by (simp add: started_def)
  moreover have "\<forall>a \<in> set (Apps (srv_Storage (started conf rc))). app_wf a \<and> hub_of a = empty_hub" by (rule ballI) (rule started_facts(5))
  ultimately show ?thesis unfolding s prod.case start_result.case
    by (intro exI [of _ conf] exI [of _ rc] conjI allI) (use r in \<open>simp_all only: started_facts(1-4)\<close>)
next
  case False
  then show ?thesis
    using start_outcome [where E = E and vars = vars and yaml = yaml and logger_ok = logger_ok and content = content and tr = tr]
    by (cases "Start E vars yaml logger_ok content tr"; cases "fst (Start E vars yaml logger_ok content tr)") auto
qed

definition demo_config_app :: "string \<Rightarrow> config_application" where
  "demo_config_app secret = \<lparr>ca_Name = ''demo'', ca_AppID = ''1'', ca_Key = ''key'', ca_Secret = secret, ca_OnlySSL = False,
     ca_Enabled = True, ca_UserEvents = True, ca_WebHooks = \<lparr>cw_Enabled = False, cw_URL = []\<rparr>\<rparr>"

definition demo_config :: "config_application list \<Rightarrow> config_file" where
  "demo_config cs = \<lparr>cf_Host = '':8080'', cf_SSL = \<lparr>cs_Enabled = False, cs_Host = [], cs_KeyFile = [], cs_CertFile = []\<rparr>,
     cf_Profiling = False, cf_Apps = cs\<rparr>"

text \<open>A stand-in for YAML whose text is the secret of the one application.\<close>

definition demo_yaml :: "string \<Rightarrow> config_file option" where
  "demo_yaml s = Some (demo_config [demo_config_app s])"

definition demo_vars :: "string \<Rightarrow> string" where
  "demo_vars n = (if n = ''APP_SECRET'' then ''s3cr3t$'' else if n = ''IPE_INSTANCE_ID'' then ''i1'' else [])"

text \<open>
  In the text of the configuration every \<open>${name}\<close> is replaced by the variable, as it is,
  dollars in it included, and the rest is left alone.
\<close>

theorem configuration_expanded:
  assumes "list_all piece_ok ps"
  shows "os_Expand vars (concat (List.map piece_text ps)) = concat (List.map (piece_value vars) ps)"
  by (rule expand_template [OF assms])

theorem configuration_expanded_witness:
  "os_Expand demo_vars ''secret: ${APP_SECRET}!'' = ''secret: s3cr3t$!''"
  using configuration_expanded [of "[Lit ''secret: '', Var ''APP_SECRET'', Lit ''!'']" demo_vars] by (simp add: demo_vars_def)

lemma demo_client: "\<exists>rc tr1. redis_NewClient demo_env demo_vars [] = (Inr rc, tr1)"
proof -
  have "strconv_atoi ''0'' = Some 0" by code_simp
  then show ?thesis
    by (simp add: redis_NewClient_def demo_vars_def getEnv_def demo_env_def invoke_def Let_def succeeded_def strings_to_lower_def)
qed

theorem server_starts_witness:
  "\<exists>sv tr1. Start demo_env demo_vars demo_yaml True (Some ''${APP_SECRET}'') [] = (Serving sv, tr1) \<and> srv_HTTP sv = '':8080''"
proof -
  let ?file = "Some ''${APP_SECRET}''" and ?conf = "demo_config [demo_config_app (os_Expand demo_vars ''${APP_SECRET}'')]"
  obtain rc tr1 where rc: "redis_NewClient demo_env demo_vars [] = (Inr rc, tr1)" using demo_client by blast
  have r: "ready demo_env demo_vars demo_yaml True ?file [] ?conf rc tr1" by (simp add: ready_def demo_yaml_def rc)
  have "distinct (stats_names (cf_Apps ?conf))" by (simp add: demo_config_def)
  then obtain sv where s: "Start demo_env demo_vars demo_yaml True ?file [] = (Serving sv, tr1)" using start_ready [OF r] by simp
  obtain conf rc' where c: "ready demo_env demo_vars demo_yaml True ?file [] conf rc' tr1" "srv_HTTP sv = cf_Host conf"
    using server_starts [where E = demo_env and vars = demo_vars and yaml = demo_yaml and logger_ok = True and content = ?file and tr = "[]"] unfolding s by auto
  have "conf = ?conf" using c(1) by (simp add: ready_def demo_yaml_def)
  then show ?thesis using s c(2) by (simp add: demo_config_def)
qed

end
