(* ===== verification/Logger.thy ===== *)
theory Logger
  imports Prelude
begin

text \<open>
  \<open>src/logger/logger.go\<close>: the structured log. The logging library zap is a parameter: the
  configuration it proposes, which configurations it builds a logger from, and its development
  loggers. A logger is a handle; what is asked of it is recorded in order, with the level. Which
  levels a logger writes is its own affair.
\<close>

section \<open>The library\<close>

record zap_config =
  TimeKey :: string
  EncodeTime :: string
  LevelKey :: string
  MessageKey :: string
  CallerKey :: string
  EncodeCaller :: string

datatype level = DebugLevel | InfoLevel | WarnLevel | ErrorLevel | FatalLevel

text \<open>Fields made by \<open>zap.String\<close>, \<open>zap.Bool\<close> and \<open>zap.Error\<close> (which is named error).\<close>

datatype zap_field = StringField string string | BoolField string bool | ErrorField string

fun field_key :: "zap_field \<Rightarrow> string" where
  "field_key (StringField k v) = k"
| "field_key (BoolField k b) = k"
| "field_key (ErrorField e) = ''error''"

type_synonym entry = "nat \<times> level \<times> string \<times> zap_field list"

text \<open>\<open>Build\<close> gives a logger or an error; \<open>NewDevelopment\<close> may fail, which leaves a nil logger.\<close>

record zap =
  NewProductionConfig :: zap_config
  Build :: "zap_config \<Rightarrow> nat option"
  NewDevelopment :: "nat option"

section \<open>The package\<close>

record logger_state =
  globalLogger :: "nat option"
  entries_of :: "entry list"

text \<open>Calling a nil logger panics; after a fatal entry the process has exited.\<close>

datatype logged = Logged logger_state | NilLogger | Exited logger_state

definition init_config :: "zap_config \<Rightarrow> zap_config" where
  "init_config config = config\<lparr>TimeKey := ''timestamp'', EncodeTime := ''ISO8601TimeEncoder'', LevelKey := ''level'',
     MessageKey := ''message'', CallerKey := ''caller'', EncodeCaller := ''ShortCallerEncoder''\<rparr>"

text \<open>\<open>Init\<close>: whether it succeeded, and the state.\<close>

definition logger_Init :: "zap \<Rightarrow> logger_state \<Rightarrow> bool \<times> logger_state" where
  "logger_Init Z st =
     (case Build Z (init_config (NewProductionConfig Z)) of
        None \<Rightarrow> (False, st)
      | Some logger \<Rightarrow> (True, st\<lparr>globalLogger := Some logger\<rparr>))"

definition GetLogger :: "zap \<Rightarrow> logger_state \<Rightarrow> nat option" where
  "GetLogger Z st = (case globalLogger st of None \<Rightarrow> NewDevelopment Z | Some logger \<Rightarrow> Some logger)"

definition log_call :: "level \<Rightarrow> string \<Rightarrow> zap_field list \<Rightarrow> nat option \<Rightarrow> logger_state \<Rightarrow> logged" where
  "log_call lvl msg flds logger st =
     (case logger of
        None \<Rightarrow> NilLogger
      | Some l \<Rightarrow> (let st1 = st\<lparr>entries_of := entries_of st @ [(l, lvl, msg, flds)]\<rparr>
                  in if lvl = FatalLevel then Exited st1 else Logged st1))"

definition LogChannelEvent :: "zap \<Rightarrow> string \<Rightarrow> string \<Rightarrow> string \<Rightarrow> bool \<Rightarrow> logger_state \<Rightarrow> logged" where
  "LogChannelEvent Z channel payload msg success st =
     (let flds = [StringField ''channel'' channel, StringField ''payload'' payload, StringField ''message'' msg,
                    BoolField ''success'' success]
      in if success then log_call InfoLevel msg flds (GetLogger Z st) st
         else log_call ErrorLevel msg flds (GetLogger Z st) st)"

definition log_Info :: "zap \<Rightarrow> string \<Rightarrow> zap_field list \<Rightarrow> logger_state \<Rightarrow> logged" where
  "log_Info Z msg flds st = log_call InfoLevel msg flds (GetLogger Z st) st"

definition log_Error :: "zap \<Rightarrow> string \<Rightarrow> zap_field list \<Rightarrow> logger_state \<Rightarrow> logged" where
  "log_Error Z msg flds st = log_call ErrorLevel msg flds (GetLogger Z st) st"

definition ErrorWithErr :: "zap \<Rightarrow> string \<Rightarrow> string \<Rightarrow> zap_field list \<Rightarrow> logger_state \<Rightarrow> logged" where
  "ErrorWithErr Z msg err flds st = log_call ErrorLevel msg (flds @ [ErrorField err]) (GetLogger Z st) st"

definition log_Debug :: "zap \<Rightarrow> string \<Rightarrow> zap_field list \<Rightarrow> logger_state \<Rightarrow> logged" where
  "log_Debug Z msg flds st = log_call DebugLevel msg flds (GetLogger Z st) st"

definition log_Warn :: "zap \<Rightarrow> string \<Rightarrow> zap_field list \<Rightarrow> logger_state \<Rightarrow> logged" where
  "log_Warn Z msg flds st = log_call WarnLevel msg flds (GetLogger Z st) st"

definition log_Fatal :: "zap \<Rightarrow> string \<Rightarrow> zap_field list \<Rightarrow> logger_state \<Rightarrow> logged" where
  "log_Fatal Z msg flds st = log_call FatalLevel msg flds (GetLogger Z st) st"

section \<open>What is recorded\<close>

datatype log_request =
    LogInfo string "zap_field list"
  | LogError string "zap_field list"
  | LogErrorWithErr string string "zap_field list"
  | LogDebug string "zap_field list"
  | LogWarn string "zap_field list"
  | LogFatal string "zap_field list"
  | LogChannel string string string bool

fun perform_log :: "zap \<Rightarrow> log_request \<Rightarrow> logger_state \<Rightarrow> logged" where
  "perform_log Z (LogInfo m fs) st = log_Info Z m fs st"
| "perform_log Z (LogError m fs) st = log_Error Z m fs st"
| "perform_log Z (LogErrorWithErr m e fs) st = ErrorWithErr Z m e fs st"
| "perform_log Z (LogDebug m fs) st = log_Debug Z m fs st"
| "perform_log Z (LogWarn m fs) st = log_Warn Z m fs st"
| "perform_log Z (LogFatal m fs) st = log_Fatal Z m fs st"
| "perform_log Z (LogChannel c p m ok) st = LogChannelEvent Z c p m ok st"

fun run_log :: "zap \<Rightarrow> log_request list \<Rightarrow> logger_state \<Rightarrow> logged" where
  "run_log Z [] st = Logged st"
| "run_log Z (r # rs) st = (case perform_log Z r st of Logged st1 \<Rightarrow> run_log Z rs st1 | x \<Rightarrow> x)"

fun line_of :: "log_request \<Rightarrow> level \<times> string \<times> zap_field list" where
  "line_of (LogInfo m fs) = (InfoLevel, m, fs)"
| "line_of (LogError m fs) = (ErrorLevel, m, fs)"
| "line_of (LogErrorWithErr m e fs) = (ErrorLevel, m, fs @ [ErrorField e])"
| "line_of (LogDebug m fs) = (DebugLevel, m, fs)"
| "line_of (LogWarn m fs) = (WarnLevel, m, fs)"
| "line_of (LogFatal m fs) = (FatalLevel, m, fs)"
| "line_of (LogChannel c p m ok) = (if ok then InfoLevel else ErrorLevel, m,
     [StringField ''channel'' c, StringField ''payload'' p, StringField ''message'' m, BoolField ''success'' ok])"

definition is_fatal :: "log_request \<Rightarrow> bool" where
  "is_fatal r \<longleftrightarrow> fst (line_of r) = FatalLevel"

text \<open>The requests up to the first fatal one.\<close>

fun until_fatal :: "log_request list \<Rightarrow> log_request list" where
  "until_fatal [] = []"
| "until_fatal (r # rs) = (if is_fatal r then [r] else r # until_fatal rs)"

lemma perform_log_line: "perform_log Z r st = (case line_of r of (lvl, m, fs) \<Rightarrow> log_call lvl m fs (GetLogger Z st) st)"
  by (cases r) (simp_all add: log_Info_def log_Error_def ErrorWithErr_def log_Debug_def log_Warn_def log_Fatal_def LogChannelEvent_def)

lemma run_log_lines:
  "GetLogger Z st = Some l \<Longrightarrow> run_log Z rs st =
     (let st' = st\<lparr>entries_of := entries_of st @ List.map (\<lambda>r. (l, line_of r)) (until_fatal rs)\<rparr>
      in if list_ex is_fatal rs then Exited st' else Logged st')"
proof (induction rs arbitrary: st)
  case (Cons r rs)
  obtain lvl m fs where line: "line_of r = (lvl, m, fs)" by (rule prod_cases3)
  have "GetLogger Z (st\<lparr>entries_of := x\<rparr>) = Some l" for x using Cons.prems by (simp add: GetLogger_def split: option.split)
  then show ?case
    using Cons by (simp add: perform_log_line line log_call_def is_fatal_def Let_def)
qed simp

text \<open>
  Once \<open>Init\<close> has succeeded everything is logged on the logger it built, in order and at its level,
  up to the first fatal entry, after which the process has exited. If \<open>Init\<close> fails the state is as
  before, and what is logged goes to development loggers, if they can be made; if they cannot, the
  first call of the package panics.
\<close>

lemma everything_logged:
  assumes "globalLogger st = None"
  shows "case (if fst (logger_Init Z st) then Build Z (init_config (NewProductionConfig Z)) else NewDevelopment Z) of
      None \<Rightarrow> rs \<noteq> [] \<longrightarrow> run_log Z rs (snd (logger_Init Z st)) = NilLogger
    | Some l \<Rightarrow>
        let st1 = snd (logger_Init Z st);
            st2 = st1\<lparr>entries_of := entries_of st @ List.map (\<lambda>r. (l, line_of r)) (until_fatal rs)\<rparr>
        in run_log Z rs st1 = (if list_ex is_fatal rs then Exited st2 else Logged st2)"
proof (cases "Build Z (init_config (NewProductionConfig Z))")
  case None
  then have i: "logger_Init Z st = (False, st)" by (simp add: logger_Init_def)
  have g: "GetLogger Z st = NewDevelopment Z" using assms by (simp add: GetLogger_def)
  show ?thesis
    using g run_log_lines [of Z st _ rs] by (cases rs) (auto simp: i perform_log_line log_call_def Let_def split: option.split prod.split)
next
  case (Some l)
  then have i: "logger_Init Z st = (True, st\<lparr>globalLogger := Some l\<rparr>)" by (simp add: logger_Init_def)
  have "GetLogger Z (st\<lparr>globalLogger := Some l\<rparr>) = Some l" by (simp add: GetLogger_def)
  from run_log_lines [OF this, of rs] show ?thesis by (simp add: i Some Let_def)
qed

text \<open>The line of a channel event has two members of the name under which the logger writes its message.\<close>

lemma channel_event_repeats_message:
  "MessageKey (init_config config) \<in> field_key ` set (snd (snd (line_of (LogChannel c p m ok))))"
  by (simp add: init_config_def)

end
