(* ===== verification/Command.thy ===== *)
theory Command
  imports Server_Spec Logger
begin

text \<open>
  \<open>src/cmd/main.go\<close>: the command line. \<open>flag.Parse\<close> is the standard library's, written out for the one
  flag of the program; the flags other packages register (the logging package does) are a
  parameter: for a name whether the flag is a switch, and which values it takes. The banner is
  not modelled.
\<close>

section \<open>Flags\<close>

record other_flag =
  is_switch :: bool
  takes_value :: "string \<Rightarrow> bool"

text \<open>An argument that is a flag: its name and the value after an equals sign.\<close>

datatype flag_arg = NoFlag | Terminator | BadSyntax | FlagArg string "string option"

definition split_equals :: "string \<Rightarrow> string \<times> string option" where
  "split_equals s = (takeWhile (\<lambda>c. c \<noteq> CHR ''='') s,
     case dropWhile (\<lambda>c. c \<noteq> CHR ''='') s of [] \<Rightarrow> None | c # v \<Rightarrow> Some v)"

definition read_flag :: "string \<Rightarrow> flag_arg" where
  "read_flag s =
     (if length s < 2 \<or> hd s \<noteq> CHR ''-'' then NoFlag
      else if s = ''--'' then Terminator
      else let name = (if hd (tl s) = CHR ''-'' then drop 2 s else drop 1 s)
           in if hd name = CHR ''-'' \<or> hd name = CHR ''='' then BadSyntax
              else (case split_equals name of (n, v) \<Rightarrow> FlagArg n v))"

text \<open>The value of \<open>-config\<close>, or the status the process exits with: 0 after the help, 2 after an error.\<close>

datatype flag_result = ConfigFile string | ExitStatus int

fun parse_flags :: "(string \<Rightarrow> other_flag option) \<Rightarrow> string list \<Rightarrow> string \<Rightarrow> flag_result" where
  "parse_flags others [] filename = ConfigFile filename"
| "parse_flags others (s # args) filename =
     (case read_flag s of
        NoFlag \<Rightarrow> ConfigFile filename
      | Terminator \<Rightarrow> ConfigFile filename
      | BadSyntax \<Rightarrow> ExitStatus 2
      | FlagArg name value \<Rightarrow>
          if name = ''config'' then
            (case value of
               Some v \<Rightarrow> parse_flags others args v
             | None \<Rightarrow> (case args of [] \<Rightarrow> ExitStatus 2 | v # rest \<Rightarrow> parse_flags others rest v))
          else
            (case others name of
               None \<Rightarrow> ExitStatus (if name = ''help'' \<or> name = ''h'' then 0 else 2)
             | Some f \<Rightarrow>
                 (case value of
                    Some v \<Rightarrow> if takes_value f v then parse_flags others args filename else ExitStatus 2
                  | None \<Rightarrow>
                      if is_switch f then
                        if takes_value f ''true'' then parse_flags others args filename else ExitStatus 2
                      else (case args of
                              [] \<Rightarrow> ExitStatus 2
                            | v # rest \<Rightarrow> if takes_value f v then parse_flags others rest filename else ExitStatus 2))))"

section \<open>The program\<close>

datatype program_result = ExitedWith int | Ran start_result

text \<open>
  \<open>main\<close>, given the arguments, the files and what zap answers: \<open>Start\<close> begins with \<open>logger.Init\<close> and
  reads the file that the flag names.
\<close>

definition command_main ::
  "(string \<Rightarrow> other_flag option) \<Rightarrow> (string \<Rightarrow> string option) \<Rightarrow> zap \<Rightarrow> env \<Rightarrow> (string \<Rightarrow> string) \<Rightarrow> (string \<Rightarrow> config_file option)
   \<Rightarrow> string list \<Rightarrow> trace \<Rightarrow> program_result \<times> trace" where
  "command_main others files Z E vars yaml args tr =
     (case parse_flags others args ''config.yml'' of
        ExitStatus n \<Rightarrow> (ExitedWith n, tr)
      | ConfigFile filename \<Rightarrow>
          (let (ok, st) = logger_Init Z \<lparr>globalLogger = None, entries_of = []\<rparr>;
               (r, tr1) = Start E vars yaml ok (files filename) tr
           in (Ran r, tr1)))"

section \<open>Which file is read\<close>

text \<open>The four ways to write the flag.\<close>

datatype spelling = Dash | DashDash | DashEquals | DashDashEquals

fun config_args :: "spelling \<times> string \<Rightarrow> string list" where
  "config_args (Dash, v) = [''-config'', v]"
| "config_args (DashDash, v) = [''--config'', v]"
| "config_args (DashEquals, v) = [''-config='' @ v]"
| "config_args (DashDashEquals, v) = [''--config='' @ v]"

definition undefined_flag :: "(string \<Rightarrow> other_flag option) \<Rightarrow> string \<Rightarrow> bool" where
  "undefined_flag others n \<longleftrightarrow> n \<noteq> [] \<and> hd n \<noteq> CHR ''-'' \<and> CHR ''='' \<notin> set n \<and> n \<noteq> ''config'' \<and> others n = None"

lemma read_config:
  "read_flag ''-config'' = FlagArg ''config'' None" "read_flag ''--config'' = FlagArg ''config'' None"
  "read_flag (''-config='' @ v) = FlagArg ''config'' (Some v)" "read_flag (''--config='' @ v) = FlagArg ''config'' (Some v)"
  by (simp_all add: read_flag_def split_equals_def)

lemma parse_config: "parse_flags others (config_args sv @ rest) g = parse_flags others rest (snd sv)"
proof -
  obtain s v where sv: "sv = (s, v)" by fastforce
  show ?thesis
    by (cases s) (simp_all only: sv config_args.simps append.simps parse_flags.simps read_config [unfolded append.simps] flag_arg.case option.case list.case snd_conv simp_thms if_True)
qed

lemma parse_configs:
  "parse_flags others (concat (List.map config_args ss) @ rest) g = parse_flags others rest (last (g # List.map snd ss))"
proof (induction ss arbitrary: g)
  case (Cons s ss)
  then show ?case using parse_config [of others s "concat (List.map config_args ss) @ rest" g] by simp
qed simp

lemma read_undefined:
  assumes "undefined_flag others n"
  shows "read_flag (CHR ''-'' # n) = FlagArg n None"
proof -
  obtain c cs where n: "n = c # cs" "c \<noteq> CHR ''-''" "c \<noteq> CHR ''=''" using assms by (cases n) (auto simp: undefined_flag_def)
  have "split_equals n = (n, None)"
  proof -
    have "takeWhile (\<lambda>c. c \<noteq> CHR ''='') n = n" "dropWhile (\<lambda>c. c \<noteq> CHR ''='') n = []"
      using assms by (auto simp: undefined_flag_def takeWhile_eq_all_conv dropWhile_eq_Nil_conv)
    then show ?thesis by (simp only: split_equals_def list.case)
  qed
  then show ?thesis using n by (simp add: read_flag_def)
qed

text \<open>
  Claim C35: the program reads the last configuration file that the command line names, in whichever
  of the four ways it is written, \<open>config.yml\<close> if it names none; it then starts the server if zap
  builds the logger, with whatever follows the flags ignored. After a flag that is not defined nothing
  is started: the process exits with status 2, or 0 if help was asked for.
\<close>

theorem configuration_chosen:
  assumes "rest = [] \<or> read_flag (hd rest) \<in> {NoFlag, Terminator}" "undefined_flag others n"
  shows "command_main others files Z E vars yaml (concat (List.map config_args ss) @ rest) tr =
      (let (r, tr1) = Start E vars yaml (Build Z (init_config (NewProductionConfig Z)) \<noteq> None)
             (files (last (''config.yml'' # List.map snd ss))) tr
       in (Ran r, tr1))
    \<and> command_main others files Z E vars yaml (concat (List.map config_args ss) @ (CHR ''-'' # n) # rest') tr =
      (ExitedWith (if n = ''help'' \<or> n = ''h'' then 0 else 2), tr)"
proof (rule conjI)
  have i: "fst (logger_Init Z st) = (Build Z (init_config (NewProductionConfig Z)) \<noteq> None)" for st
    by (simp add: logger_Init_def split: option.split)
  have "parse_flags others rest g = ConfigFile g" for g using assms(1) by (cases rest) auto
  then show "command_main others files Z E vars yaml (concat (List.map config_args ss) @ rest) tr =
      (let (r, tr1) = Start E vars yaml (Build Z (init_config (NewProductionConfig Z)) \<noteq> None)
             (files (last (''config.yml'' # List.map snd ss))) tr
       in (Ran r, tr1))"
    by (simp only: command_main_def parse_configs flag_result.case Let_def split_beta i)
  have "parse_flags others ((CHR ''-'' # n) # rest') g = ExitStatus (if n = ''help'' \<or> n = ''h'' then 0 else 2)" for g
    using read_undefined [OF assms(2)] assms(2) by (simp add: undefined_flag_def)
  then show "command_main others files Z E vars yaml (concat (List.map config_args ss) @ (CHR ''-'' # n) # rest') tr =
      (ExitedWith (if n = ''help'' \<or> n = ''h'' then 0 else 2), tr)"
    by (simp only: command_main_def parse_configs flag_result.case)
qed

definition demo_zap :: zap where
  "demo_zap = \<lparr>NewProductionConfig = \<lparr>TimeKey = ''ts'', EncodeTime = ''EpochTimeEncoder'', LevelKey = ''level'', MessageKey = ''msg'',
     CallerKey = ''caller'', EncodeCaller = ''ShortCallerEncoder''\<rparr>, Build = \<lambda>c. Some 1, NewDevelopment = Some 2\<rparr>"

theorem configuration_chosen_witness:
  "command_main (\<lambda>n. None) (\<lambda>f. None) demo_zap demo_env demo_vars demo_yaml [''-config'', ''a.yml'', ''--config=b.yml'', ''x''] []
     = (Ran (StartReturned ''Failed to read config file''), [])
   \<and> command_main (\<lambda>n. None) (\<lambda>f. None) demo_zap demo_env demo_vars demo_yaml [''-help''] [] = (ExitedWith 0, [])"
proof -
  have r: "[''x''] = [] \<or> read_flag (hd [''x'']) \<in> {NoFlag, Terminator}" by (simp add: read_flag_def)
  have u: "undefined_flag (\<lambda>n. None) ''help''" by (simp add: undefined_flag_def)
  have "Build demo_zap (init_config (NewProductionConfig demo_zap)) \<noteq> None" by (simp add: demo_zap_def)
  then show ?thesis
    using configuration_chosen [OF r u, where ss = "[(Dash, ''a.yml''), (DashDashEquals, ''b.yml'')]" and files = "\<lambda>f. None"
        and Z = demo_zap and E = demo_env and vars = demo_vars and yaml = demo_yaml and tr = "[]"]
      configuration_chosen [OF r u, where ss = "[]" and files = "\<lambda>f. None"
        and Z = demo_zap and E = demo_env and vars = demo_vars and yaml = demo_yaml and tr = "[]" and rest' = "[]"]
    by (simp add: Start_def)
qed

end
