(* ===== verification/Whole_Program.thy ===== *)
theory Whole_Program
  imports Subscribing Sessions Command
begin

text \<open>
  From the configuration to a client's socket: a server is started, a client connects and subscribes,
  the owner of the application posts an event, and the client has been sent it.
\<close>

declare utf8_valid.simps [simp del]

section \<open>What identifies an application\<close>

definition identity_of :: "application \<Rightarrow> string \<times> string \<times> string \<times> bool" where
  "identity_of a = (AppID a, app_Key a, app_Secret a, app_Enabled a)"

lemma identity_frame [frame_simps]:
  "identity_of (stats_Add k d a) = identity_of a"
  "identity_of (count_channel c d a) = identity_of a"
  "identity_of (store_channel c a) = identity_of a"
  "identity_of (a\<lparr>connections := x\<rparr>) = identity_of a"
  "identity_of (a\<lparr>channels := y\<rparr>) = identity_of a"
  by (simp_all add: identity_of_def stats_Add_def count_channel_def store_channel_def Let_def)

lemma identity_setup: "identity_of (fst (setupChannelPubSub E rc cid a tr)) = identity_of a"
  by (simp add: setupChannelPubSub_def identity_of_def split: prod.split option.split)

lemma identity_AddChannel: "identity_of (fst (AddChannel E c a tr)) = identity_of a"
  by (simp add: AddChannel_def Let_def identity_frame split: prod.split option.split)
     (metis identity_setup identity_frame(5) fst_conv)

lemma identity_FindOrCreate: "identity_of (fst (snd (FindOrCreateChannelByChannelID E n a tr))) = identity_of a"
  using identity_AddChannel [of E]
  by (simp add: FindOrCreateChannelByChannelID_def split: prod.split sum.split)

lemma identity_Subscribe: "identity_of (fst (snd (app_Subscribe E c conn data a tr))) = identity_of a"
  by (simp add: app_Subscribe_app identity_frame)

lemma identity_Connect: "identity_of (fst (app_Connect E conn a tr)) = identity_of a"
  by (simp add: app_Connect_def Let_def identity_frame)

text \<open>An application that both its id and its key find is put back where both find it.\<close>

lemma find_replaced:
  "List.find p xs = Some a \<Longrightarrow> List.find q xs = Some a \<Longrightarrow> p b \<Longrightarrow> q b \<Longrightarrow> List.find q (replace_first p b xs) = Some b"
proof (induction xs)
  case (Cons x xs)
  have "p a" "q a" using Cons.prems(1,2) by (auto simp: find_Some_iff simp del: List.find.simps)
  then show ?case using Cons by (auto split: if_splits)
qed simp

lemma found_by_both:
  assumes "GetAppByKey db key = Inr a" "GetAppByAppID db i = Inr a" "identity_of b = identity_of a"
  shows "GetAppByAppID (store_by_key key b db) i = Inr b"
proof -
  have f: "List.find (\<lambda>a. app_Key a = key) (Apps db) = Some a" "List.find (\<lambda>a. AppID a = i) (Apps db) = Some a"
    using assms(1,2) by (auto simp: GetAppByKey_def GetAppByAppID_def find_app_def split: option.splits)
  then have "app_Key b = key" "AppID b = i"
    using assms(3) by (auto simp: identity_of_def find_Some_iff)
  then show ?thesis
    using find_replaced [OF f] by (simp add: GetAppByAppID_def find_app_def store_by_key_def)
qed

section \<open>A client connects and subscribes\<close>

lemma written_random_id: "random_id E tr = (sid, tr0) \<Longrightarrow> written h tr0 = written h tr"
  by (auto simp: random_id_def invoke_def written_simps Let_def)

lemma onOpen_connected:
  assumes wf: "app_wf a" and ok: "sockets_ok E" and hs: "handshake_ok r a" and fresh: "fresh_session sid sock a"
    and run: "onOpen E sock r sid a tr = (err, a1, tr1)"
  shows "err = None \<and> app_wf a1 \<and> identity_of a1 = identity_of a \<and> subs_rel a1 = subs_rel a
    \<and> (\<exists>conn. FindConnection a1 sid = Inr conn \<and> Socket conn = sock)
    \<and> written sock tr1 = written sock tr @ [NewConnectionEstablished sid]"
proof -
  have f: "sid \<notin> live a" "sock \<notin> (\<lambda>kc. Socket (snd kc)) ` set (connections a)" using fresh by (simp_all add: fresh_session_def)
  have none: "err = None" using handshake_succeeds [OF hs ok, of sock sid tr] run by simp
  note h = onOpen_handshake [OF wf f run]
  then have hub: "app_wf a1" "hub_of a1 = hub_run (HConnect sid sock) (hub_of a)" "written sock tr1 = written sock tr @ [NewConnectionEstablished sid]"
    using none by simp_all
  obtain conn tr2 where n: "connection_New E sid sock tr = (conn, tr2)" by fastforce
  obtain a2 tr3 where co: "app_Connect E conn a tr2 = (a2, tr3)" by fastforce
  have "a1 = a2" using onOpen_accept [OF hs n co] run none by (auto split: prod.splits option.splits)
  then have i: "identity_of a1 = identity_of a" using identity_Connect [of E conn a tr2] co by simp
  have "connections a2 = AList.update (SocketID conn) conn (connections a)"
    using app_Connect_fields(1) [of E conn a tr2] co by simp
  then have "FindConnection a1 sid = Inr conn"
    using \<open>a1 = a2\<close> connection_New_result [OF n, of sock] by (simp add: FindConnection_def map_of_update)
  moreover have "subs_rel a1 = subs_rel a" using hub(2) by (simp add: hub_of_def)
  ultimately show ?thesis using none hub i connection_New_result [OF n, of sock] by blast
qed

lemma dispatch_identity:
  assumes "IsChannelNameValid n" "utf8_valid auth" "utf8_valid data" "FindConnection a sid = Inr conn" "SocketID conn = sid"
    and "dispatch E conn sid ''pusher:subscribe'' (marshal_subscribe (NewSubscribe n auth data)) a tr = (a', tr')"
  shows "identity_of a' = identity_of a"
proof -
  obtain c a1 tr1 where ch: "FindOrCreateChannelByChannelID E n a tr = (c, a1, tr1)" by (rule prod_cases3)
  obtain err a2 tr2 where s: "app_Subscribe E c conn data a1 tr1 = (err, a2, tr2)" by (rule prod_cases3)
  have "identity_of a2 = identity_of a"
    using identity_FindOrCreate [of E n a tr] identity_Subscribe [of E c conn data a1 tr1] ch s by simp
  moreover have "a' = a \<or> a' = a2"
    using assms(6) subscribe_handled [OF assms(1-5), of E tr] ch s
    by (auto simp: dispatch_def split: if_splits option.splits)
  ultimately show ?thesis by auto
qed

lemma frame_subscribes:
  assumes wf: "app_wf a" and ok: "sockets_ok E" and armed: "reads_armed E" and conn: "FindConnection a sid = Inr conn"
    and name: "IsChannelNameValid n" and utf8: "utf8_valid auth" "utf8_valid data"
    and data: "IsPresenceChannel n \<Longrightarrow> unmarshal_member data \<noteq> None"
    and auth: "needs_auth n \<Longrightarrow> auth = client_auth a sid n data"
    and run: "handleMessages E sock sid [Frame (marshal_subscribe (NewSubscribe n auth data))] a tr = (ended, a', tr')"
  shows "\<not> ended \<and> app_wf a' \<and> identity_of a' = identity_of a \<and> FindConnection a' sid = Inr conn \<and> subs_rel a' = insert (n, sid) (subs_rel a)
    \<and> (\<exists>c. map_of (channels a') n = Some c \<and> written (Socket conn) tr' = written (Socket conn) tr @ [confirmation c])"
proof -
  let ?m = "marshal_subscribe (NewSubscribe n auth data)"
  obtain tr1 where r1: "renew_deadline E sock tr = (True, tr1)" "written (Socket conn) tr1 = written (Socket conn) tr"
    using renew_armed [OF armed] by blast
  obtain tr2 where r2: "renew_deadline E sock tr1 = (True, tr2)" "written (Socket conn) tr2 = written (Socket conn) tr1"
    using renew_armed [OF armed] by blast
  note ev = subscribe_frame_read(1) [OF name utf8]
  obtain a2 tr3 where d: "dispatch E conn sid ''pusher:subscribe'' ?m a tr2 = (a2, tr3)" by fastforce
  have m: "map_of (connections a) sid = Some conn" using conn by (auto simp: FindConnection_def split: option.splits)
  have e: "ended = False" "a' = a2" "tr' = tr3"
    using run by (simp_all add: handleMessages_def conn r1(1) r2(1) ev d)
  have na: "\<not> (needs_auth n \<and> auth \<noteq> client_auth a sid n data)" using auth by blast
  note j = subscription_result [OF wf ok conn name utf8 data ev d, unfolded if_not_P [OF na]]
  have "identity_of a2 = identity_of a" by (rule dispatch_identity [OF name utf8 conn app_wf_connection [OF wf m] d])
  moreover have "FindConnection a2 sid = Inr conn" using j conn by (simp add: FindConnection_def)
  ultimately show ?thesis using j unfolding e r1(2) r2(2) by blast
qed

lemma session_subscribes:
  assumes db: "GetAppByKey db (wr_Key r) = Inr a" and wf: "app_wf a" and ok: "sockets_ok E" and armed: "reads_armed E"
    and hs: "handshake_ok r a" and sid: "random_id E tr = (sid, tr0)" and fresh: "fresh_session sid sock a"
    and name: "IsChannelNameValid n" and utf8: "utf8_valid auth" "utf8_valid data"
    and data: "IsPresenceChannel n \<Longrightarrow> unmarshal_member data \<noteq> None"
    and auth: "needs_auth n \<Longrightarrow> auth = client_auth a sid n data"
    and run: "ServeWebsocket E (Some sock) r [Frame (marshal_subscribe (NewSubscribe n auth data))] db tr = (ended, db', tr')"
  shows "\<not> ended \<and> (\<exists>a' conn c. db' = store_by_key (wr_Key r) a' db \<and> app_wf a' \<and> identity_of a' = identity_of a
    \<and> FindConnection a' sid = Inr conn \<and> Socket conn = sock \<and> subs_rel a' = insert (n, sid) (subs_rel a)
    \<and> written sock tr' = written sock tr @ [NewConnectionEstablished sid, confirmation c])"
proof -
  obtain err a1 tr1 where o: "onOpen E sock r sid a tr0 = (err, a1, tr1)" by (rule prod_cases3)
  note c = onOpen_connected [OF wf ok hs fresh o]
  then obtain conn where conn: "FindConnection a1 sid = Inr conn" "Socket conn = sock" by blast
  obtain fin a2 tr2 where h: "handleMessages E sock sid [Frame (marshal_subscribe (NewSubscribe n auth data))] a1 tr1 = (fin, a2, tr2)"
    by (rule prod_cases3)
  have "client_auth a1 = client_auth a" using c by (simp add: identity_of_def)
  then have au: "needs_auth n \<Longrightarrow> auth = client_auth a1 sid n data" using auth by simp
  note f = frame_subscribes [OF conjunct1 [OF conjunct2 [OF c]] ok armed conn(1) name utf8 data au h]
  then have e: "ended = False" "db' = store_by_key (wr_Key r) a2 db" "tr' = tr2"
    using run db sid o c h by (auto simp: ServeWebsocket_def Let_def)
  show ?thesis using f c conn(2) written_random_id [OF sid, of sock] unfolding e by auto
qed

section \<open>The owner posts\<close>

lemma gate_open:
  assumes "GetAppByAppID db (rq_AppID p) = Inr a" "app_Enabled a" "signed_by a p"
  shows "serve_api E rt p db tr = route_handler E rt p db tr"
  using assms by (simp add: serve_api_def CheckAppDisabled_def Authentication_def signed_by_def)

lemma started_serving:
  assumes "Start E vars yaml True (Some text) tr0 = (Serving sv, tr)" "yaml (os_Expand vars text) = Some conf"
  shows "\<exists>rc. srv_Storage sv = \<lparr>Apps = List.map (configured rc) (cf_Apps conf)\<rparr>"
  using assms by (auto simp: Start_def add_apps_result NewInMemory_def split: prod.splits sum.splits if_splits)

text \<open>The frames of an event that the request posts to channel \<open>n\<close>: one for each time it names it.\<close>

definition event_frames :: "event_input \<Rightarrow> gval \<Rightarrow> string \<Rightarrow> message list" where
  "event_frames i v n = List.map (\<lambda>cid. NewResponse (in_Name i) cid v) (List.filter (\<lambda>cid. cid = n) (input_channels i))"

text \<open>
  Claim C1: the program does what it is for. A server that was started from a configuration file
  serves a client of one of its enabled applications: the client connects, subscribes to a channel
  with the auth key for its socket id (if the channel needs one), and stays connected; when the owner
  of the application then posts a signed event to the channel, the answer is 200 and what the client
  has been sent is exactly the greeting, the confirmation, and the event.
\<close>

theorem posted_event_arrives:
  assumes start: "Start E vars yaml True (Some text) tr0 = (Serving sv, tr)" and conf: "yaml (os_Expand vars text) = Some conf"
    and app: "List.find (\<lambda>c. ca_Key c = wr_Key r) (cf_Apps conf) = Some c" "List.find (\<lambda>c. ca_AppID c = rq_AppID p) (cf_Apps conf) = Some c"
    and enabled: "ca_Enabled c" "ca_OnlySSL c \<Longrightarrow> wr_TLS r"
    and protocol: "strings_trim_space (wr_Protocol r) \<noteq> []" "strconv_atoi (wr_Protocol r) = Some 7"
    and env: "sockets_ok E" "reads_armed E" and sid: "random_id E tr = (sid, tr1)"
    and name: "IsChannelNameValid n" and utf8: "utf8_valid auth" "utf8_valid data"
    and data: "IsPresenceChannel n \<Longrightarrow> unmarshal_member data \<noteq> None"
    and auth: "needs_auth n \<Longrightarrow> auth = auth_for (ca_Key c) (ca_Secret c) sid n data"
    and session: "ServeWebsocket E (Some sock) r [Frame (marshal_subscribe (NewSubscribe n auth data))] (srv_Storage sv) tr = (ended, db, tr2)"
    and signed: "HashMAC (request_to_sign p) (ca_Secret c) = values_get (rq_Query p) ''auth_signature''"
    and input: "decode_input (rq_Body p) = Some i" "unmarshal_any (raw_marshal (in_Data i)) = Some v"
      "length (case in_Data i of None \<Rightarrow> [] | Some d \<Rightarrow> d) \<le> 10000" "in_SocketID i \<noteq> sid"
    and post: "serve_api E RouteEvents p db tr2 = (w, db', tr3)"
  shows "\<not> ended \<and> rs_Status w = Some 200
    \<and> (\<exists>c. written sock tr3 = written sock tr @ [NewConnectionEstablished sid, confirmation c] @ event_frames i v n)"
proof -
  obtain rc where st: "srv_Storage sv = \<lparr>Apps = List.map (configured rc) (cf_Apps conf)\<rparr>" using started_serving [OF start conf] by blast
  let ?a = "configured rc c"
  have found: "GetAppByKey (srv_Storage sv) (wr_Key r) = Inr ?a" "GetAppByAppID (srv_Storage sv) (rq_AppID p) = Inr ?a"
    using app by (simp_all add: st configured_found)
  have empty: "connections ?a = []" "subs_rel ?a = {}" "OnlySSL ?a = ca_OnlySSL c"
    using configured_fresh(2) [of rc c] by (simp_all add: hub_of_def empty_hub_def) (simp_all add: configured_def empty_application_def)
  have hs: "handshake_ok r ?a" using protocol enabled empty(3) by (simp add: handshake_ok_def)
  have fresh: "fresh_session sid sock ?a" by (simp add: fresh_session_def live_def empty)
  have au: "needs_auth n \<Longrightarrow> auth = client_auth ?a sid n data" using auth by simp
  note s = session_subscribes [OF found(1) configured_fresh(1) env hs sid fresh name utf8 data au session]
  then obtain a1 conn ch where a1: "db = store_by_key (wr_Key r) a1 (srv_Storage sv)" "app_wf a1" "identity_of a1 = identity_of ?a"
      "FindConnection a1 sid = Inr conn" "Socket conn = sock" "subs_rel a1 = {(n, sid)}"
      "written sock tr2 = written sock tr @ [NewConnectionEstablished sid, confirmation ch]"
    using empty(2) by auto
  have db: "GetAppByAppID db (rq_AppID p) = Inr a1" unfolding a1(1) by (rule found_by_both [OF found a1(3)])
  have gate: "app_Enabled a1" "signed_by a1 p" using a1(3) enabled signed by (simp_all add: identity_of_def signed_by_def)
  have run: "PostEvents E p db tr2 = (w, db', tr3)" using post gate_open [OF db gate, of E RouteEvents tr2] by simp
  have "List.filter (\<lambda>cid. (cid, sid) \<in> subs_rel a1 \<and> sid \<noteq> in_SocketID i) (input_channels i) = List.filter (\<lambda>cid. cid = n) (input_channels i)"
    using input(4) by (simp add: a1(6))
  then show ?thesis
    using post_result [OF db a1(2) env(1) input(1-3) a1(4) run] s a1(5,7) by (auto simp: event_frames_def)
qed

lemma demo_started:
  obtains sv tr where "Start demo_env demo_vars demo_yaml True (Some ''secret'') [] = (Serving sv, tr)"
proof -
  obtain rc tr1 where rc: "redis_NewClient demo_env demo_vars [] = (Inr rc, tr1)" using demo_client by blast
  show ?thesis
    by (rule that) (simp add: Start_def rc demo_yaml_def demo_config_def add_apps_result NewInMemory_def)
qed

lemma demo_text: "demo_yaml (os_Expand demo_vars ''secret'') = Some (demo_config [demo_config_app ''secret''])"
proof -
  have "os_Expand demo_vars ''secret'' = ''secret''" by code_simp
  then show ?thesis by (simp add: demo_yaml_def)
qed

lemma random_id_nonempty: "random_id E tr = (sid, tr1) \<Longrightarrow> sid \<noteq> []"
  by (auto simp: random_id_def Let_def GenerateSessionID_def split: prod.splits)

theorem posted_event_arrives_witness:
  "\<exists>sv tr db tr2 ended w db' tr3 auth. Start demo_env demo_vars demo_yaml True (Some ''secret'') [] = (Serving sv, tr)
     \<and> ServeWebsocket demo_env (Some 1) demo_request [Frame (marshal_subscribe (NewSubscribe ''private-a'' auth []))] (srv_Storage sv) tr
         = (ended, db, tr2)
     \<and> serve_api demo_env RouteEvents (demo_request_to [] demo_input) db tr2 = (w, db', tr3)
     \<and> \<not> ended \<and> rs_Status w = Some 200 \<and> last (written 1 tr3) = NewResponse ''e'' ''private-a'' GNil"
proof -
  obtain sv tr where st: "Start demo_env demo_vars demo_yaml True (Some ''secret'') [] = (Serving sv, tr)" by (rule demo_started)
  obtain sid tr1 where sid: "random_id demo_env tr = (sid, tr1)" by fastforce
  let ?auth = "auth_for ''key'' ''secret'' sid ''private-a'' []" and ?p = "demo_request_to [] demo_input"
  let ?c = "demo_config_app ''secret''"
  obtain ended db tr2 where s: "ServeWebsocket demo_env (Some 1) demo_request
      [Frame (marshal_subscribe (NewSubscribe ''private-a'' ?auth []))] (srv_Storage sv) tr = (ended, db, tr2)" by (rule prod_cases3)
  obtain w db' tr3 where p: "serve_api demo_env RouteEvents ?p db tr2 = (w, db', tr3)" by (rule prod_cases3)
  have c: "List.find (\<lambda>c. ca_Key c = wr_Key demo_request) (cf_Apps (demo_config [?c])) = Some ?c"
    "List.find (\<lambda>c. ca_AppID c = rq_AppID ?p) (cf_Apps (demo_config [?c])) = Some ?c"
    "ca_Enabled ?c" "\<not> ca_OnlySSL ?c" "ca_Key ?c = ''key''" "ca_Secret ?c = ''secret''"
    by (simp_all add: demo_config_def demo_config_app_def demo_request_def demo_AppID)
  have pr: "strings_trim_space (wr_Protocol demo_request) \<noteq> []" "strconv_atoi (wr_Protocol demo_request) = Some 7"
    using demo_protocol by (simp_all add: demo_request_def)
  have env: "reads_armed demo_env" by (simp add: reads_armed_def demo_env_def succeeded_def)
  have u: "utf8_valid ?auth" "utf8_valid []" by (simp_all add: client_auth_utf8 is_ascii_def utf8_valid.simps)
  have sg: "HashMAC (request_to_sign ?p) (ca_Secret ?c) = values_get (rq_Query ?p) ''auth_signature''"
    using demo_signed [of "[]" demo_input] by (simp add: signed_by_def c(6)) (simp add: demo_app_def empty_application_def)
  have i: "decode_input (rq_Body ?p) = Some \<lparr>in_Name = ''e'', in_Data = None, in_Channels = [], in_Channel = ''private-a'', in_SocketID = []\<rparr>"
    using demo_input_decodes by (simp add: demo_AppID)
  have "event_frames \<lparr>in_Name = ''e'', in_Data = None, in_Channels = [], in_Channel = ''private-a'', in_SocketID = []\<rparr> GNil ''private-a''
      = [NewResponse ''e'' ''private-a'' GNil]" by (simp add: event_frames_def input_channels_def)
  then have "\<not> ended \<and> rs_Status w = Some 200 \<and> last (written 1 tr3) = NewResponse ''e'' ''private-a'' GNil"
    using posted_event_arrives [OF st demo_text c(1,2,3) _ pr demo_wf(2) env sid demo_private_name(2) u _ _ s sg i _ _ _ p, of GNil]
      c(4-6) demo_private_name(4) random_id_nonempty [OF sid]
    by (auto simp: raw_marshal_def unmarshal_null)
  then show ?thesis using st s p by blast
qed

end
