(* ===== verification/Test_Client.thy ===== *)
theory Test_Client
  imports App_Hooks Wire_Frames
begin

text \<open>
  \<open>src/functional/client.go\<close>: the program of the functional tests, a web site that authenticates
  the subscriptions of its visitors, triggers events and receives the web hooks of the server. The
  Pusher client library it uses is a parameter: what it answers to an authentication, and which
  triggers fail. A panic of a handler is a value; the log is not modelled.
\<close>

declare utf8_valid.simps [simp del]

section \<open>The client library\<close>

record pusher_Client =
  AppId :: string
  Key :: string
  Secret :: string
  Host :: string

record MemberData =
  md_UserId :: string
  md_UserInfo :: "(string \<times> string) list"

type_synonym trigger = "string \<times> string \<times> string"

record pusher_library =
  AuthenticatePresenceChannel :: "pusher_Client \<Rightarrow> string \<Rightarrow> MemberData \<Rightarrow> string option"
  AuthenticatePrivateChannel :: "pusher_Client \<Rightarrow> string \<Rightarrow> string option"
  Trigger :: "pusher_Client \<Rightarrow> trigger list \<Rightarrow> trigger \<Rightarrow> bool"

text \<open>The package's variable \<open>client\<close>, as \<open>init\<close> sets it.\<close>

definition init_client :: pusher_Client where
  "init_client = \<lparr>AppId = ''1'', Key = ''278d525bdf162c739803'', Secret = ''7ad3753142a6693b25b9'', Host = '':8080''\<rparr>"

section \<open>Handlers\<close>

text \<open>
  The body of a request: the bytes that arrive, and whether reading it fails after them. A handler
  writes its answer or panics, and the triggers it asked for are kept in order.
\<close>

record body_reader =
  br_bytes :: string
  br_fails :: bool

datatype handled = Answered string | Panicked

definition pusherPresenceAuth :: "pusher_library \<Rightarrow> body_reader \<Rightarrow> handled" where
  "pusherPresenceAuth L body =
     (let presenceData = \<lparr>md_UserId = ''1'', md_UserInfo = []\<rparr>
      in (case AuthenticatePresenceChannel L init_client (br_bytes body) presenceData of
            None \<Rightarrow> Panicked
          | Some response \<Rightarrow> Answered response))"

definition pusherPrivateAuth :: "pusher_library \<Rightarrow> body_reader \<Rightarrow> handled" where
  "pusherPrivateAuth L body =
     (case AuthenticatePrivateChannel L init_client (br_bytes body) of
        None \<Rightarrow> Panicked
      | Some response \<Rightarrow> Answered response)"

definition run_trigger :: "pusher_library \<Rightarrow> trigger \<Rightarrow> trigger list \<Rightarrow> handled \<times> trigger list" where
  "run_trigger L t ts = (if Trigger L init_client ts t then Answered ''OK'' else Panicked, ts @ [t])"

definition triggerMessage :: "pusher_library \<Rightarrow> trigger list \<Rightarrow> handled \<times> trigger list" where
  "triggerMessage L ts = run_trigger L (''private-messages'', ''messages'', ''The message from server'') ts"

text \<open>The field \<open>Events []struct{Name string}\<close>, and the names it holds after the body has been decoded.\<close>

definition decode_name :: "string \<Rightarrow> json \<Rightarrow> string option" where
  "decode_name old j = (case struct_members j of None \<Rightarrow> None | Some ms \<Rightarrow> string_field ''name'' ms old)"

definition hook_names :: "string \<Rightarrow> string list option" where
  "hook_names body =
     (case json_first body of
        None \<Rightarrow> None
      | Some j \<Rightarrow>
          (case struct_members j of
             None \<Rightarrow> None
           | Some ms \<Rightarrow> slice_field ''events'' decode_name [] ms))"

definition hookcallback :: "pusher_library \<Rightarrow> body_reader \<Rightarrow> trigger list \<Rightarrow> handled \<times> trigger list" where
  "hookcallback L body ts =
     (if br_fails body then (Panicked, ts)
      else (case hook_names (br_bytes body) of
              None \<Rightarrow> (Panicked, ts)
            | Some [] \<Rightarrow> (Panicked, ts)
            | Some (name # names) \<Rightarrow> run_trigger L (''private-webhook'', name, ''The Webhoook from server'') ts))"

section \<open>The server\<close>

text \<open>
  The handler a (clean) path is routed to, and the server: address and timeouts in seconds. Every
  other path is answered from the files of the directory.
\<close>

datatype client_handler = PresenceAuth | PrivateAuth | TriggerHandler | HookHandler | Files

definition client_route :: "string \<Rightarrow> client_handler" where
  "client_route path =
     (if path = ''/pusher/presence/auth'' then PresenceAuth
      else if path = ''/pusher/private/auth'' then PrivateAuth
      else if path = ''/trigger'' then TriggerHandler
      else if path = ''/hook'' then HookHandler
      else Files)"

record client_server =
  cs_Addr :: string
  ReadTimeout :: int
  WriteTimeout :: int
  IdleTimeout :: int

definition test_server :: client_server where
  "test_server = \<lparr>cs_Addr = '':5000'', ReadTimeout = 15, WriteTimeout = 15, IdleTimeout = 60\<rparr>"

text \<open>One request to the program; the file server (\<open>None\<close>) is the standard library's.\<close>

definition client_serve :: "pusher_library \<Rightarrow> string \<Rightarrow> body_reader \<Rightarrow> trigger list \<Rightarrow> handled option \<times> trigger list" where
  "client_serve L path body ts =
     (case client_route path of
        PresenceAuth \<Rightarrow> (Some (pusherPresenceAuth L body), ts)
      | PrivateAuth \<Rightarrow> (Some (pusherPrivateAuth L body), ts)
      | TriggerHandler \<Rightarrow> (let (h, ts1) = triggerMessage L ts in (Some h, ts1))
      | HookHandler \<Rightarrow> (let (h, ts1) = hookcallback L body ts in (Some h, ts1))
      | Files \<Rightarrow> (None, ts))"

section \<open>Web hooks are understood\<close>

text \<open>What the decoder sees of a hook event, and that it sees it.\<close>

definition hook_ok :: "hookEvent \<Rightarrow> bool" where
  "hook_ok e \<longleftrightarrow> utf8_valid (he_Name e) \<and> utf8_valid (he_Channel e) \<and> utf8_valid (he_Event e)
     \<and> utf8_valid (he_SocketID e) \<and> utf8_valid (he_UserID e)
     \<and> (case he_Data e of None \<Rightarrow> True | Some d \<Rightarrow> gval_ok d \<and> int (gdepth d) < 9997)"

definition data_depth :: "hookEvent \<Rightarrow> nat" where
  "data_depth e = (case he_Data e of None \<Rightarrow> 0 | Some d \<Rightarrow> gdepth d)"

lemma hook_event_reads:
  assumes "hook_ok e"
  shows "\<exists>j. reads (Suc (data_depth e)) (marshal_hook_event e) j \<and> decode_name old j = Some (he_Name e)"
proof -
  let ?d = "data_depth e"
  let ?data = "case he_Data e of None \<Rightarrow> [] | Some d \<Rightarrow> [(''data'', marshal d)]"
  let ?jdata = "case he_Data e of None \<Rightarrow> [] | Some d \<Rightarrow> [json_of d]"
  let ?fs = "[(''name'', json_quote (he_Name e)), (''channel'', json_quote (he_Channel e))]
      @ omitempty ''event'' (he_Event e) @ ?data @ omitempty ''socket_id'' (he_SocketID e) @ omitempty ''user_id'' (he_UserID e)"
  let ?js = "[JStr (he_Name e), JStr (he_Channel e)] @ omitted ''event'' (he_Event e) @ ?jdata
      @ omitted ''socket_id'' (he_SocketID e) @ omitted ''user_id'' (he_UserID e)"
  note ok = assms [unfolded hook_ok_def]
  have "list_all2 (field_reads ?d) ?data ?jdata"
    using ok marshal_reads by (simp add: data_depth_def split: option.splits)
  then have "list_all2 (field_reads ?d) ?fs ?js" using ok by (intro list_all2_appendI) simp_all
  from object_members(2) [OF this]
  have "reads (Suc ?d) (marshal_hook_event e) (JObj (members ?fs ?js))"
    using ok by (simp add: marshal_hook_event_def data_depth_def split: option.splits)
  moreover have "decode_name old (JObj (members ?fs ?js)) = Some (he_Name e)"
    by (simp add: decode_name_def omitempty_def omitted_def wire_simps split: option.split)
  ultimately show ?thesis by blast
qed

lemma reads_first: "reads d (json_object fs) j \<Longrightarrow> int d \<le> 10000 \<Longrightarrow> json_first (json_object fs) = Some j"
  using readsD [of d "json_object fs" j NeedVal "[]" "[]"] by (simp add: json_first_def continue_def json_object_def is_ws_def)

lemma webhook_names:
  assumes "hook_ok e"
  shows "hook_names (marshal_webhook \<lparr>TimeMs = n, wh_Events = [e]\<rparr>) = Some [he_Name e]"
proof -
  let ?d = "Suc (data_depth e)"
  obtain j where j: "reads ?d (marshal_hook_event e) j" "decode_name [] j = Some (he_Name e)"
    using hook_event_reads [OF assms] by blast
  have d: "int (Suc (Suc ?d)) \<le> 10000" using assms by (simp add: hook_ok_def data_depth_def split: option.splits)
  have "list_all2 (reads ?d) [marshal_hook_event e] [j]" using j by simp
  from reads_array [OF this]
  have "list_all2 (field_reads (Suc ?d))
      [(''time_ms'', int_dec n), (''events'', json_array [marshal_hook_event e])] [JNum (int_dec n), JArr [j]]"
    by simp
  from object_members(2) [OF this]
  have "json_first (marshal_webhook \<lparr>TimeMs = n, wh_Events = [e]\<rparr>) = Some (JObj (members
      [(''time_ms'', int_dec n), (''events'', json_array [marshal_hook_event e])] [JNum (int_dec n), JArr [j]]))"
    using d reads_first by (simp add: marshal_webhook_def)
  then show ?thesis using j(2) by (simp add: hook_names_def slice_field_def decode_slice_def wire_simps)
qed

definition hook_trigger :: "hookEvent \<Rightarrow> trigger" where
  "hook_trigger e = (''private-webhook'', he_Name e, ''The Webhoook from server'')"

definition deliver :: "pusher_library \<Rightarrow> string \<Rightarrow> trigger list \<Rightarrow> handled option \<times> trigger list" where
  "deliver L body ts = client_serve L ''/hook'' \<lparr>br_bytes = body, br_fails = False\<rparr> ts"

lemma hook_delivered:
  assumes "hook_ok e"
  shows "deliver L (snd (snd (hook_request a t e))) ts =
    (Some (if Trigger L init_client ts (hook_trigger e) then Answered ''OK'' else Panicked), ts @ [hook_trigger e])"
  using webhook_names [OF assms]
  by (simp add: deliver_def client_serve_def client_route_def hookcallback_def hook_request_def run_trigger_def hook_trigger_def Let_def)

lemma hooks_delivered:
  assumes "WebHooks a" "urls_ok E" "list_all hook_ok es"
  shows "\<exists>rs. posts (fold (\<lambda>e tr. snd (triggerHook E a e tr)) es tr) = posts tr @ rs
    \<and> list_all (\<lambda>r. fst r = URLWebHook a) rs
    \<and> fold (\<lambda>r ts. snd (deliver L (snd (snd r)) ts)) rs ts = ts @ List.map hook_trigger es"
  using assms(3)
proof (induction es arbitrary: tr ts)
  case (Cons e es)
  let ?r = "hook_request a (fst (time_now E tr)) e"
  obtain rs where rs: "posts (fold (\<lambda>e tr. snd (triggerHook E a e tr)) es (snd (triggerHook E a e tr)))
        = posts (snd (triggerHook E a e tr)) @ rs"
      "list_all (\<lambda>r. fst r = URLWebHook a) rs"
      "fold (\<lambda>r ts. snd (deliver L (snd (snd r)) ts)) rs (ts @ [hook_trigger e]) = (ts @ [hook_trigger e]) @ List.map hook_trigger es"
    using Cons by fastforce
  have "posts (snd (triggerHook E a e tr)) = posts tr @ [?r]"
    using triggerHook_posts [OF assms(2), of a e tr] assms(1) by simp
  moreover have "fst ?r = URLWebHook a" by (simp add: hook_request_def Let_def)
  moreover have "snd (deliver L (snd (snd ?r)) ts) = ts @ [hook_trigger e]"
    using hook_delivered Cons.prems by simp
  ultimately show ?case using rs by (intro exI [of _ "?r # rs"]) simp
qed simp

text \<open>
  Claim C30: the web hooks the server posts are understood at the other end: delivered in order to
  the test client's \<open>/hook\<close>, each makes it trigger exactly one event named as the hook on the
  channel \<open>private-webhook\<close>, in the order of the hooks, and is answered OK unless the trigger fails.
\<close>

theorem web_hooks_understood:
  assumes "WebHooks a" "urls_ok E" "list_all hook_ok es"
  shows "(\<exists>rs. posts (fold (\<lambda>e tr. snd (triggerHook E a e tr)) es tr) = posts tr @ rs
      \<and> list_all (\<lambda>r. fst r = URLWebHook a) rs
      \<and> fold (\<lambda>r ts. snd (deliver L (snd (snd r)) ts)) rs ts = ts @ List.map hook_trigger es)
    \<and> (\<forall>e \<in> set es. \<forall>t ts'. fst (deliver L (snd (snd (hook_request a t e))) ts')
         = Some (if Trigger L init_client ts' (hook_trigger e) then Answered ''OK'' else Panicked))"
proof (intro conjI ballI allI)
  show "\<exists>rs. posts (fold (\<lambda>e tr. snd (triggerHook E a e tr)) es tr) = posts tr @ rs
      \<and> list_all (\<lambda>r. fst r = URLWebHook a) rs
      \<and> fold (\<lambda>r ts. snd (deliver L (snd (snd r)) ts)) rs ts = ts @ List.map hook_trigger es"
    by (rule hooks_delivered [OF assms])
  fix e t ts' assume "e \<in> set es"
  then show "fst (deliver L (snd (snd (hook_request a t e))) ts')
      = Some (if Trigger L init_client ts' (hook_trigger e) then Answered ''OK'' else Panicked)"
    using assms(3) by (simp add: list_all_iff hook_delivered)
qed

definition demo_library :: pusher_library where
  "demo_library = \<lparr>AuthenticatePresenceChannel = \<lambda>c p m. None, AuthenticatePrivateChannel = \<lambda>c p. Some p, Trigger = \<lambda>c ts t. True\<rparr>"

definition hooking_app :: application where
  "hooking_app = demo_app\<lparr>WebHooks := True, URLWebHook := ''http://127.0.0.1:5000/hook''\<rparr>"

theorem web_hooks_understood_witness:
  "\<exists>rs. posts (fold (\<lambda>e tr. snd (triggerHook demo_env hooking_app e tr)) [newChannelOcuppiedHook ''a'', newChannelVacatedHook ''a''] []) = rs
      \<and> fold (\<lambda>r ts. snd (deliver demo_library (snd (snd r)) ts)) rs []
        = [(''private-webhook'', ''channel_occupied'', ''The Webhoook from server''),
           (''private-webhook'', ''channel_vacated'', ''The Webhoook from server'')]"
proof -
  have w: "WebHooks hooking_app" by (simp add: hooking_app_def)
  have o: "list_all hook_ok [newChannelOcuppiedHook ''a'', newChannelVacatedHook ''a'']"
    by (simp add: hook_ok_def newChannelOcuppiedHook_def newChannelVacatedHook_def is_ascii_def utf8_valid.simps)
  have p: "posts [] = []" by (simp add: posts_def)
  show ?thesis
    using web_hooks_understood [OF w demo_urls o, of "[]" demo_library "[]"] unfolding p
    by (auto simp: hook_trigger_def newChannelOcuppiedHook_def newChannelVacatedHook_def)
qed

end
