(* ===== verification/Spec2Isabelle.thy ===== *)
theory Spec2Isabelle
  imports Api_Answers Mocks Keepalive Interleaving Locks Cluster_Spec Whole_Program Test_Client
begin

  text \<open> Ipe, a server for the Pusher protocol written in Go: clients open websockets,
  subscribe to channels and receive what is published on them; the owner of an application publishes
  and queries over a signed HTTP API; several instances of the server share one Redis. This library
  models the program under \<open>src/\<close> as executable functions and proves what its clients,
  its operators and its tests rely on.

  \<^bold>\<open>The program.\<close> \<open>ipe.go\<close> reads a configuration, connects to
  Redis, creates the applications in a storage and opens the routes. A websocket is served by
  \<open>websockets/\<close>: handshake, read loop, one handler for each event. A request of the API
  is served by \<open>api/\<close>, behind two middlewares. Both work on an
  \<open>Application\<close> (\<open>app/\<close>), which owns the connections and the channels
  (\<open>channel/\<close>); a channel owns its subscriptions and writes to their connections
  (\<open>connection/\<close>). Joining, leaving and publishing also tell Redis
  (\<open>redis/\<close>) and the owner's web hook (\<open>app/webhooks.go\<close>). What goes over
  the wire is defined by \<open>events/\<close>.

  \<^bold>\<open>State and environment.\<close> A Go struct is a record with the fields of the
  source, a map an association list with distinct keys, a string its bytes, an \<open>int\<close> an
  unbounded integer (all of them are sizes and counters), and the words of SHA-256 are 32 bits wide.
  A mutation returns the new state; a pointer into a map is written back to it
  (\<open>store_channel\<close>, \<open>store_by_app_id\<close>, \<open>store_by_key\<close>).
  Everything the program asks of the outside (clock, random numbers, sockets, Redis, the web hook)
  is a call of the type \<open>call\<close>; an environment is any function from the calls and
  replies so far, newest first, to the next reply, and every operation returns the longer trace. So
  a theorem without a hypothesis on the environment holds whatever fails: each write, deadline,
  time-out and Redis error is a branch of the model. Hypotheses on the environment are named and say
  what is documented of it: \<open>sockets_ok\<close> (no write on a socket fails),
  \<open>reads_armed\<close> (nor does setting a read deadline), \<open>pings_written\<close> (nor writing a ping), \<open>subscribes\<close> (Redis
  accepts a \<open>SUBSCRIBE\<close>), \<open>redis_law\<close> (a \<open>GET\<close> answers what
  was \<open>SET\<close> and has not expired), \<open>redis_accepts\<close> (the commands that add
  and remove entries succeed), \<open>redis_serves\<close> (it answers what it holds, and nothing
  has expired), \<open>clock_ok\<close> (the clock writes RFC 3339). What a client is sent is read
  off the trace: \<open>written\<close> (frames handed to a socket), \<open>attempts\<close>,
  \<open>posts\<close>, \<open>publications\<close>.

  \<^bold>\<open>The theories.\<close> Groundwork:
  \<^item> \<open>Prelude\<close>: Go's string functions, decimal numerals, association lists, the collections
    \<open>wf_intros\<close>, \<open>obs_simps\<close> and \<open>frame_simps\<close>.
  \<^item> \<open>Json_Text\<close>, \<open>Json\<close>, \<open>Json_Roundtrip\<close>: Go's \<open>encoding/json\<close>: UTF-8, string literals, numbers
    as float64, the scanner as a stack machine, the encoder; what is encoded is decoded to the same.
  \<^item> \<open>Unicode_Lower\<close>: Go's \<open>strings.ToLower\<close>, with Unicode's table.
  \<^item> \<open>Sha256\<close>, \<open>Utils\<close> (\<open>utils/utils.go\<close>): HMAC-SHA256 in hex, session ids, names of channels.
  \<^item> \<open>Subscription\<close>, \<open>World\<close>: the data of \<open>subscription/\<close> and \<open>connection/\<close>, calls and traces.
  \<^item> \<open>Expand\<close>: \<open>os.ExpandEnv\<close>.

  The components, each in the order of the code, with the names of the code:
  \<^item> \<open>Events\<close> (\<open>events/events.go\<close>), \<open>Connection\<close> (\<open>connection/connection.go\<close>), \<open>Channel\<close>
    (\<open>channel/channel.go\<close>, listeners included), \<open>Redis\<close> (\<open>redis/redis.go\<close>), \<open>App\<close> (\<open>app/app.go\<close> and
    \<open>app/webhooks.go\<close>), \<open>Storage\<close> (\<open>storage/storage.go\<close>), \<open>Websockets\<close> (\<open>websockets/\<close>), \<open>Api\<close>
    (\<open>api/handlers.go\<close>), \<open>Server\<close> (\<open>ipe.go\<close>, \<open>config/config.go\<close>), \<open>Logger\<close> (\<open>logger/logger.go\<close>), \<open>Command\<close>
    (\<open>cmd/main.go\<close>), \<open>Mocks\<close> (\<open>testutils/\<close>, \<open>mocks/\<close>), \<open>Test_Client\<close> (\<open>functional/client.go\<close>).
    A method is a definition of its name, with a prefix (\<open>app_\<close>, \<open>channel_\<close>, \<open>connection_\<close>, \<open>mock_\<close>) where
    two components use one name.

  The contracts and what is proved of the components:
  \<^item> \<open>Hub\<close>: what the server promises, without sockets, Redis or JSON: who is connected, and who is
    subscribed to what. Its locale \<open>hub_impl\<close> proves once that any implementation of the contract follows
    the history of its operations. \<open>App_Inv\<close> states the invariant \<open>app_wf\<close> of an application and
    \<open>App_Ops\<close> that every operation keeps it; \<open>App_Hub\<close> interprets the locale on the operations of
    \<open>App\<close>, and \<open>App_Spec\<close> draws the conclusions: subscriptions, counters, delivery, disconnecting.
  \<^item> \<open>App_Hooks\<close>: which web hooks joining and leaving post. \<open>Listeners\<close>: how many goroutines listen to
    Redis after any sequence of operations. \<open>Redis_View\<close> reads off the trace what
    Redis holds, and \<open>Redis_Mirror\<close> shows that its sets and hashes are those of the channels, after any
    sequence of operations.
  \<^item> \<open>Wire\<close>: round trips of the frames of clients and of the events between instances. \<open>Wire_Frames\<close>:
    what a peer decodes from every frame of the server, and from the text inside its data.
    \<open>Subscribing\<close>: a subscription from the client's frame to the confirmation it reads. \<open>Whole_Program\<close>:
    from a configuration file to an event that arrives at a client. \<open>Test_Client\<close>
    shows that the program of the functional tests understands the web hooks.
  \<^item> \<open>Registry_Spec\<close>: the contract of a registry that tells which instance holds a connection, a
    locale; \<open>Registry\<close> shows that the Redis client is one (a sublocale, for a Redis that keeps
    \<open>redis_law\<close>, within a day) and \<open>Mocks\<close> that the mock of the tests is another, so both answer alike.
  \<^item> \<open>Websockets_Inv\<close>, \<open>Websockets_Spec\<close>, \<open>Websockets_Loop\<close>: the handshake, authorisation over whole
    histories (an inductive step relation over the frames of all connections), the read loop.
    \<open>Sessions\<close>: a whole session, from the storage back to it. \<open>Keepalive\<close>: the same loop in time, with
    the pong handler and the ticks of the ping goroutine, and the read deadline that was last set on the
    socket: when a session ends.
  \<^item> \<open>Interleaving\<close>: goroutines of one instance at the grain of the critical sections of \<open>app.go\<close> and
    \<open>channel.go\<close>, on channel objects that live on a heap; when operations on one channel do not
    overlap nothing is lost, and what can be lost when they do; an operation that is not interrupted is
    the one of \<open>App\<close>. \<open>Locks\<close>: which function takes which lock around what (\<open>sync.RWMutex\<close> with
    waiting writers); no deadlock, and no lock held by two unless both read.
  \<^item> \<open>Cluster\<close>: several instances, one Redis; what one event makes each of them send. \<open>Shared_Redis\<close>:
    all histories of a cluster (an inductive step relation over the operations of every instance and the
    messages of Redis), each instance a hub of its own; what Redis says of the others is true.
    \<open>Cluster_Spec\<close>: so an event reaches every subscriber of every instance.
  \<^item> \<open>Api_Spec\<close>, \<open>Api_Answers\<close>: the signature check, posting, the queries, every answer.
    \<open>Server_Spec\<close>: what becomes of a configuration. \<open>Command\<close>: which configuration file is read. \<open>Logger\<close>:
    what is recorded, on which logger.

  \<^bold>\<open>What the proofs showed of the code.\<close> Some theorems state behaviour that a
  reader would not expect: the event of a frame without an event is that of the frame before
  (\<open>missing_event_repeats_last\<close>); client events are relayed although disabled
  (\<open>client_event_relayed\<close>); an instance sends its own subscribers twice what it also
  publishes on Redis (\<open>cluster_delivery\<close>); listener goroutines are never ended
  (\<open>listeners_count_creations\<close>); registrations vanish after a day
  (\<open>registration_lasts_a_day\<close>); the signature of a request does not cover all of it
  (\<open>signature_blind_spots\<close>); a channel that is posted to without subscribers stays
  (\<open>channels_without_subscribers\<close>); users are listed once for each connection
  (\<open>users_listed\<close>); clients that join or leave a channel at the same moment can be
  subscribed to an object that no map holds, and the counter of channels can drift
  (\<open>overlapping_operations\<close>); while Redis does not answer the creation of a channel, nobody can
  look up a connection (\<open>stalled_redis_blocks\<close>).

  \<^bold>\<open>Bounds and termination.\<close> No definition needs fuel: loops over maps and lists
  are folds, the JSON scanner ends because every token shortens the text, \<open>os_Expand\<close>
  because every step does, and the read loop is a recursion on the results of
  \<open>ReadMessage\<close>; an empty list of results stands for a read that has not returned yet,
  so that a session which is still running is a value (its first component is \<open>False\<close>).
  \<open>silent_peer_is_dropped\<close> shows when it ends, \<open>no_deadlock\<close> that goroutines do which
  run any of the operations at once. The loop in time ends because each round takes something off the
  list or brings the next tick nearer to what the loop waits for.

  \<^bold>\<open>Not modelled.\<close>
  \<^item> Interleavings inside one operation, but for the critical sections of joining, leaving and posting
    (\<open>Interleaving\<close>): elsewhere an operation of an application runs from its start to its end.
    Sequences of operations of any clients in any order are covered, and so are the goroutines that are
    waited for (web hooks); the ping goroutine shares only the socket with the loop, and \<open>Keepalive\<close> runs
    the two together. \<open>Locks\<close> follows the locks of all operations, not their data. \<open>Disconnect\<close> visits the map of channels without its lock, which the
    Go runtime may punish by ending the process if another goroutine writes to the map; that is not
    a state of the model.
  \<^item> The crash of an instance (\<open>Shared_Redis\<close> lets its instances run): what it stored in Redis stays until
    it expires.
  \<^item> The order in which a map is visited: the model visits it in the order of insertion. Statements on
    sets of subscribers do not depend on it.
  \<^item> Third-party code: the upgrade of gorilla/websocket, its router and recovery handler, go-redis, YAML,
    zap. They are calls of the environment or arguments of the definitions.
  \<^item> The calls that the other packages make of \<open>logger/\<close> (no effect on the state or on any answer), the
    banner of \<open>cmd/main.go\<close>, the files that \<open>functional/client.go\<close> serves, \<open>Close\<close> of the Redis client (it
    closes the pool and is never called), \<open>testutils/websocket.go\<close> (a comment).
\<close>

end
